(* ===== verification/Prelude.thy ===== *)
theory Prelude
  imports Main "HOL-Library.Word" "HOL-Library.Char_ord" "HOL-Library.List_Lexorder"
begin

text \<open>
  Shared vocabulary of the development: the machine integers of the C++ sources, the
  pieces of the C and C++ standard library the sources call on strings and numbers
  (\<open>std::to_string\<close>, \<open>std::tolower\<close>, \<open>std::isspace\<close>, \<open>strtol\<close> and its kin,
  \<open>std::string::find\<close>), and the generic lemmas on them that the components share.

  A \<open>char\<close> of a \<open>std::string\<close> is a byte, so strings are Isabelle's \<open>string\<close> (lists of
  8-bit \<open>char\<close>). A signed integer is the word that holds its bits, read with \<open>sint\<close>.
  The bits of an IEEE number are kept as a word too: the sources copy such values and never
  compute with them.
\<close>

section \<open>Collections of facts\<close>

named_theorems str_simps \<open>evaluation of the string helpers\<close>
named_theorems doc_laws \<open>read-over-write facts of the document interface\<close>
named_theorems branch_defs \<open>definitions unfolded by case analysis on the code's branches\<close>

section \<open>Machine types\<close>

type_synonym u8 = "8 word"
type_synonym u16 = "16 word"
type_synonym u32 = "32 word"
type_synonym u64 = "64 word"
type_synonym i32 = "32 word"
type_synonym i64 = "64 word"

text \<open>Floating point values, as the bits of their IEEE representation.\<close>

datatype f32 = F32 "32 word"
datatype f64 = F64 "64 word"

definition int32_max :: int where "int32_max = 2 ^ 31 - 1"
definition int32_min :: int where "int32_min = - (2 ^ 31)"
definition int64_max :: int where "int64_max = 2 ^ 63 - 1"
definition int64_min :: int where "int64_min = - (2 ^ 63)"

lemma sint_i32_bounds: "int32_min \<le> sint (w :: i32) \<and> sint w \<le> int32_max"
  using sint_range_size [of w] by (simp add: int32_min_def int32_max_def word_size)

lemma sint_i64_bounds: "int64_min \<le> sint (w :: i64) \<and> sint w \<le> int64_max"
  using sint_range_size [of w] by (simp add: int64_min_def int64_max_def word_size)

lemma sint_of_int_i32:
  "int32_min \<le> i \<Longrightarrow> i \<le> int32_max \<Longrightarrow> sint (word_of_int i :: i32) = i"
  by (simp add: signed_of_int int32_min_def int32_max_def signed_take_bit_int_eq_self)

lemma sint_of_int_i64:
  "int64_min \<le> i \<Longrightarrow> i \<le> int64_max \<Longrightarrow> sint (word_of_int i :: i64) = i"
  by (simp add: signed_of_int int64_min_def int64_max_def signed_take_bit_int_eq_self)

section \<open>Decimal rendering: \<open>std::to_string\<close>\<close>

definition digit_char :: "nat \<Rightarrow> char" where
  "digit_char d = char_of (48 + d)"

definition char_digit :: "char \<Rightarrow> nat option" where
  "char_digit c = (let n = of_char c :: nat in if 48 \<le> n \<and> n \<le> 57 then Some (n - 48) else None)"

fun dec_nat :: "nat \<Rightarrow> string" where
  "dec_nat n = (if n < 10 then [digit_char n] else dec_nat (n div 10) @ [digit_char (n mod 10)])"

declare dec_nat.simps [simp del]

definition dec_int :: "int \<Rightarrow> string" where
  "dec_int i = (if i < 0 then CHR ''-'' # dec_nat (nat (- i)) else dec_nat (nat i))"

definition to_string_i32 :: "i32 \<Rightarrow> string" where
  "to_string_i32 w = dec_int (sint w)"

definition to_string_i64 :: "i64 \<Rightarrow> string" where
  "to_string_i64 w = dec_int (sint w)"

definition to_string_u :: "'a::len word \<Rightarrow> string" where
  "to_string_u w = dec_nat (unat w)"

lemma char_digit_digit_char [simp]: "d < 10 \<Longrightarrow> char_digit (digit_char d) = Some d"
  by (simp add: char_digit_def digit_char_def Let_def)

lemma char_digit_bound: "char_digit c = Some d \<Longrightarrow> d < 10"
  by (auto simp: char_digit_def Let_def split: if_splits)

text \<open>The leading decimal digits of a string: their value and what is left.\<close>

fun scan_digits :: "nat \<Rightarrow> string \<Rightarrow> nat \<times> string" where
  "scan_digits acc [] = (acc, [])"
| "scan_digits acc (c # cs) =
     (case char_digit c of Some d \<Rightarrow> scan_digits (10 * acc + d) cs | None \<Rightarrow> (acc, c # cs))"

lemma dec_nat_nonempty [simp]: "dec_nat n \<noteq> []"
  by (subst dec_nat.simps) simp

lemma dec_int_nonempty [simp]: "dec_int i \<noteq> []"
  by (simp add: dec_int_def)

lemma dec_nat_all_digits: "\<forall>c \<in> set (dec_nat n). char_digit c \<noteq> None"
proof (induction n rule: dec_nat.induct)
  case (1 n)
  show ?case
    using "1.IH" by (subst dec_nat.simps) auto
qed

lemma scan_digits_snoc:
  "\<forall>c \<in> set xs. char_digit c \<noteq> None \<Longrightarrow> d < 10 \<Longrightarrow>
     scan_digits acc (xs @ [digit_char d]) = (10 * fst (scan_digits acc xs) + d, [])"
  by (induction xs arbitrary: acc) (auto split: option.splits)

lemma scan_digits_dec_nat: "scan_digits 0 (dec_nat n) = (n, [])"
proof (induction n rule: dec_nat.induct)
  case (1 n)
  show ?case
  proof (cases "n < 10")
    case True
    then show ?thesis by (subst dec_nat.simps) simp
  next
    case False
    have "scan_digits 0 (dec_nat (n div 10) @ [digit_char (n mod 10)])
        = (10 * fst (scan_digits 0 (dec_nat (n div 10))) + n mod 10, [])"
      by (rule scan_digits_snoc [OF dec_nat_all_digits]) simp
    with False "1.IH" show ?thesis by (subst dec_nat.simps) simp
  qed
qed

lemma scan_digits_stop:
  "\<forall>c \<in> set xs. char_digit c \<noteq> None \<Longrightarrow> char_digit x = None \<Longrightarrow>
     scan_digits acc (xs @ x # s) = (fst (scan_digits acc xs), x # s)"
  by (induction xs arbitrary: acc) (auto split: option.splits)

lemma scan_digits_dec_nat_stop:
  "char_digit x = None \<Longrightarrow> scan_digits 0 (dec_nat n @ x # s) = (n, x # s)"
  by (simp add: scan_digits_stop [OF dec_nat_all_digits] scan_digits_dec_nat)

lemma dec_nat_inject [simp]: "dec_nat m = dec_nat n \<longleftrightarrow> m = n"
  by (metis fst_conv scan_digits_dec_nat)

lemma hd_dec_nat: "char_digit (hd (dec_nat n)) \<noteq> None"
  using dec_nat_all_digits [of n] by (meson dec_nat_nonempty hd_in_set)

lemma dec_nat_not_minus: "dec_nat n \<noteq> CHR ''-'' # s"
  using hd_dec_nat [of n] by (auto simp: char_digit_def)

lemma dec_int_inject [simp]: "dec_int i = dec_int j \<longleftrightarrow> i = j"
  using dec_nat_not_minus [of "nat i"] dec_nat_not_minus [of "nat j"]
  by (auto simp: dec_int_def dest: sym)

lemma sint_eq_iff [simp]: "sint v = sint w \<longleftrightarrow> v = (w :: 'a::len word)"
  by (rule word_eq_iff_signed [symmetric])

lemma to_string_i64_inject [simp]: "to_string_i64 v = to_string_i64 w \<longleftrightarrow> v = w"
  by (simp add: to_string_i64_def)

lemma to_string_i32_inject [simp]: "to_string_i32 v = to_string_i32 w \<longleftrightarrow> v = w"
  by (simp add: to_string_i32_def)

lemma to_string_nonempty [simp]: "to_string_i32 v \<noteq> []" "to_string_i64 w \<noteq> []"
  by (simp_all add: to_string_i32_def to_string_i64_def)

section \<open>Bytes and strings\<close>

text \<open>\<open>std::tolower\<close> and \<open>std::isspace\<close> in the C locale.\<close>

definition tolower :: "char \<Rightarrow> char" where
  "tolower c = (let n = of_char c :: nat in if 65 \<le> n \<and> n \<le> 90 then char_of (n + 32) else c)"

definition lower :: "string \<Rightarrow> string" where
  "lower s = map tolower s"

definition is_space :: "char \<Rightarrow> bool" where
  "is_space c = (let n = of_char c :: nat in n = 32 \<or> (9 \<le> n \<and> n \<le> 13))"

definition nul :: char where "nul = char_of (0 :: nat)"

text \<open>\<open>s.rfind(p, 0) == 0\<close>, and the loop \<open>while (!s.empty() && P(s.back())) s.pop_back()\<close>.\<close>

definition starts_with :: "string \<Rightarrow> string \<Rightarrow> bool" where
  "starts_with p s = (take (length p) s = p)"

definition rtrim :: "(char \<Rightarrow> bool) \<Rightarrow> string \<Rightarrow> string" where
  "rtrim P s = rev (dropWhile P (rev s))"

text \<open>\<open>std::string::find\<close> of a string, of a character, and \<open>rfind\<close> of a character.\<close>

fun find_sub :: "string \<Rightarrow> string \<Rightarrow> nat option" where
  "find_sub p [] = (if p = [] then Some 0 else None)"
| "find_sub p (c # cs) =
     (if starts_with p (c # cs) then Some 0 else map_option Suc (find_sub p cs))"

fun find_char :: "char \<Rightarrow> string \<Rightarrow> nat option" where
  "find_char x [] = None"
| "find_char x (c # cs) = (if c = x then Some 0 else map_option Suc (find_char x cs))"

text \<open>What \<open>substr(s.rfind(x) + 1)\<close> leaves: the part after the last \<open>x\<close>, or the whole string.\<close>

definition after_last :: "char \<Rightarrow> string \<Rightarrow> string" where
  "after_last x s = rev (takeWhile (\<lambda>c. c \<noteq> x) (rev s))"

text \<open>\<open>fs::path::extension\<close>.\<close>

definition path_extension :: "string \<Rightarrow> string" where
  "path_extension path =
     (let name = after_last CHR ''/'' path; ext = after_last CHR ''.'' name in
      if name = ''..'' \<or> CHR ''.'' \<notin> set name \<or> Suc (length ext) = length name then []
      else CHR ''.'' # ext)"

text \<open>\<open>std::getline\<close> until the stream ends: the lines, a last one without a newline included
  unless it is empty.\<close>

fun getlines_acc :: "string \<Rightarrow> string \<Rightarrow> string list" where
  "getlines_acc acc [] = (if acc = [] then [] else [rev acc])"
| "getlines_acc acc (c # cs) =
     (if c = CHR ''\<newline>'' then rev acc # getlines_acc [] cs else getlines_acc (c # acc) cs)"

definition getlines :: "string \<Rightarrow> string list" where
  "getlines s = getlines_acc [] s"

lemma starts_with_append [simp, str_simps]: "starts_with p (p @ s)"
  by (simp add: starts_with_def)

lemma starts_with_iff: "starts_with p s \<longleftrightarrow> (\<exists>t. s = p @ t)"
  unfolding starts_with_def by (metis append_eq_conv_conj append_take_drop_id)

lemma find_sub_append:
  assumes "p \<noteq> []" and "hd p \<notin> set a"
  shows "find_sub p (a @ p @ b) = Some (length a)"
  using assms(2)
proof (induction a)
  case Nil
  from assms(1) obtain x xs where "p = x # xs" by (cases p) auto
  then show ?case by (simp add: starts_with_def)
next
  case (Cons c a)
  have "\<not> starts_with p ((c # a) @ p @ b)"
    using Cons.prems assms(1) by (cases p) (auto simp: starts_with_def)
  with Cons show ?case by simp
qed

lemma find_sub_SomeD: "find_sub p s = Some n \<Longrightarrow> s = take n s @ p @ drop (n + length p) s"
proof (induction s arbitrary: n)
  case Nil
  then show ?case by (simp split: if_splits)
next
  case (Cons c s)
  show ?case
  proof (cases "starts_with p (c # s)")
    case True
    with Cons.prems show ?thesis by (auto simp: starts_with_iff)
  next
    case False
    with Cons.prems obtain m where "find_sub p s = Some m" "n = Suc m" by auto
    with Cons.IH show ?thesis by simp
  qed
qed

lemma find_char_None [simp]: "find_char x s = None \<longleftrightarrow> x \<notin> set s"
  by (induction s) auto

lemma find_char_append: "x \<notin> set a \<Longrightarrow> find_char x (a @ x # b) = Some (length a)"
  by (induction a) auto

lemma find_char_SomeD:
  "find_char x s = Some n \<Longrightarrow> s = take n s @ x # drop (Suc n) s \<and> x \<notin> set (take n s)"
  by (induction s arbitrary: n) (auto split: if_splits)

lemma lower_length [simp]: "length (lower s) = length s"
  by (simp add: lower_def)

lemma lower_append [simp]: "lower (s @ t) = lower s @ lower t"
  by (simp add: lower_def)

lemma rtrim_last: "rtrim P s \<noteq> [] \<Longrightarrow> \<not> P (last (rtrim P s))"
  unfolding rtrim_def by (metis hd_dropWhile last_rev rev_is_Nil_conv)

lemma rtrim_prefix: "\<exists>t. s = rtrim P s @ t \<and> (\<forall>c \<in> set t. P c)"
proof (intro exI conjI)
  show "s = rtrim P s @ rev (takeWhile P (rev s))"
    unfolding rtrim_def by (metis rev_append rev_rev_ident takeWhile_dropWhile_id)
  show "\<forall>c \<in> set (rev (takeWhile P (rev s))). P c"
    by (auto dest: set_takeWhileD)
qed

lemma rtrim_id [simp]: "s = [] \<or> \<not> P (last s) \<Longrightarrow> rtrim P s = s"
  by (cases s rule: rev_cases) (auto simp: rtrim_def)

lemma rtrim_append_all: "\<forall>c \<in> set t. P c \<Longrightarrow> rtrim P (s @ t) = rtrim P s"
  unfolding rtrim_def by (subst rev_append, subst dropWhile_append2) auto

section \<open>\<open>strtol\<close>, \<open>strtoll\<close>, \<open>strtoul\<close>, \<open>strtoull\<close>, \<open>atoi\<close> in base 10\<close>

text \<open>
  The unbounded value the digits denote, and the number of characters consumed (0 when there
  are no digits, as the end pointer then is the start). \<open>long\<close> is 64 bits wide (LP64): a value
  out of range saturates.
\<close>

definition strtol_sign :: "string \<Rightarrow> bool \<times> string" where
  "strtol_sign s =
     (case s of [] \<Rightarrow> (False, [])
      | c # cs \<Rightarrow> if c = CHR ''-'' then (True, cs) else if c = CHR ''+'' then (False, cs) else (False, s))"

definition strtol_raw :: "string \<Rightarrow> int \<times> nat" where
  "strtol_raw s =
     (let (neg, ds) = strtol_sign (dropWhile is_space s);
          (v, rest) = scan_digits 0 ds
      in if length rest = length ds then (0, 0)
         else ((if neg then - int v else int v), length s - length rest))"

definition clamp :: "int \<Rightarrow> int \<Rightarrow> int \<Rightarrow> int" where
  "clamp lo hi v = max lo (min hi v)"

definition c_strtol :: "string \<Rightarrow> int \<times> nat" where
  "c_strtol s = (let (v, n) = strtol_raw s in (clamp int64_min int64_max v, n))"

definition c_strtoull :: "string \<Rightarrow> u64" where
  "c_strtoull s =
     (let (v, n) = strtol_raw s in if \<bar>v\<bar> \<ge> 2 ^ 64 then - 1 else word_of_int v)"

definition c_atoi :: "string \<Rightarrow> i32" where
  "c_atoi s = word_of_int (fst (c_strtol s))"

lemma hd_dec_int_not_space: "\<not> is_space (hd (dec_int i))"
  using hd_dec_nat [of "nat i"]
  by (auto simp: dec_int_def is_space_def char_digit_def Let_def split: if_splits)

lemma dropWhile_space_dec_int [simp]: "dropWhile is_space (dec_int i @ s) = dec_int i @ s"
  using hd_dec_int_not_space [of i] dec_int_nonempty [of i] by (cases "dec_int i") simp_all

lemma dropWhile_space_dec_int_only [simp]: "dropWhile is_space (dec_int i) = dec_int i"
  using dropWhile_space_dec_int [of i "[]"] by simp

lemma strtol_raw_dec_int: "strtol_raw (dec_int i) = (i, length (dec_int i))"
proof (cases "i < 0")
  case True
  then show ?thesis
    unfolding strtol_raw_def dropWhile_space_dec_int_only
    by (simp add: dec_int_def strtol_sign_def scan_digits_dec_nat)
next
  case False
  obtain c cs where c: "dec_nat (nat i) = c # cs" by (cases "dec_nat (nat i)") auto
  have "char_digit c \<noteq> None" using hd_dec_nat [of "nat i"] c by simp
  then have "c \<noteq> CHR ''-''" "c \<noteq> CHR ''+''" by (auto simp: char_digit_def)
  with False c show ?thesis
    unfolding strtol_raw_def dropWhile_space_dec_int_only
    using scan_digits_dec_nat [of "nat i"] by (simp add: dec_int_def strtol_sign_def)
qed

lemma strtol_raw_dec_int_stop:
  assumes "char_digit x = None"
  shows "strtol_raw (dec_int i @ x # s) = (i, length (dec_int i))"
proof (cases "i < 0")
  case True
  then show ?thesis
    unfolding strtol_raw_def dropWhile_space_dec_int
    by (simp add: dec_int_def strtol_sign_def scan_digits_dec_nat_stop [OF assms])
next
  case False
  obtain c cs where c: "dec_nat (nat i) = c # cs" by (cases "dec_nat (nat i)") auto
  have "char_digit c \<noteq> None" using hd_dec_nat [of "nat i"] c by simp
  then have "c \<noteq> CHR ''-''" "c \<noteq> CHR ''+''" by (auto simp: char_digit_def)
  then have "strtol_sign (dec_nat (nat i) @ x # s) = (False, dec_nat (nat i) @ x # s)"
    by (simp add: c strtol_sign_def)
  with False show ?thesis
    unfolding strtol_raw_def dropWhile_space_dec_int
    by (simp add: dec_int_def scan_digits_dec_nat_stop [OF assms])
qed

lemma c_strtol_dec_int:
  "int64_min \<le> i \<Longrightarrow> i \<le> int64_max \<Longrightarrow> c_strtol (dec_int i) = (i, length (dec_int i))"
  by (simp add: c_strtol_def strtol_raw_dec_int clamp_def)

lemma c_strtol_dec_int_high: "int64_max < i \<Longrightarrow> c_strtol (dec_int i) = (int64_max, length (dec_int i))"
  by (simp add: c_strtol_def strtol_raw_dec_int clamp_def int64_max_def int64_min_def)

lemma c_strtol_range: "int64_min \<le> fst (c_strtol s) \<and> fst (c_strtol s) \<le> int64_max"
  by (simp add: c_strtol_def clamp_def int64_max_def int64_min_def split: prod.splits)

end
