(* ===== verification/Engine.thy ===== *)
theory Engine
  imports Prelude
begin

text \<open>
  The storage engine the server is a layer on (\<open>yikv\<close>: \<open>Doc\<close>, \<open>KVIndex\<close>, \<open>Schema\<close>), which is
  not part of this repository. Its operations are the fields of the record \<open>engine\<close>, a
  parameter of every definition that calls them; what the sources rely on is stated by the
  predicates \<open>doc_ok\<close>, \<open>kv_ok\<close> and \<open>schema_ok\<close>, which are hypotheses of the properties that
  need them. Nothing here says how the engine works.
\<close>

section \<open>Schemas\<close>

datatype data_type = DT_Bool | DT_Int32 | DT_Int64 | DT_Float32 | DT_Float64 | DT_String | DT_Bytes

record field_def =
  fd_name :: string
  fd_id :: u32
  fd_type :: data_type
  fd_array :: bool

text \<open>A schema: its fields in order, the name of the primary key, and its two lookups.\<close>

record schema =
  sc_fields :: "field_def list"
  sc_pk :: string
  sc_find :: "string \<Rightarrow> field_def option"
  sc_find_id :: "u16 \<Rightarrow> field_def option"

text \<open>
  What a loaded schema guarantees: names and ids are unique, an id fits the 16 bits it has on
  the wire, and the lookups find exactly the fields listed.
\<close>

definition schema_ok :: "schema \<Rightarrow> bool" where
  "schema_ok S \<longleftrightarrow>
     distinct (map fd_id (sc_fields S)) \<and> distinct (map fd_name (sc_fields S)) \<and>
     (\<forall>d \<in> set (sc_fields S). unat (fd_id d) < 2 ^ 16) \<and>
     (\<forall>n. sc_find S n = find (\<lambda>d. fd_name d = n) (sc_fields S)) \<and>
     (\<forall>i. sc_find_id S i = find (\<lambda>d. fd_id d = ucast i) (sc_fields S))"

section \<open>Documents and indexes\<close>

text \<open>
  The values a document stores, one constructor per storage lane of the interface. A field of a
  schema uses the lane its type selects (\<open>kind_of_def\<close>); Bool shares the lane of Int32 and Bytes
  the lane of String, as in every caller.
\<close>

datatype cval =
    V_I32 i32 | V_I64 i64 | V_F32 f32 | V_F64 f64 | V_Str string
  | V_AI32 "i32 list" | V_AI64 "i64 list" | V_AF32 "f32 list" | V_AF64 "f64 list" | V_AStr "string list"

datatype kind = K_I32 | K_I64 | K_F32 | K_F64 | K_Str | K_AI32 | K_AI64 | K_AF32 | K_AF64 | K_AStr

fun kind_of_val :: "cval \<Rightarrow> kind" where
  "kind_of_val (V_I32 _) = K_I32"
| "kind_of_val (V_I64 _) = K_I64"
| "kind_of_val (V_F32 _) = K_F32"
| "kind_of_val (V_F64 _) = K_F64"
| "kind_of_val (V_Str _) = K_Str"
| "kind_of_val (V_AI32 _) = K_AI32"
| "kind_of_val (V_AI64 _) = K_AI64"
| "kind_of_val (V_AF32 _) = K_AF32"
| "kind_of_val (V_AF64 _) = K_AF64"
| "kind_of_val (V_AStr _) = K_AStr"

fun default_val :: "kind \<Rightarrow> cval" where
  "default_val K_I32 = V_I32 0"
| "default_val K_I64 = V_I64 0"
| "default_val K_F32 = V_F32 (F32 0)"
| "default_val K_F64 = V_F64 (F64 0)"
| "default_val K_Str = V_Str []"
| "default_val K_AI32 = V_AI32 []"
| "default_val K_AI64 = V_AI64 []"
| "default_val K_AF32 = V_AF32 []"
| "default_val K_AF64 = V_AF64 []"
| "default_val K_AStr = V_AStr []"

record ('d, 'k) engine =
  new_doc :: "'k \<Rightarrow> 'd"
  put_int32 :: "'d \<Rightarrow> u32 \<Rightarrow> i32 \<Rightarrow> 'd"
  put_int64 :: "'d \<Rightarrow> u32 \<Rightarrow> i64 \<Rightarrow> 'd"
  put_float :: "'d \<Rightarrow> u32 \<Rightarrow> f32 \<Rightarrow> 'd"
  put_double :: "'d \<Rightarrow> u32 \<Rightarrow> f64 \<Rightarrow> 'd"
  put_string :: "'d \<Rightarrow> u32 \<Rightarrow> string \<Rightarrow> 'd"
  get_int32 :: "'d \<Rightarrow> u32 \<Rightarrow> i32"
  get_int64 :: "'d \<Rightarrow> u32 \<Rightarrow> i64"
  get_float :: "'d \<Rightarrow> u32 \<Rightarrow> f32"
  get_double :: "'d \<Rightarrow> u32 \<Rightarrow> f64"
  get_string :: "'d \<Rightarrow> u32 \<Rightarrow> string"
  array_put_int32 :: "'d \<Rightarrow> u32 \<Rightarrow> i32 list \<Rightarrow> 'd"
  array_put_int64 :: "'d \<Rightarrow> u32 \<Rightarrow> i64 list \<Rightarrow> 'd"
  array_put_float :: "'d \<Rightarrow> u32 \<Rightarrow> f32 list \<Rightarrow> 'd"
  array_put_double :: "'d \<Rightarrow> u32 \<Rightarrow> f64 list \<Rightarrow> 'd"
  array_put_string :: "'d \<Rightarrow> u32 \<Rightarrow> string list \<Rightarrow> 'd"
  array_view_int32 :: "'d \<Rightarrow> u32 \<Rightarrow> i32 list"
  array_view_int64 :: "'d \<Rightarrow> u32 \<Rightarrow> i64 list"
  array_view_float :: "'d \<Rightarrow> u32 \<Rightarrow> f32 list"
  array_view_double :: "'d \<Rightarrow> u32 \<Rightarrow> f64 list"
  array_size :: "'d \<Rightarrow> u32 \<Rightarrow> nat"
  array_get_string :: "'d \<Rightarrow> u32 \<Rightarrow> nat \<Rightarrow> string"
  array_append_int32 :: "'d \<Rightarrow> u32 \<Rightarrow> i32 \<Rightarrow> 'd"
  array_append_int64 :: "'d \<Rightarrow> u32 \<Rightarrow> i64 \<Rightarrow> 'd"
  array_append_float :: "'d \<Rightarrow> u32 \<Rightarrow> f32 \<Rightarrow> 'd"
  array_append_double :: "'d \<Rightarrow> u32 \<Rightarrow> f64 \<Rightarrow> 'd"
  array_append_string :: "'d \<Rightarrow> u32 \<Rightarrow> string \<Rightarrow> 'd"
  data_type_name :: "data_type \<Rightarrow> string"
  kv_key :: "'k \<Rightarrow> 'd \<Rightarrow> string"
  kv_get :: "'k \<Rightarrow> string \<Rightarrow> 'd option"
  kv_put :: "'k \<Rightarrow> 'd \<Rightarrow> 'k"
  kv_upsert :: "'k \<Rightarrow> 'd \<Rightarrow> 'k"
  kv_batch_put :: "'k \<Rightarrow> 'd list \<Rightarrow> 'k"
  kv_batch_upsert :: "'k \<Rightarrow> 'd list \<Rightarrow> 'k"
  kv_delete :: "'k \<Rightarrow> string \<Rightarrow> 'k"

text \<open>Reading, writing and appending through the lane of a value.\<close>

definition array_strings :: "('d, 'k) engine \<Rightarrow> 'd \<Rightarrow> u32 \<Rightarrow> string list" where
  "array_strings E d f = map (array_get_string E d f) [0..<array_size E d f]"

fun read_at :: "('d, 'k) engine \<Rightarrow> 'd \<Rightarrow> u32 \<Rightarrow> kind \<Rightarrow> cval" where
  "read_at E d f K_I32 = V_I32 (get_int32 E d f)"
| "read_at E d f K_I64 = V_I64 (get_int64 E d f)"
| "read_at E d f K_F32 = V_F32 (get_float E d f)"
| "read_at E d f K_F64 = V_F64 (get_double E d f)"
| "read_at E d f K_Str = V_Str (get_string E d f)"
| "read_at E d f K_AI32 = V_AI32 (array_view_int32 E d f)"
| "read_at E d f K_AI64 = V_AI64 (array_view_int64 E d f)"
| "read_at E d f K_AF32 = V_AF32 (array_view_float E d f)"
| "read_at E d f K_AF64 = V_AF64 (array_view_double E d f)"
| "read_at E d f K_AStr = V_AStr (array_strings E d f)"

fun write_val :: "('d, 'k) engine \<Rightarrow> 'd \<Rightarrow> u32 \<Rightarrow> cval \<Rightarrow> 'd" where
  "write_val E d f (V_I32 v) = put_int32 E d f v"
| "write_val E d f (V_I64 v) = put_int64 E d f v"
| "write_val E d f (V_F32 v) = put_float E d f v"
| "write_val E d f (V_F64 v) = put_double E d f v"
| "write_val E d f (V_Str v) = put_string E d f v"
| "write_val E d f (V_AI32 v) = array_put_int32 E d f v"
| "write_val E d f (V_AI64 v) = array_put_int64 E d f v"
| "write_val E d f (V_AF32 v) = array_put_float E d f v"
| "write_val E d f (V_AF64 v) = array_put_double E d f v"
| "write_val E d f (V_AStr v) = array_put_string E d f v"

text \<open>Appending a list of elements, one \<open>array_append\<close> call each, in order.\<close>

fun append_val :: "('d, 'k) engine \<Rightarrow> 'd \<Rightarrow> u32 \<Rightarrow> cval \<Rightarrow> 'd" where
  "append_val E d f (V_AI32 vs) = fold (\<lambda>v d. array_append_int32 E d f v) vs d"
| "append_val E d f (V_AI64 vs) = fold (\<lambda>v d. array_append_int64 E d f v) vs d"
| "append_val E d f (V_AF32 vs) = fold (\<lambda>v d. array_append_float E d f v) vs d"
| "append_val E d f (V_AF64 vs) = fold (\<lambda>v d. array_append_double E d f v) vs d"
| "append_val E d f (V_AStr vs) = fold (\<lambda>v d. array_append_string E d f v) vs d"
| "append_val E d f _ = d"

text \<open>
  What the callers rely on of a document: a fresh one reads as defaults, a write is read back
  in its own lane, an append extends the array by one element, and neither touches another
  field. Reading a field in a lane it was not written in is left open.
\<close>

definition doc_ok :: "('d, 'k) engine \<Rightarrow> bool" where
  "doc_ok E \<longleftrightarrow>
     (\<forall>k f j. read_at E (new_doc E k) f j = default_val j) \<and>
     (\<forall>d f v. read_at E (write_val E d f v) f (kind_of_val v) = v) \<and>
     (\<forall>d f g v j. g \<noteq> f \<longrightarrow> read_at E (write_val E d f v) g j = read_at E d g j) \<and>
     (\<forall>d f v. array_view_int32 E (array_append_int32 E d f v) f = array_view_int32 E d f @ [v]) \<and>
     (\<forall>d f v. array_view_int64 E (array_append_int64 E d f v) f = array_view_int64 E d f @ [v]) \<and>
     (\<forall>d f v. array_view_float E (array_append_float E d f v) f = array_view_float E d f @ [v]) \<and>
     (\<forall>d f v. array_view_double E (array_append_double E d f v) f = array_view_double E d f @ [v]) \<and>
     (\<forall>d f v. array_strings E (array_append_string E d f v) f = array_strings E d f @ [v]) \<and>
     (\<forall>d f g v j. g \<noteq> f \<longrightarrow> read_at E (append_val E d f v) g j = read_at E d g j)"

text \<open>
  What they rely on of an index: \<open>Upsert\<close> makes the document the one \<open>Get\<close> finds under its
  key and leaves the other keys alone; \<open>Put\<close> does so for a key that is absent (what it does
  with a key that is present is left open); \<open>BatchUpsert\<close> and \<open>BatchPut\<close> act as their
  single-document forms in order; \<open>Delete\<close> removes one key. The key of a document depends on
  the document only.
\<close>

definition kv_ok :: "('d, 'k) engine \<Rightarrow> bool" where
  "kv_ok E \<longleftrightarrow>
     (\<forall>k d p. kv_get E (kv_upsert E k d) p = (if p = kv_key E k d then Some d else kv_get E k p)) \<and>
     (\<forall>k d p. kv_get E k (kv_key E k d) = None \<longrightarrow>
        kv_get E (kv_put E k d) p = (if p = kv_key E k d then Some d else kv_get E k p)) \<and>
     (\<forall>k ds. kv_get E (kv_batch_upsert E k ds) = kv_get E (foldl (kv_upsert E) k ds)) \<and>
     (\<forall>k ds. kv_get E (kv_batch_put E k ds) = kv_get E (foldl (kv_put E) k ds)) \<and>
     (\<forall>k p q. kv_get E (kv_delete E k p) q = (if q = p then None else kv_get E k q)) \<and>
     (\<forall>k k' d. kv_key E k d = kv_key E k' d)"

text \<open>
  What an import relies on when a key comes twice: \<open>Put\<close> concerns the key of its document only,
  and either files the document under it or leaves what is there.
\<close>

definition put_ok :: "('d, 'k) engine \<Rightarrow> bool" where
  "put_ok E \<longleftrightarrow>
     (\<forall>k d p. kv_get E (kv_put E k d) p = kv_get E k p \<or>
        p = kv_key E k d \<and> kv_get E (kv_put E k d) p = Some d)"

text \<open>
  The key a document is filed under: the decimal text of an integer primary key, the bytes of
  a string one. It is read off the primary key field of the schema the index was opened with.
\<close>

definition doc_key :: "('d, 'k) engine \<Rightarrow> schema \<Rightarrow> 'd \<Rightarrow> string option" where
  "doc_key E S d =
     (case sc_find S (sc_pk S) of None \<Rightarrow> None
      | Some p \<Rightarrow>
          (case fd_type p of
             DT_Bool \<Rightarrow> Some (to_string_i32 (get_int32 E d (fd_id p)))
           | DT_Int32 \<Rightarrow> Some (to_string_i32 (get_int32 E d (fd_id p)))
           | DT_Int64 \<Rightarrow> Some (to_string_i64 (get_int64 E d (fd_id p)))
           | DT_String \<Rightarrow> Some (get_string E d (fd_id p))
           | DT_Bytes \<Rightarrow> Some (get_string E d (fd_id p))
           | _ \<Rightarrow> None))"

definition key_ok :: "('d, 'k) engine \<Rightarrow> schema \<Rightarrow> bool" where
  "key_ok E S \<longleftrightarrow> (\<forall>k d p. doc_key E S d = Some p \<longrightarrow> kv_key E k d = p)"

definition kind_of_def :: "field_def \<Rightarrow> kind option" where
  "kind_of_def def =
     (if fd_array def then
        (case fd_type def of DT_Int32 \<Rightarrow> Some K_AI32 | DT_Int64 \<Rightarrow> Some K_AI64
         | DT_Float32 \<Rightarrow> Some K_AF32 | DT_Float64 \<Rightarrow> Some K_AF64
         | DT_String \<Rightarrow> Some K_AStr | DT_Bytes \<Rightarrow> Some K_AStr | DT_Bool \<Rightarrow> None)
      else
        (case fd_type def of DT_Bool \<Rightarrow> Some K_I32 | DT_Int32 \<Rightarrow> Some K_I32
         | DT_Int64 \<Rightarrow> Some K_I64 | DT_Float32 \<Rightarrow> Some K_F32 | DT_Float64 \<Rightarrow> Some K_F64
         | DT_String \<Rightarrow> Some K_Str | DT_Bytes \<Rightarrow> Some K_Str))"

section \<open>Consequences of the laws\<close>

lemma kind_of_val_iff:
  "kind_of_val v = K_I32 \<longleftrightarrow> (\<exists>x. v = V_I32 x)" "kind_of_val v = K_I64 \<longleftrightarrow> (\<exists>x. v = V_I64 x)"
  "kind_of_val v = K_F32 \<longleftrightarrow> (\<exists>x. v = V_F32 x)" "kind_of_val v = K_F64 \<longleftrightarrow> (\<exists>x. v = V_F64 x)"
  "kind_of_val v = K_Str \<longleftrightarrow> (\<exists>x. v = V_Str x)" "kind_of_val v = K_AI32 \<longleftrightarrow> (\<exists>x. v = V_AI32 x)"
  "kind_of_val v = K_AI64 \<longleftrightarrow> (\<exists>x. v = V_AI64 x)" "kind_of_val v = K_AF32 \<longleftrightarrow> (\<exists>x. v = V_AF32 x)"
  "kind_of_val v = K_AF64 \<longleftrightarrow> (\<exists>x. v = V_AF64 x)" "kind_of_val v = K_AStr \<longleftrightarrow> (\<exists>x. v = V_AStr x)"
  by (cases v; simp)+

lemma read_new [doc_laws]: "doc_ok E \<Longrightarrow> read_at E (new_doc E k) f j = default_val j"
  by (simp add: doc_ok_def)

lemma read_write_same [doc_laws]: "doc_ok E \<Longrightarrow> kind_of_val v = j \<Longrightarrow> read_at E (write_val E d f v) f j = v"
  by (auto simp: doc_ok_def)

lemma read_write_other [doc_laws]: "doc_ok E \<Longrightarrow> g \<noteq> f \<Longrightarrow> read_at E (write_val E d f v) g j = read_at E d g j"
  by (simp add: doc_ok_def)

lemma read_append_other [doc_laws]: "doc_ok E \<Longrightarrow> g \<noteq> f \<Longrightarrow> read_at E (append_val E d f v) g j = read_at E d g j"
  by (simp add: doc_ok_def)

fun append_cval :: "cval \<Rightarrow> cval \<Rightarrow> cval" where
  "append_cval (V_AI32 xs) (V_AI32 ys) = V_AI32 (xs @ ys)"
| "append_cval (V_AI64 xs) (V_AI64 ys) = V_AI64 (xs @ ys)"
| "append_cval (V_AF32 xs) (V_AF32 ys) = V_AF32 (xs @ ys)"
| "append_cval (V_AF64 xs) (V_AF64 ys) = V_AF64 (xs @ ys)"
| "append_cval (V_AStr xs) (V_AStr ys) = V_AStr (xs @ ys)"
| "append_cval x _ = x"

lemma fold_append_view:
  assumes "\<And>d v. view (app d v) = view d @ [v]"
  shows "view (fold (\<lambda>v d. app d v) vs d) = view d @ vs"
  by (induction vs arbitrary: d) (simp_all add: assms)

lemma read_append_same [doc_laws]:
  assumes "doc_ok E" and "kind_of_val v = j" and "j \<in> {K_AI32, K_AI64, K_AF32, K_AF64, K_AStr}"
  shows "read_at E (append_val E d f v) f j = append_cval (read_at E d f j) v"
proof -
  note [simp] = fold_append_view [where view = "\<lambda>d. array_view_int32 E d f"]
    fold_append_view [where view = "\<lambda>d. array_view_int64 E d f"]
    fold_append_view [where view = "\<lambda>d. array_view_float E d f"]
    fold_append_view [where view = "\<lambda>d. array_view_double E d f"]
    fold_append_view [where view = "\<lambda>d. array_strings E d f"]
  show ?thesis using assms by (cases v) (auto simp: doc_ok_def)
qed

lemma kv_get_upsert:
  "kv_ok E \<Longrightarrow> kv_get E (kv_upsert E k d) p = (if p = kv_key E k d then Some d else kv_get E k p)"
  by (simp add: kv_ok_def)

lemma kv_key_indep: "kv_ok E \<Longrightarrow> kv_key E k d = kv_key E k' d"
  by (simp add: kv_ok_def)

lemma kv_get_batch_upsert: "kv_ok E \<Longrightarrow> kv_get E (kv_batch_upsert E k ds) = kv_get E (foldl (kv_upsert E) k ds)"
  by (simp add: kv_ok_def)

lemma kv_get_delete: "kv_ok E \<Longrightarrow> kv_get E (kv_delete E k p) q = (if q = p then None else kv_get E k q)"
  by (simp add: kv_ok_def)

text \<open>After a batch, a key holds the last document of the batch filed under it, else what it held.\<close>

lemma kv_get_foldl_upsert:
  assumes "kv_ok E"
  shows "kv_get E (foldl (kv_upsert E) k ds) p =
    (case find (\<lambda>d. kv_key E k d = p) (rev ds) of Some d \<Rightarrow> Some d | None \<Rightarrow> kv_get E k p)"
proof (induction ds rule: rev_induct)
  case Nil
  then show ?case by simp
next
  case (snoc d ds)
  then show ?case
    using kv_key_indep [OF assms, of "foldl (kv_upsert E) k ds" d k]
    by (auto simp: kv_get_upsert [OF assms])
qed

lemma schema_find_mem: "schema_ok S \<Longrightarrow> sc_find S n = Some d \<Longrightarrow> d \<in> set (sc_fields S) \<and> fd_name d = n"
  by (auto simp: schema_ok_def find_Some_iff)

lemma schema_find_id_mem:
  "schema_ok S \<Longrightarrow> sc_find_id S i = Some d \<Longrightarrow> d \<in> set (sc_fields S) \<and> fd_id d = ucast i"
  by (auto simp: schema_ok_def find_Some_iff)

lemma schema_id_inj:
  "schema_ok S \<Longrightarrow> d \<in> set (sc_fields S) \<Longrightarrow> e \<in> set (sc_fields S) \<Longrightarrow> fd_id d = fd_id e \<longleftrightarrow> d = e"
  by (auto simp: schema_ok_def distinct_map inj_on_def)

lemma schema_name_inj:
  "schema_ok S \<Longrightarrow> d \<in> set (sc_fields S) \<Longrightarrow> e \<in> set (sc_fields S) \<Longrightarrow> fd_name d = fd_name e \<longleftrightarrow> d = e"
  by (auto simp: schema_ok_def distinct_map inj_on_def)

lemma ucast_u16_u32_back: "unat (x :: u32) < 2 ^ 16 \<Longrightarrow> ucast (ucast x :: u16) = x"
  by (simp add: word_unat_eq_iff unsigned_ucast_eq unsigned_take_bit_eq take_bit_nat_eq_self)

lemma find_unique: "distinct (map f xs) \<Longrightarrow> x \<in> set xs \<Longrightarrow> find (\<lambda>y. f y = f x) xs = Some x"
  by (induction xs) (auto simp: image_iff)

lemma schema_find_id_of: "schema_ok S \<Longrightarrow> d \<in> set (sc_fields S) \<Longrightarrow> sc_find_id S (ucast (fd_id d)) = Some d"
  using find_unique [of fd_id "sc_fields S" d] by (simp add: schema_ok_def ucast_u16_u32_back)

lemma schema_find_of: "schema_ok S \<Longrightarrow> d \<in> set (sc_fields S) \<Longrightarrow> sc_find S (fd_name d) = Some d"
  using find_unique [of fd_name "sc_fields S" d] by (simp add: schema_ok_def)

text \<open>A write that may be left out.\<close>

definition write_opt :: "('d, 'k) engine \<Rightarrow> u32 \<Rightarrow> cval option \<Rightarrow> 'd \<Rightarrow> 'd" where
  "write_opt E fid v doc = (case v of None \<Rightarrow> doc | Some c \<Rightarrow> write_val E doc fid c)"

lemma read_write_opt:
  assumes "doc_ok E" "schema_ok S" "d \<in> set (sc_fields S)" "def \<in> set (sc_fields S)"
    and "kind_of_def def = Some j" "\<And>v. w = Some v \<Longrightarrow> kind_of_def d = Some (kind_of_val v)"
  shows "read_at E (write_opt E (fd_id d) w doc) (fd_id def) j =
    (if fd_id d = fd_id def then (case w of None \<Rightarrow> read_at E doc (fd_id def) j | Some v \<Rightarrow> v)
     else read_at E doc (fd_id def) j)"
proof (cases "fd_id d = fd_id def")
  case True
  then have "d = def" using schema_id_inj [OF assms(2,3,4)] by simp
  with True assms(1,5,6) show ?thesis
    by (auto simp: write_opt_def read_write_same split: option.split)
next
  case False
  with assms(1) show ?thesis by (simp add: write_opt_def read_write_other split: option.split)
qed

end
