(* ===== verification/Json.thy ===== *)
theory Json
  imports Prelude
begin

text \<open>
  JSON values as the sources see them through \<open>nlohmann::json\<close>: the value tree, \<open>contains\<close> and
  the read of a member. The parser and the \<open>get<T>\<close> conversions belong to that library and are
  the fields of the parameter \<open>json_ops\<close>; \<open>None\<close> stands for a thrown
  \<open>nlohmann::json::exception\<close>. \<open>json_ok\<close> states the documented conversions the properties
  rely on.
\<close>

text \<open>An object lists its members in the order \<open>items()\<close> visits them.\<close>

datatype json =
    JNull | JBool bool | JInt i64 | JUint u64 | JFloat f64 | JString string
  | JArray "json list" | JObject "(string \<times> json) list"

fun is_null :: "json \<Rightarrow> bool" where "is_null JNull = True" | "is_null _ = False"
fun is_string :: "json \<Rightarrow> bool" where "is_string (JString _) = True" | "is_string _ = False"
fun is_array :: "json \<Rightarrow> bool" where "is_array (JArray _) = True" | "is_array _ = False"
fun is_object :: "json \<Rightarrow> bool" where "is_object (JObject _) = True" | "is_object _ = False"

fun members :: "json \<Rightarrow> (string \<times> json) list" where
  "members (JObject ms) = ms"
| "members _ = []"

fun elements :: "json \<Rightarrow> json list" where
  "elements (JArray es) = es"
| "elements _ = []"

text \<open>\<open>j.contains(k)\<close> is false on anything but an object; \<open>j[k]\<close> is read only after it.\<close>

definition member :: "json \<Rightarrow> string \<Rightarrow> json option" where
  "member j k = map_of (members j) k"

definition contains :: "json \<Rightarrow> string \<Rightarrow> bool" where
  "contains j k = (member j k \<noteq> None)"

record json_ops =
  j_parse :: "string \<Rightarrow> json option"
  j_int32 :: "json \<Rightarrow> i32 option"
  j_int64 :: "json \<Rightarrow> i64 option"
  j_uint64 :: "json \<Rightarrow> u64 option"
  j_float :: "json \<Rightarrow> f32 option"
  j_double :: "json \<Rightarrow> f64 option"
  j_bool :: "json \<Rightarrow> bool option"
  j_string :: "json \<Rightarrow> string option"

definition json_ok :: "json_ops \<Rightarrow> bool" where
  "json_ok J \<longleftrightarrow>
     (\<forall>s. j_string J (JString s) = Some s) \<and>
     (\<forall>j. \<not> is_string j \<longrightarrow> j_string J j = None) \<and>
     (\<forall>b. j_bool J (JBool b) = Some b) \<and>
     (\<forall>w. j_int64 J (JInt w) = Some w) \<and>
     (\<forall>w. j_int32 J (JInt w) = Some (ucast w)) \<and>
     (\<forall>j. is_null j \<or> is_string j \<or> is_array j \<or> is_object j \<longrightarrow>
        j_int32 J j = None \<and> j_int64 J j = None \<and> j_uint64 J j = None \<and> j_float J j = None \<and>
        j_double J j = None \<and> j_bool J j = None)"

text \<open>Conversions that satisfy \<open>json_ok\<close>; their parser knows no text.\<close>

definition ref_json :: json_ops where
  "ref_json = \<lparr>
     j_parse = (\<lambda>s. None),
     j_int32 = (\<lambda>j. case j of JInt w \<Rightarrow> Some (ucast w) | JUint w \<Rightarrow> Some (ucast w) | _ \<Rightarrow> None),
     j_int64 = (\<lambda>j. case j of JInt w \<Rightarrow> Some w | JUint w \<Rightarrow> Some w | _ \<Rightarrow> None),
     j_uint64 = (\<lambda>j. case j of JInt w \<Rightarrow> Some w | JUint w \<Rightarrow> Some w | _ \<Rightarrow> None),
     j_float = (\<lambda>j. None),
     j_double = (\<lambda>j. case j of JFloat f \<Rightarrow> Some f | _ \<Rightarrow> None),
     j_bool = (\<lambda>j. case j of JBool b \<Rightarrow> Some b | _ \<Rightarrow> None),
     j_string = (\<lambda>j. case j of JString s \<Rightarrow> Some s | _ \<Rightarrow> None)\<rparr>"

lemma ref_json_ok: "json_ok ref_json"
  by (auto simp: json_ok_def ref_json_def split: json.splits)

lemma ref_json_parse_ok: "json_ok (ref_json\<lparr>j_parse := p\<rparr>)"
  using ref_json_ok by (simp add: json_ok_def)

lemma contains_members: "contains j k \<longleftrightarrow> k \<in> fst ` set (members j)"
  by (simp add: contains_def member_def map_of_eq_None_iff)

lemma contains_object: "contains j k \<Longrightarrow> is_object j"
  by (cases j) (simp_all add: contains_def member_def)

lemma j_string_iff: "json_ok J \<Longrightarrow> j_string J j = Some s \<longleftrightarrow> j = JString s"
  by (cases j) (auto simp: json_ok_def)

end
