(* ===== verification/JsonIngest.thy ===== *)
theory JsonIngest
  imports Engine Json
begin

text \<open>
  \<open>stream/json_stream_ingest.cc\<close>: applying one JSON object of the stream to an index.

  A C++ function that returns \<open>bool\<close> and may let a JSON exception through has three results:
  \<open>Done\<close> (true, with what it produced), \<open>Refused\<close> (false) and \<open>Threw\<close>. A document that a
  failing merge leaves half written is a local of the caller, which drops it, so the failing
  results carry no document. The calls of \<open>log_err\<close> are not modelled.
\<close>

datatype 'a result = Done 'a | Refused | Threw

fun bind_result :: "'a result \<Rightarrow> ('a \<Rightarrow> 'b result) \<Rightarrow> 'b result" where
  "bind_result (Done x) f = f x"
| "bind_result Refused f = Refused"
| "bind_result Threw f = Threw"

definition get_or_throw :: "'a option \<Rightarrow> ('a \<Rightarrow> 'b) \<Rightarrow> 'b result" where
  "get_or_throw v f = (case v of None \<Rightarrow> Threw | Some x \<Rightarrow> Done (f x))"

section \<open>\<open>CopyDocFromSchema\<close>\<close>

definition copy_field :: "('d, 'k) engine \<Rightarrow> 'd \<Rightarrow> field_def \<Rightarrow> 'd \<Rightarrow> 'd" where
  "copy_field E src def dst =
     (let fid = fd_id def in
      if fd_array def then
        (case fd_type def of
           DT_Int32 \<Rightarrow> (let v = array_view_int32 E src fid in
             if v \<noteq> [] then array_put_int32 E dst fid v else dst)
         | DT_Int64 \<Rightarrow> (let v = array_view_int64 E src fid in
             if v \<noteq> [] then array_put_int64 E dst fid v else dst)
         | DT_Float32 \<Rightarrow> (let v = array_view_float E src fid in
             if v \<noteq> [] then array_put_float E dst fid v else dst)
         | DT_Float64 \<Rightarrow> (let v = array_view_double E src fid in
             if v \<noteq> [] then array_put_double E dst fid v else dst)
         | DT_String \<Rightarrow> (let n = array_size E src fid in
             if n = 0 then dst else array_put_string E dst fid (map (array_get_string E src fid) [0..<n]))
         | DT_Bytes \<Rightarrow> (let n = array_size E src fid in
             if n = 0 then dst else array_put_string E dst fid (map (array_get_string E src fid) [0..<n]))
         | DT_Bool \<Rightarrow> dst)
      else
        (case fd_type def of
           DT_Bool \<Rightarrow> put_int32 E dst fid (get_int32 E src fid)
         | DT_Int32 \<Rightarrow> put_int32 E dst fid (get_int32 E src fid)
         | DT_Int64 \<Rightarrow> put_int64 E dst fid (get_int64 E src fid)
         | DT_Float32 \<Rightarrow> put_float E dst fid (get_float E src fid)
         | DT_Float64 \<Rightarrow> put_double E dst fid (get_double E src fid)
         | DT_String \<Rightarrow> put_string E dst fid (get_string E src fid)
         | DT_Bytes \<Rightarrow> put_string E dst fid (get_string E src fid)))"

definition CopyDocFromSchema :: "('d, 'k) engine \<Rightarrow> schema \<Rightarrow> 'd \<Rightarrow> 'd \<Rightarrow> 'd" where
  "CopyDocFromSchema E S src dst = fold (copy_field E src) (sc_fields S) dst"

section \<open>\<open>MergeOneField\<close>, \<open>MergeJsonIntoDoc\<close>\<close>

text \<open>\<open>for (e : val) doc->array_append(fid, e.get<T>())\<close>: the first element that does not
  convert throws.\<close>

fun append_each :: "('d \<Rightarrow> 'a \<Rightarrow> 'd) \<Rightarrow> (json \<Rightarrow> 'a option) \<Rightarrow> json list \<Rightarrow> 'd \<Rightarrow> 'd result" where
  "append_each app get [] doc = Done doc"
| "append_each app get (e # es) doc =
     (case get e of None \<Rightarrow> Threw | Some v \<Rightarrow> append_each app get es (app doc v))"

definition MergeOneField :: "('d, 'k) engine \<Rightarrow> json_ops \<Rightarrow> field_def \<Rightarrow> 'd \<Rightarrow> json \<Rightarrow> 'd result" where
  "MergeOneField E J def doc val =
     (if is_null val then Done doc
      else let fid = fd_id def in
      if fd_array def then
        (if \<not> is_array val then Refused
         else case fd_type def of
           DT_Int32 \<Rightarrow> append_each (\<lambda>d. array_append_int32 E d fid) (j_int32 J) (elements val) doc
         | DT_Int64 \<Rightarrow> append_each (\<lambda>d. array_append_int64 E d fid) (j_int64 J) (elements val) doc
         | DT_Float32 \<Rightarrow> append_each (\<lambda>d. array_append_float E d fid) (j_float J) (elements val) doc
         | DT_Float64 \<Rightarrow> append_each (\<lambda>d. array_append_double E d fid) (j_double J) (elements val) doc
         | DT_String \<Rightarrow> append_each (\<lambda>d. array_append_string E d fid) (j_string J) (elements val) doc
         | DT_Bytes \<Rightarrow> append_each (\<lambda>d. array_append_string E d fid) (j_string J) (elements val) doc
         | DT_Bool \<Rightarrow> Refused)
      else
        (case fd_type def of
           DT_Bool \<Rightarrow> get_or_throw (j_bool J val) (\<lambda>b. put_int32 E doc fid (if b then 1 else 0))
         | DT_Int32 \<Rightarrow> get_or_throw (j_int32 J val) (put_int32 E doc fid)
         | DT_Int64 \<Rightarrow> get_or_throw (j_int64 J val) (put_int64 E doc fid)
         | DT_Float32 \<Rightarrow> get_or_throw (j_float J val) (put_float E doc fid)
         | DT_Float64 \<Rightarrow> get_or_throw (j_double J val) (put_double E doc fid)
         | DT_String \<Rightarrow> get_or_throw (j_string J val) (put_string E doc fid)
         | DT_Bytes \<Rightarrow> get_or_throw (j_string J val) (put_string E doc fid)))"

fun merge_items :: "('d, 'k) engine \<Rightarrow> json_ops \<Rightarrow> schema \<Rightarrow> 'd \<Rightarrow> (string \<times> json) list \<Rightarrow> 'd result" where
  "merge_items E J S doc [] = Done doc"
| "merge_items E J S doc ((key, val) # ms) =
     (if key = ''_op'' \<or> key = ''_ts'' then merge_items E J S doc ms
      else case sc_find S key of
        None \<Rightarrow> merge_items E J S doc ms
      | Some def \<Rightarrow> bind_result (MergeOneField E J def doc val) (\<lambda>doc'. merge_items E J S doc' ms))"

definition MergeJsonIntoDoc :: "('d, 'k) engine \<Rightarrow> json_ops \<Rightarrow> schema \<Rightarrow> 'd \<Rightarrow> json \<Rightarrow> 'd result" where
  "MergeJsonIntoDoc E J S doc obj = merge_items E J S doc (members obj)"

section \<open>The primary key of a message\<close>

definition ExtractPkString :: "json_ops \<Rightarrow> schema \<Rightarrow> json \<Rightarrow> string result" where
  "ExtractPkString J S obj =
     (case sc_find S (sc_pk S) of
        None \<Rightarrow> Refused
      | Some pk_def \<Rightarrow>
          (case member obj (fd_name pk_def) of
             None \<Rightarrow> Refused
           | Some pv \<Rightarrow>
               if is_null pv then Refused
               else case fd_type pk_def of
                 DT_Int32 \<Rightarrow> get_or_throw (j_int32 J pv) to_string_i32
               | DT_Int64 \<Rightarrow> get_or_throw (j_int64 J pv) to_string_i64
               | DT_String \<Rightarrow> get_or_throw (j_string J pv) (\<lambda>s. s)
               | DT_Bytes \<Rightarrow> get_or_throw (j_string J pv) (\<lambda>s. s)
               | _ \<Rightarrow> Refused))"

section \<open>The three operations\<close>

text \<open>
  Each returns its status and the index it leaves behind, as the index is shared with the
  caller whatever the status.
\<close>

datatype apply_status = Applied | Not_applied | Exception

definition ApplyInsert ::
  "('d, 'k) engine \<Rightarrow> json_ops \<Rightarrow> schema \<Rightarrow> 'k \<Rightarrow> json \<Rightarrow> apply_status \<times> 'k" where
  "ApplyInsert E J S idx obj =
     (case ExtractPkString J S obj of
        Refused \<Rightarrow> (Not_applied, idx)
      | Threw \<Rightarrow> (Exception, idx)
      | Done pk \<Rightarrow>
          (case kv_get E idx pk of
             Some existing \<Rightarrow> (Not_applied, idx)
           | None \<Rightarrow>
               (case MergeJsonIntoDoc E J S (new_doc E idx) obj of
                  Refused \<Rightarrow> (Not_applied, idx)
                | Threw \<Rightarrow> (Exception, idx)
                | Done doc \<Rightarrow> (Applied, kv_put E idx doc))))"

definition ApplyUpsertMerge ::
  "('d, 'k) engine \<Rightarrow> json_ops \<Rightarrow> schema \<Rightarrow> 'k \<Rightarrow> json \<Rightarrow> apply_status \<times> 'k" where
  "ApplyUpsertMerge E J S idx obj =
     (case ExtractPkString J S obj of
        Refused \<Rightarrow> (Not_applied, idx)
      | Threw \<Rightarrow> (Exception, idx)
      | Done pk \<Rightarrow>
          (let doc = (case kv_get E idx pk of
                        Some old \<Rightarrow> CopyDocFromSchema E S old (new_doc E idx)
                      | None \<Rightarrow> new_doc E idx)
           in case MergeJsonIntoDoc E J S doc obj of
                Refused \<Rightarrow> (Not_applied, idx)
              | Threw \<Rightarrow> (Exception, idx)
              | Done doc \<Rightarrow> (Applied, kv_upsert E idx doc)))"

definition ApplyDelete ::
  "('d, 'k) engine \<Rightarrow> json_ops \<Rightarrow> schema \<Rightarrow> 'k \<Rightarrow> json \<Rightarrow> apply_status \<times> 'k" where
  "ApplyDelete E J S idx obj =
     (case sc_find S (sc_pk S) of
        None \<Rightarrow> (Not_applied, idx)
      | Some pk_def \<Rightarrow>
          if \<not> contains obj (fd_name pk_def) then (Not_applied, idx)
          else (case ExtractPkString J S obj of
                  Refused \<Rightarrow> (Not_applied, idx)
                | Threw \<Rightarrow> (Exception, idx)
                | Done pk \<Rightarrow> (Applied, kv_delete E idx pk)))"

text \<open>The operation named by a message, in lower case; empty when \<open>_op\<close> is absent or no string.\<close>

definition stream_op :: "json_ops \<Rightarrow> json \<Rightarrow> string result" where
  "stream_op J obj =
     (case member obj ''_op'' of
        Some v \<Rightarrow> if is_string v then get_or_throw (j_string J v) lower else Done []
      | None \<Rightarrow> Done [])"

definition ApplyStreamJsonObject ::
  "('d, 'k) engine \<Rightarrow> json_ops \<Rightarrow> schema \<Rightarrow> 'k \<Rightarrow> json \<Rightarrow> apply_status \<times> 'k" where
  "ApplyStreamJsonObject E J S idx obj =
     (case stream_op J obj of
        Refused \<Rightarrow> (Not_applied, idx)
      | Threw \<Rightarrow> (Exception, idx)
      | Done op \<Rightarrow>
          if op = ''delete'' then ApplyDelete E J S idx obj
          else if op = ''insert'' then ApplyInsert E J S idx obj
          else if op = ''upsert'' \<or> op = [] then ApplyUpsertMerge E J S idx obj
          else (Not_applied, idx))"

section \<open>What the parts compute\<close>

lemma bind_result_Done [simp]: "bind_result r f = Done y \<longleftrightarrow> (\<exists>x. r = Done x \<and> f x = Done y)"
  by (cases r) simp_all

lemma get_or_throw_simps [simp]:
  "get_or_throw None f = Threw" "get_or_throw (Some x) f = Done (f x)"
  "get_or_throw v f = Done y \<longleftrightarrow> (\<exists>x. v = Some x \<and> y = f x)"
  "get_or_throw v f \<noteq> Refused"
  by (auto simp: get_or_throw_def split: option.splits)

lemma append_each_those:
  "append_each app get es doc =
     (case those (map get es) of None \<Rightarrow> Threw | Some vs \<Rightarrow> Done (fold (\<lambda>v d. app d v) vs doc))"
  by (induction es arbitrary: doc) (auto split: option.splits)

text \<open>The stored value a JSON value denotes for a field, when its conversion succeeds.\<close>

definition json_cval :: "json_ops \<Rightarrow> field_def \<Rightarrow> json \<Rightarrow> cval option" where
  "json_cval J def val =
     (if fd_array def then
        (let es = elements val in
         case fd_type def of
           DT_Int32 \<Rightarrow> map_option V_AI32 (those (map (j_int32 J) es))
         | DT_Int64 \<Rightarrow> map_option V_AI64 (those (map (j_int64 J) es))
         | DT_Float32 \<Rightarrow> map_option V_AF32 (those (map (j_float J) es))
         | DT_Float64 \<Rightarrow> map_option V_AF64 (those (map (j_double J) es))
         | DT_String \<Rightarrow> map_option V_AStr (those (map (j_string J) es))
         | DT_Bytes \<Rightarrow> map_option V_AStr (those (map (j_string J) es))
         | DT_Bool \<Rightarrow> None)
      else
        (case fd_type def of
           DT_Bool \<Rightarrow> map_option (\<lambda>b. V_I32 (if b then 1 else 0)) (j_bool J val)
         | DT_Int32 \<Rightarrow> map_option V_I32 (j_int32 J val)
         | DT_Int64 \<Rightarrow> map_option V_I64 (j_int64 J val)
         | DT_Float32 \<Rightarrow> map_option V_F32 (j_float J val)
         | DT_Float64 \<Rightarrow> map_option V_F64 (j_double J val)
         | DT_String \<Rightarrow> map_option V_Str (j_string J val)
         | DT_Bytes \<Rightarrow> map_option V_Str (j_string J val)))"

text \<open>Whether a member of the object is acceptable for the field it names.\<close>

definition field_check :: "json_ops \<Rightarrow> field_def \<Rightarrow> json \<Rightarrow> unit result" where
  "field_check J def val =
     (if is_null val then Done ()
      else if fd_array def \<and> (\<not> is_array val \<or> fd_type def = DT_Bool) then Refused
      else if json_cval J def val = None then Threw else Done ())"

lemma json_cval_kind: "json_cval J def val = Some v \<Longrightarrow> kind_of_def def = Some (kind_of_val v)"
  by (auto simp: json_cval_def kind_of_def_def Let_def split: if_splits data_type.splits)

definition merged :: "('d, 'k) engine \<Rightarrow> json_ops \<Rightarrow> field_def \<Rightarrow> 'd \<Rightarrow> json \<Rightarrow> 'd" where
  "merged E J def doc val =
     (if is_null val then doc
      else case json_cval J def val of None \<Rightarrow> doc
      | Some v \<Rightarrow> if fd_array def then append_val E doc (fd_id def) v else write_val E doc (fd_id def) v)"

lemma MergeOneField_eq:
  "MergeOneField E J def doc val = bind_result (field_check J def val) (\<lambda>_. Done (merged E J def doc val))"
  by (cases "fd_type def"; cases "fd_array def")
    (auto simp: MergeOneField_def field_check_def merged_def json_cval_def append_each_those
      get_or_throw_def Let_def split: option.splits)

text \<open>The result of a merge does not depend on the document merged into, only on the members.\<close>

definition skipped :: "string \<Rightarrow> bool" where
  "skipped key = (key = ''_op'' \<or> key = ''_ts'')"

fun merge_check :: "json_ops \<Rightarrow> schema \<Rightarrow> (string \<times> json) list \<Rightarrow> unit result" where
  "merge_check J S [] = Done ()"
| "merge_check J S ((key, val) # ms) =
     (if skipped key then merge_check J S ms
      else case sc_find S key of None \<Rightarrow> merge_check J S ms
      | Some def \<Rightarrow> bind_result (field_check J def val) (\<lambda>_. merge_check J S ms))"

fun merge_doc :: "('d, 'k) engine \<Rightarrow> json_ops \<Rightarrow> schema \<Rightarrow> 'd \<Rightarrow> (string \<times> json) list \<Rightarrow> 'd" where
  "merge_doc E J S doc [] = doc"
| "merge_doc E J S doc ((key, val) # ms) =
     (if skipped key then merge_doc E J S doc ms
      else case sc_find S key of None \<Rightarrow> merge_doc E J S doc ms
      | Some def \<Rightarrow> merge_doc E J S (merged E J def doc val) ms)"

lemma merge_items_eq:
  "merge_items E J S doc ms = bind_result (merge_check J S ms) (\<lambda>_. Done (merge_doc E J S doc ms))"
proof (induction ms arbitrary: doc)
  case Nil
  then show ?case by simp
next
  case (Cons m ms)
  obtain key val where m: "m = (key, val)" by (cases m)
  show ?case
  proof (cases "sc_find S key")
    case None
    with Cons m show ?thesis by (simp add: skipped_def)
  next
    case (Some def)
    with Cons m show ?thesis
      by (cases "field_check J def val") (auto simp: skipped_def MergeOneField_eq)
  qed
qed

end
