(* ===== verification/RefEngine.thy ===== *)
theory RefEngine
  imports Engine
begin

text \<open>
  A reference implementation of the engine interface: a document is the list of its writes,
  the latest first, an index the association list of its documents. It shows that the laws of
  \<open>Engine\<close> can hold together, and it is what the properties are applied to at concrete
  inputs. It models nothing of the repository.
\<close>

type_synonym ref_doc = "(u32 \<times> cval) list"
type_synonym ref_index = "(string \<times> ref_doc) list"

definition ref_read :: "ref_doc \<Rightarrow> u32 \<Rightarrow> kind \<Rightarrow> cval" where
  "ref_read d f j =
     (case find (\<lambda>(g, v). g = f \<and> kind_of_val v = j) d of Some (_, v) \<Rightarrow> v | None \<Rightarrow> default_val j)"

definition ref_write :: "ref_doc \<Rightarrow> u32 \<Rightarrow> cval \<Rightarrow> ref_doc" where
  "ref_write d f v = (f, v) # d"

definition ref_append :: "ref_doc \<Rightarrow> u32 \<Rightarrow> cval \<Rightarrow> ref_doc" where
  "ref_append d f v = ref_write d f (append_cval (ref_read d f (kind_of_val v)) v)"

definition ref_i32 :: "ref_doc \<Rightarrow> u32 \<Rightarrow> i32" where
  "ref_i32 d f = (case ref_read d f K_I32 of V_I32 v \<Rightarrow> v | _ \<Rightarrow> 0)"
definition ref_i64 :: "ref_doc \<Rightarrow> u32 \<Rightarrow> i64" where
  "ref_i64 d f = (case ref_read d f K_I64 of V_I64 v \<Rightarrow> v | _ \<Rightarrow> 0)"
definition ref_f32 :: "ref_doc \<Rightarrow> u32 \<Rightarrow> f32" where
  "ref_f32 d f = (case ref_read d f K_F32 of V_F32 v \<Rightarrow> v | _ \<Rightarrow> F32 0)"
definition ref_f64 :: "ref_doc \<Rightarrow> u32 \<Rightarrow> f64" where
  "ref_f64 d f = (case ref_read d f K_F64 of V_F64 v \<Rightarrow> v | _ \<Rightarrow> F64 0)"
definition ref_str :: "ref_doc \<Rightarrow> u32 \<Rightarrow> string" where
  "ref_str d f = (case ref_read d f K_Str of V_Str v \<Rightarrow> v | _ \<Rightarrow> [])"
definition ref_ai32 :: "ref_doc \<Rightarrow> u32 \<Rightarrow> i32 list" where
  "ref_ai32 d f = (case ref_read d f K_AI32 of V_AI32 v \<Rightarrow> v | _ \<Rightarrow> [])"
definition ref_ai64 :: "ref_doc \<Rightarrow> u32 \<Rightarrow> i64 list" where
  "ref_ai64 d f = (case ref_read d f K_AI64 of V_AI64 v \<Rightarrow> v | _ \<Rightarrow> [])"
definition ref_af32 :: "ref_doc \<Rightarrow> u32 \<Rightarrow> f32 list" where
  "ref_af32 d f = (case ref_read d f K_AF32 of V_AF32 v \<Rightarrow> v | _ \<Rightarrow> [])"
definition ref_af64 :: "ref_doc \<Rightarrow> u32 \<Rightarrow> f64 list" where
  "ref_af64 d f = (case ref_read d f K_AF64 of V_AF64 v \<Rightarrow> v | _ \<Rightarrow> [])"
definition ref_as :: "ref_doc \<Rightarrow> u32 \<Rightarrow> string list" where
  "ref_as d f = (case ref_read d f K_AStr of V_AStr v \<Rightarrow> v | _ \<Rightarrow> [])"

definition ref_key :: "schema \<Rightarrow> ref_doc \<Rightarrow> string" where
  "ref_key S d =
     (case sc_find S (sc_pk S) of None \<Rightarrow> []
      | Some p \<Rightarrow>
          (case fd_type p of
             DT_Bool \<Rightarrow> to_string_i32 (ref_i32 d (fd_id p))
           | DT_Int32 \<Rightarrow> to_string_i32 (ref_i32 d (fd_id p))
           | DT_Int64 \<Rightarrow> to_string_i64 (ref_i64 d (fd_id p))
           | DT_String \<Rightarrow> ref_str d (fd_id p)
           | DT_Bytes \<Rightarrow> ref_str d (fd_id p)
           | _ \<Rightarrow> []))"

definition ref_get :: "ref_index \<Rightarrow> string \<Rightarrow> ref_doc option" where
  "ref_get k p = map_of k p"

definition ref_upsert :: "schema \<Rightarrow> ref_index \<Rightarrow> ref_doc \<Rightarrow> ref_index" where
  "ref_upsert S k d = (ref_key S d, d) # filter (\<lambda>e. fst e \<noteq> ref_key S d) k"

fun ref_type_name :: "data_type \<Rightarrow> string" where
  "ref_type_name DT_Bool = ''bool''"
| "ref_type_name DT_Int32 = ''int32''"
| "ref_type_name DT_Int64 = ''int64''"
| "ref_type_name DT_Float32 = ''float32''"
| "ref_type_name DT_Float64 = ''float64''"
| "ref_type_name DT_String = ''string''"
| "ref_type_name DT_Bytes = ''bytes''"

definition ref_engine :: "schema \<Rightarrow> (ref_doc, ref_index) engine" where
  "ref_engine S = \<lparr>
     new_doc = (\<lambda>k. []),
     put_int32 = (\<lambda>d f v. ref_write d f (V_I32 v)),
     put_int64 = (\<lambda>d f v. ref_write d f (V_I64 v)),
     put_float = (\<lambda>d f v. ref_write d f (V_F32 v)),
     put_double = (\<lambda>d f v. ref_write d f (V_F64 v)),
     put_string = (\<lambda>d f v. ref_write d f (V_Str v)),
     get_int32 = ref_i32, get_int64 = ref_i64, get_float = ref_f32, get_double = ref_f64,
     get_string = ref_str,
     array_put_int32 = (\<lambda>d f v. ref_write d f (V_AI32 v)),
     array_put_int64 = (\<lambda>d f v. ref_write d f (V_AI64 v)),
     array_put_float = (\<lambda>d f v. ref_write d f (V_AF32 v)),
     array_put_double = (\<lambda>d f v. ref_write d f (V_AF64 v)),
     array_put_string = (\<lambda>d f v. ref_write d f (V_AStr v)),
     array_view_int32 = ref_ai32, array_view_int64 = ref_ai64,
     array_view_float = ref_af32, array_view_double = ref_af64,
     array_size = (\<lambda>d f. length (ref_as d f)),
     array_get_string = (\<lambda>d f i. if i < length (ref_as d f) then ref_as d f ! i else []),
     array_append_int32 = (\<lambda>d f v. ref_append d f (V_AI32 [v])),
     array_append_int64 = (\<lambda>d f v. ref_append d f (V_AI64 [v])),
     array_append_float = (\<lambda>d f v. ref_append d f (V_AF32 [v])),
     array_append_double = (\<lambda>d f v. ref_append d f (V_AF64 [v])),
     array_append_string = (\<lambda>d f v. ref_append d f (V_AStr [v])),
     data_type_name = ref_type_name,
     kv_key = (\<lambda>k d. ref_key S d),
     kv_get = ref_get,
     kv_put = ref_upsert S,
     kv_upsert = ref_upsert S,
     kv_batch_put = foldl (ref_upsert S),
     kv_batch_upsert = foldl (ref_upsert S),
     kv_delete = (\<lambda>k p. filter (\<lambda>e. fst e \<noteq> p) k)\<rparr>"

section \<open>The laws\<close>

lemma kind_ref_read: "kind_of_val (ref_read d f j) = j"
  unfolding ref_read_def by (cases j) (auto simp: find_Some_iff split: option.split)

lemma ref_read_write_same: "ref_read (ref_write d f v) f (kind_of_val v) = v"
  by (simp add: ref_read_def ref_write_def)

lemma ref_read_write_other: "g \<noteq> f \<Longrightarrow> ref_read (ref_write d f v) g j = ref_read d g j"
  by (simp add: ref_read_def ref_write_def)

lemma ref_lane [simp]:
  "V_I32 (ref_i32 d f) = ref_read d f K_I32" "V_I64 (ref_i64 d f) = ref_read d f K_I64"
  "V_F32 (ref_f32 d f) = ref_read d f K_F32" "V_F64 (ref_f64 d f) = ref_read d f K_F64"
  "V_Str (ref_str d f) = ref_read d f K_Str"
  "V_AI32 (ref_ai32 d f) = ref_read d f K_AI32" "V_AI64 (ref_ai64 d f) = ref_read d f K_AI64"
  "V_AF32 (ref_af32 d f) = ref_read d f K_AF32" "V_AF64 (ref_af64 d f) = ref_read d f K_AF64"
  "V_AStr (ref_as d f) = ref_read d f K_AStr"
proof -
  note defs = ref_i32_def ref_i64_def ref_f32_def ref_f64_def ref_str_def ref_ai32_def
      ref_ai64_def ref_af32_def ref_af64_def ref_as_def
  show "V_I32 (ref_i32 d f) = ref_read d f K_I32" using kind_ref_read [of d f K_I32] by (auto simp: defs kind_of_val_iff)
  show "V_I64 (ref_i64 d f) = ref_read d f K_I64" using kind_ref_read [of d f K_I64] by (auto simp: defs kind_of_val_iff)
  show "V_F32 (ref_f32 d f) = ref_read d f K_F32" using kind_ref_read [of d f K_F32] by (auto simp: defs kind_of_val_iff)
  show "V_F64 (ref_f64 d f) = ref_read d f K_F64" using kind_ref_read [of d f K_F64] by (auto simp: defs kind_of_val_iff)
  show "V_Str (ref_str d f) = ref_read d f K_Str" using kind_ref_read [of d f K_Str] by (auto simp: defs kind_of_val_iff)
  show "V_AI32 (ref_ai32 d f) = ref_read d f K_AI32" using kind_ref_read [of d f K_AI32] by (auto simp: defs kind_of_val_iff)
  show "V_AI64 (ref_ai64 d f) = ref_read d f K_AI64" using kind_ref_read [of d f K_AI64] by (auto simp: defs kind_of_val_iff)
  show "V_AF32 (ref_af32 d f) = ref_read d f K_AF32" using kind_ref_read [of d f K_AF32] by (auto simp: defs kind_of_val_iff)
  show "V_AF64 (ref_af64 d f) = ref_read d f K_AF64" using kind_ref_read [of d f K_AF64] by (auto simp: defs kind_of_val_iff)
  show "V_AStr (ref_as d f) = ref_read d f K_AStr" using kind_ref_read [of d f K_AStr] by (auto simp: defs kind_of_val_iff)
qed

lemma ref_read_append_other: "g \<noteq> f \<Longrightarrow> ref_read (ref_append d f v) g j = ref_read d g j"
  by (simp add: ref_append_def ref_read_write_other)

lemma map_nth_guard: "map (\<lambda>i. if i < length xs then xs ! i else z) [0..<length xs] = xs"
  by (rule nth_equalityI) simp_all

lemma read_at_ref [simp]: "read_at (ref_engine S) d f j = ref_read d f j"
  by (cases j) (simp_all add: ref_engine_def array_strings_def map_nth_guard)

lemma write_val_ref: "write_val (ref_engine S) d f v = ref_write d f v"
  by (cases v) (simp_all add: ref_engine_def)

lemma ref_lane_append:
  "ref_ai32 (ref_write d f (append_cval (ref_read d f K_AI32) (V_AI32 [a]))) f = ref_ai32 d f @ [a]"
  "ref_ai64 (ref_write d f (append_cval (ref_read d f K_AI64) (V_AI64 [b]))) f = ref_ai64 d f @ [b]"
  "ref_af32 (ref_write d f (append_cval (ref_read d f K_AF32) (V_AF32 [x]))) f = ref_af32 d f @ [x]"
  "ref_af64 (ref_write d f (append_cval (ref_read d f K_AF64) (V_AF64 [y]))) f = ref_af64 d f @ [y]"
  "ref_as (ref_write d f (append_cval (ref_read d f K_AStr) (V_AStr [s]))) f = ref_as d f @ [s]"
  unfolding ref_lane [symmetric] append_cval.simps
  by (simp_all add: ref_ai32_def ref_ai64_def ref_af32_def ref_af64_def ref_as_def ref_read_def ref_write_def)

lemma append_ref_eqs:
  "ref_ai32 (ref_append d f (V_AI32 [a])) f = ref_ai32 d f @ [a]"
  "ref_ai64 (ref_append d f (V_AI64 [b])) f = ref_ai64 d f @ [b]"
  "ref_af32 (ref_append d f (V_AF32 [x])) f = ref_af32 d f @ [x]"
  "ref_af64 (ref_append d f (V_AF64 [y])) f = ref_af64 d f @ [y]"
  "ref_as (ref_append d f (V_AStr [s])) f = ref_as d f @ [s]"
  by (simp_all only: ref_append_def kind_of_val.simps ref_lane_append)

lemma fold_append_other:
  assumes "g \<noteq> f"
  shows "ref_read (fold (\<lambda>v d. ref_append d f (c v)) vs d) g j = ref_read d g j"
  by (induction vs arbitrary: d) (simp_all add: ref_read_append_other [OF assms])

lemma append_val_ref_other:
  "g \<noteq> f \<Longrightarrow> ref_read (append_val (ref_engine S) d f v) g j = ref_read d g j"
  by (cases v) (simp_all add: ref_engine_def fold_append_other)

lemma ref_doc_ok: "doc_ok (ref_engine S)"
proof -
  have new: "ref_read (new_doc (ref_engine S) k) f j = default_val j" for k f j
    by (simp add: ref_engine_def ref_read_def)
  have strs: "array_strings (ref_engine S) d f = ref_as d f" for d f
    using read_at_ref [of S d f K_AStr] by (simp add: ref_lane(10) [symmetric] del: ref_lane)
  show ?thesis
    unfolding doc_ok_def read_at_ref write_val_ref strs
    by (simp add: new ref_read_write_same ref_read_write_other append_val_ref_other)
      (simp add: ref_engine_def append_ref_eqs)
qed

lemma map_of_filter_other: "map_of (filter (\<lambda>e. fst e \<noteq> q) k) p = (if p = q then None else map_of k p)"
  by (induction k) auto

lemma ref_kv_ok: "kv_ok (ref_engine S)"
  by (simp add: kv_ok_def ref_engine_def ref_get_def ref_upsert_def map_of_filter_other)

lemma ref_put_ok: "put_ok (ref_engine S)"
  by (simp add: put_ok_def ref_engine_def ref_get_def ref_upsert_def map_of_filter_other)

lemma ref_key_ok: "key_ok (ref_engine S) S"
proof -
  have gets: "get_int32 (ref_engine S) = ref_i32" "get_int64 (ref_engine S) = ref_i64"
    "get_string (ref_engine S) = ref_str" "kv_key (ref_engine S) k d = ref_key S d" for k d
    by (simp_all add: ref_engine_def)
  show ?thesis
    unfolding key_ok_def doc_key_def gets ref_key_def
    by (auto split: option.splits data_type.splits)
qed

text \<open>A schema with one field of each shape, for the concrete inputs.\<close>

definition mk_schema :: "string \<Rightarrow> field_def list \<Rightarrow> schema" where
  "mk_schema pk fs = \<lparr>sc_fields = fs, sc_pk = pk,
     sc_find = (\<lambda>n. find (\<lambda>d. fd_name d = n) fs),
     sc_find_id = (\<lambda>i. find (\<lambda>d. fd_id d = ucast i) fs)\<rparr>"

definition ex_fields :: "field_def list" where
  "ex_fields =
     [\<lparr>fd_name = ''id'', fd_id = 1, fd_type = DT_Int64, fd_array = False\<rparr>,
      \<lparr>fd_name = ''name'', fd_id = 2, fd_type = DT_String, fd_array = False\<rparr>,
      \<lparr>fd_name = ''tags'', fd_id = 3, fd_type = DT_String, fd_array = True\<rparr>,
      \<lparr>fd_name = ''n'', fd_id = 4, fd_type = DT_Int32, fd_array = True\<rparr>,
      \<lparr>fd_name = ''on'', fd_id = 5, fd_type = DT_Bool, fd_array = False\<rparr>]"

definition ex_schema :: schema where "ex_schema = mk_schema ''id'' ex_fields"

lemma mk_schema_ok:
  "distinct (map fd_id fs) \<Longrightarrow> distinct (map fd_name fs) \<Longrightarrow>
   list_all (\<lambda>d. unat (fd_id d) < 2 ^ 16) fs \<Longrightarrow> schema_ok (mk_schema pk fs)"
  by (simp add: schema_ok_def mk_schema_def list_all_iff)

lemma ex_schema_ok: "schema_ok ex_schema"
  unfolding ex_schema_def by (rule mk_schema_ok) (simp_all add: ex_fields_def)

end
