(* ===== verification/StreamSpec.thy ===== *)
theory StreamSpec
  imports JsonIngest RefEngine
begin

text \<open>
  What a stream of JSON objects does to a table, stated without documents: a row is the list of
  its fields with their values, a table a map from primary keys to rows. The operations of
  \<open>JsonIngest\<close> refine the operations on this view.
\<close>

section \<open>Rows and the abstract operations\<close>

type_synonym row_view = "(field_def \<times> cval) list"
type_synonym table_view = "string \<Rightarrow> row_view option"

definition stored_fields :: "schema \<Rightarrow> (field_def \<times> kind) list" where
  "stored_fields S =
     List.map_filter (\<lambda>def. map_option (\<lambda>j. (def, j)) (kind_of_def def)) (sc_fields S)"

definition row_view :: "('d, 'k) engine \<Rightarrow> schema \<Rightarrow> 'd \<Rightarrow> row_view" where
  "row_view E S d = map (\<lambda>(def, j). (def, read_at E d (fd_id def) j)) (stored_fields S)"

definition table_view :: "('d, 'k) engine \<Rightarrow> schema \<Rightarrow> 'k \<Rightarrow> table_view" where
  "table_view E S idx pk = map_option (row_view E S) (kv_get E idx pk)"

definition default_row :: "schema \<Rightarrow> row_view" where
  "default_row S = map (\<lambda>(def, j). (def, default_val j)) (stored_fields S)"

definition patch_val :: "json_ops \<Rightarrow> (string \<times> json) list \<Rightarrow> field_def \<Rightarrow> cval \<Rightarrow> cval" where
  "patch_val J ms def c =
     (if skipped (fd_name def) then c
      else case map_of ms (fd_name def) of None \<Rightarrow> c
      | Some v \<Rightarrow>
          if is_null v then c
          else case json_cval J def v of None \<Rightarrow> c
          | Some w \<Rightarrow> if fd_array def then append_cval c w else w)"

definition patch_row :: "json_ops \<Rightarrow> (string \<times> json) list \<Rightarrow> row_view \<Rightarrow> row_view" where
  "patch_row J ms r = map (\<lambda>(def, c). (def, patch_val J ms def c)) r"

text \<open>
  The contract: DELETE removes the row, INSERT adds a patched default row where there is none,
  UPSERT (the default) patches the row there is, or a default one. A message that is refused or
  throws changes nothing.
\<close>

definition stream_spec :: "json_ops \<Rightarrow> schema \<Rightarrow> table_view \<Rightarrow> json \<Rightarrow> apply_status \<times> table_view" where
  "stream_spec J S T obj =
     (let upd = (\<lambda>r. case merge_check J S (members obj) of
                   Refused \<Rightarrow> (Not_applied, None) | Threw \<Rightarrow> (Exception, None)
                 | Done _ \<Rightarrow> (Applied, Some (patch_row J (members obj) r)))
      in case stream_op J obj of
        Refused \<Rightarrow> (Not_applied, T) | Threw \<Rightarrow> (Exception, T)
      | Done op \<Rightarrow>
          if op \<notin> {''delete'', ''insert'', ''upsert'', []} then (Not_applied, T)
          else case ExtractPkString J S obj of
            Refused \<Rightarrow> (Not_applied, T) | Threw \<Rightarrow> (Exception, T)
          | Done pk \<Rightarrow>
              if op = ''delete'' then (Applied, T(pk := None))
              else if op = ''insert'' \<and> T pk \<noteq> None then (Not_applied, T)
              else (case upd (case T pk of Some r \<Rightarrow> r | None \<Rightarrow> default_row S) of
                      (st, None) \<Rightarrow> (st, T) | (st, Some r) \<Rightarrow> (st, T(pk := Some r))))"

section \<open>Reading merged and copied documents\<close>

lemma array_kinds:
  "kind_of_def def = Some j \<Longrightarrow> fd_array def \<Longrightarrow> j \<in> {K_AI32, K_AI64, K_AF32, K_AF64, K_AStr}"
  by (auto simp: kind_of_def_def split: data_type.splits)

lemma stored_fields_mem: "(def, j) \<in> set (stored_fields S) \<longleftrightarrow> def \<in> set (sc_fields S) \<and> kind_of_def def = Some j"
  by (auto simp: stored_fields_def List.map_filter_def image_iff)

lemma read_merged:
  assumes "doc_ok E" "schema_ok S" "d \<in> set (sc_fields S)" "def \<in> set (sc_fields S)"
    and "kind_of_def def = Some j"
  shows "read_at E (merged E J d doc val) (fd_id def) j =
    (if d = def \<and> \<not> is_null val then
       (case json_cval J def val of None \<Rightarrow> read_at E doc (fd_id def) j
        | Some w \<Rightarrow> if fd_array def then append_cval (read_at E doc (fd_id def) j) w else w)
     else read_at E doc (fd_id def) j)"
proof (cases "d = def")
  case True
  then show ?thesis
    using assms(1,5) array_kinds [OF assms(5)]
    by (auto simp: merged_def read_append_same read_write_same dest: json_cval_kind split: option.split)
next
  case False
  with schema_id_inj [OF assms(2,4,3)] have "fd_id def \<noteq> fd_id d" by simp
  with False assms(1) show ?thesis
    by (auto simp: merged_def read_append_other read_write_other split: option.split)
qed

lemma patch_val_other:
  "skipped key \<or> key \<noteq> fd_name def \<Longrightarrow> patch_val J ((key, val) # ms) def c = patch_val J ms def c"
  by (auto simp: patch_val_def)

lemma patch_val_absent: "map_of ms (fd_name def) = None \<Longrightarrow> patch_val J ms def c = c"
  by (simp add: patch_val_def)

lemma patch_val_hit:
  "\<not> skipped (fd_name def) \<Longrightarrow> patch_val J ((fd_name def, val) # ms) def c =
     (if is_null val then c
      else case json_cval J def val of None \<Rightarrow> c
      | Some w \<Rightarrow> if fd_array def then append_cval c w else w)"
  by (simp add: patch_val_def)

lemma read_merge_doc:
  assumes "doc_ok E" "schema_ok S" "def \<in> set (sc_fields S)" "kind_of_def def = Some j"
    and "distinct (map fst ms)"
  shows "read_at E (merge_doc E J S doc ms) (fd_id def) j = patch_val J ms def (read_at E doc (fd_id def) j)"
  using assms(5)
proof (induction ms arbitrary: doc)
  case Nil
  then show ?case by (simp add: patch_val_def)
next
  case (Cons m ms)
  obtain key val where m: "m = (key, val)" by (cases m)
  have IH: "read_at E (merge_doc E J S doc' ms) (fd_id def) j
      = patch_val J ms def (read_at E doc' (fd_id def) j)" for doc'
    using Cons by simp
  show ?case
  proof (cases "skipped key \<or> sc_find S key = None")
    case True
    then have "skipped key \<or> key \<noteq> fd_name def"
      using schema_find_of [OF assms(2,3)] by auto
    with True m show ?thesis by (auto simp: patch_val_other IH)
  next
    case False
    then obtain d where d: "sc_find S key = Some d" by auto
    note dm = schema_find_mem [OF assms(2) d]
    have step: "merge_doc E J S doc (m # ms) = merge_doc E J S (merged E J d doc val) ms"
      using False d m by simp
    note rm = read_merged [OF assms(1,2) conjunct1 [OF dm] assms(3,4), of J doc val]
    show ?thesis
    proof (cases "d = def")
      case True
      have "map_of ms (fd_name def) = None" using Cons.prems m dm True by (simp add: map_of_eq_None_iff)
      note absent = patch_val_absent [OF this]
      have key: "key = fd_name def" and "\<not> skipped (fd_name def)" using dm True False by simp_all
      note hit = patch_val_hit [OF this(2)]
      show ?thesis unfolding step IH rm unfolding m key hit absent using True by simp
    next
      case neq: False
      have "key \<noteq> fd_name def" using dm schema_find_of [OF assms(2,3)] d neq by auto
      with neq show ?thesis unfolding step IH rm unfolding m by (simp add: patch_val_other)
    qed
  qed
qed

text \<open>Copying every field of a document onto a fresh one gives a document that reads the same.\<close>

lemma copy_field_write:
  "copy_field E src d dst =
     (case kind_of_def d of None \<Rightarrow> dst
      | Some j \<Rightarrow> if fd_array d \<and> read_at E src (fd_id d) j = default_val j then dst
                 else write_val E dst (fd_id d) (read_at E src (fd_id d) j))"
  by (cases "fd_type d"; cases "fd_array d")
    (auto simp: copy_field_def kind_of_def_def Let_def array_strings_def)

lemma kind_read_at [simp]: "kind_of_val (read_at E d f j) = j"
  by (cases j) simp_all

lemma read_copy_field_other:
  assumes "doc_ok E" "g \<noteq> fd_id d"
  shows "read_at E (copy_field E src d dst) g j = read_at E dst g j"
  using assms by (auto simp: copy_field_write read_write_other split: option.split)

lemma read_copy_fields_other:
  "doc_ok E \<Longrightarrow> g \<notin> fd_id ` set ds \<Longrightarrow> read_at E (fold (copy_field E src) ds dst) g j = read_at E dst g j"
  by (induction ds arbitrary: dst) (simp_all add: read_copy_field_other)

lemma read_copy_field_same:
  "doc_ok E \<Longrightarrow> kind_of_def d = Some j \<Longrightarrow>
   read_at E (copy_field E src d dst) (fd_id d) j =
     (if fd_array d \<and> read_at E src (fd_id d) j = default_val j then read_at E dst (fd_id d) j
      else read_at E src (fd_id d) j)"
  by (simp add: copy_field_write read_write_same)

lemma read_copy_fields:
  assumes "doc_ok E" "distinct (map fd_id ds)" "kind_of_def def = Some j" "def \<in> set ds"
  shows "read_at E (fold (copy_field E src) ds dst) (fd_id def) j =
    (if fd_array def \<and> read_at E src (fd_id def) j = default_val j then read_at E dst (fd_id def) j
     else read_at E src (fd_id def) j)"
  using assms(2,4)
proof (induction ds arbitrary: dst)
  case Nil
  then show ?case by simp
next
  case (Cons d ds)
  show ?case
  proof (cases "d = def")
    case True
    with Cons.prems assms show ?thesis by (simp add: read_copy_fields_other read_copy_field_same)
  next
    case False
    with Cons.prems have "fd_id def \<noteq> fd_id d" by (auto simp: image_iff)
    with Cons False assms(1) show ?thesis by (simp add: read_copy_field_other)
  qed
qed

lemma read_CopyDoc_new:
  assumes "doc_ok E" "schema_ok S" "def \<in> set (sc_fields S)" "kind_of_def def = Some j"
  shows "read_at E (CopyDocFromSchema E S src (new_doc E k)) (fd_id def) j = read_at E src (fd_id def) j"
  using read_copy_fields [OF assms(1) _ assms(4), of "sc_fields S" src "new_doc E k"] assms
  by (auto simp: CopyDocFromSchema_def schema_ok_def read_new)

lemma row_view_new: "doc_ok E \<Longrightarrow> row_view E S (new_doc E k) = default_row S"
  by (simp add: row_view_def default_row_def read_new)

lemma row_view_copy:
  "doc_ok E \<Longrightarrow> schema_ok S \<Longrightarrow> row_view E S (CopyDocFromSchema E S src (new_doc E k)) = row_view E S src"
  by (auto simp: row_view_def stored_fields_mem read_CopyDoc_new)

lemma row_view_merge:
  "doc_ok E \<Longrightarrow> schema_ok S \<Longrightarrow> distinct (map fst ms) \<Longrightarrow>
   row_view E S (merge_doc E J S doc ms) = patch_row J ms (row_view E S doc)"
  by (auto simp: row_view_def patch_row_def stored_fields_mem read_merge_doc)

section \<open>The stored fields as a map\<close>

lemma stored_fields_distinct: "schema_ok S \<Longrightarrow> distinct (map fst (stored_fields S))"
proof -
  assume "schema_ok S"
  then have "distinct (sc_fields S)" by (auto simp: schema_ok_def distinct_map)
  moreover have "map fst (List.map_filter (\<lambda>d. map_option (\<lambda>j. (d, j)) (kind_of_def d)) ds)
      = filter (\<lambda>d. kind_of_def d \<noteq> None) ds" for ds
    by (induction ds) (auto simp: List.map_filter_simps split: option.split)
  ultimately show ?thesis by (simp add: stored_fields_def)
qed

lemma map_of_stored:
  assumes "schema_ok S" "def \<in> set (sc_fields S)" "kind_of_def def = Some j"
  shows "map_of (map (\<lambda>(d, j). (d, f d j)) (stored_fields S)) def = Some (f def j)"
proof (rule map_of_is_SomeI)
  show "distinct (map fst (map (\<lambda>(d, j). (d, f d j)) (stored_fields S)))"
    using stored_fields_distinct [OF assms(1)] by (simp add: comp_def case_prod_beta)
  show "(def, f def j) \<in> set (map (\<lambda>(d, j). (d, f d j)) (stored_fields S))"
    using assms(2,3) by (force simp: stored_fields_mem)
qed

lemma map_of_row_view:
  "schema_ok S \<Longrightarrow> def \<in> set (sc_fields S) \<Longrightarrow> kind_of_def def = Some j \<Longrightarrow>
   map_of (row_view E S doc) def = Some (read_at E doc (fd_id def) j)"
  unfolding row_view_def by (rule map_of_stored)

text \<open>The text of a value as a key.\<close>

fun cval_text :: "cval \<Rightarrow> string" where
  "cval_text (V_I32 w) = to_string_i32 w"
| "cval_text (V_I64 w) = to_string_i64 w"
| "cval_text (V_Str s) = s"
| "cval_text _ = []"

section \<open>The document is filed under the key of the message\<close>

text \<open>The primary key is a scalar field whose name is not one of the two skipped ones.\<close>

definition pk_ok :: "schema \<Rightarrow> bool" where
  "pk_ok S = (case sc_find S (sc_pk S) of None \<Rightarrow> True
    | Some p \<Rightarrow> \<not> fd_array p \<and> \<not> skipped (fd_name p))"

definition keys_distinct :: "json \<Rightarrow> bool" where
  "keys_distinct obj = distinct (map fst (members obj))"

lemma doc_key_merged:
  assumes "doc_ok E" "schema_ok S" "pk_ok S" "keys_distinct obj"
    and pk: "ExtractPkString J S obj = Done pk"
  shows "doc_key E S (merge_doc E J S doc (members obj)) = Some pk"
proof -
  from pk obtain p pv where p: "sc_find S (sc_pk S) = Some p"
    and pv: "member obj (fd_name p) = Some pv" "\<not> is_null pv"
    by (auto simp: ExtractPkString_def split: option.splits if_splits)
  have mem: "p \<in> set (sc_fields S)" using schema_find_mem [OF assms(2) p] by simp
  have scalar: "\<not> fd_array p" "\<not> skipped (fd_name p)" using assms(3) p by (simp_all add: pk_ok_def)
  have read: "read_at E (merge_doc E J S doc (members obj)) (fd_id p) j = w"
    if "kind_of_def p = Some j" "json_cval J p pv = Some w" for j w
    using read_merge_doc [OF assms(1,2) mem that(1)] assms(4) pv scalar that(2)
    by (simp add: keys_distinct_def patch_val_def member_def)
  show ?thesis
    using pk p pv scalar read [of K_I32] read [of K_I64] read [of K_Str]
    by (cases "fd_type p")
      (auto simp: ExtractPkString_def doc_key_def kind_of_def_def json_cval_def)
qed

lemma kv_key_merged:
  assumes "doc_ok E" "schema_ok S" "pk_ok S" "keys_distinct obj" "key_ok E S"
    and "ExtractPkString J S obj = Done pk"
  shows "kv_key E idx (merge_doc E J S doc (members obj)) = pk"
  using doc_key_merged [OF assms(1-4,6)] assms(5) by (simp add: key_ok_def)

section \<open>Refinement\<close>

definition ingest_ok :: "('d, 'k) engine \<Rightarrow> schema \<Rightarrow> bool" where
  "ingest_ok E S \<longleftrightarrow> doc_ok E \<and> kv_ok E \<and> key_ok E S \<and> schema_ok S \<and> pk_ok S"

lemma table_view_upsert:
  "kv_ok E \<Longrightarrow> table_view E S (kv_upsert E idx d) = (table_view E S idx)(kv_key E idx d := Some (row_view E S d))"
  by (auto simp: table_view_def kv_get_upsert)

lemma table_view_put:
  "kv_ok E \<Longrightarrow> kv_get E idx (kv_key E idx d) = None \<Longrightarrow>
   table_view E S (kv_put E idx d) = (table_view E S idx)(kv_key E idx d := Some (row_view E S d))"
  by (rule ext) (simp add: table_view_def kv_ok_def)

lemma table_view_delete:
  "kv_ok E \<Longrightarrow> table_view E S (kv_delete E idx pk) = (table_view E S idx)(pk := None)"
  by (auto simp: table_view_def kv_get_delete)

lemma upsert_refines:
  assumes "ingest_ok E S" "keys_distinct obj" "ExtractPkString J S obj = Done pk"
  shows "map_prod id (table_view E S) (ApplyUpsertMerge E J S idx obj) =
    (case merge_check J S (members obj) of
       Refused \<Rightarrow> (Not_applied, table_view E S idx) | Threw \<Rightarrow> (Exception, table_view E S idx)
     | Done _ \<Rightarrow> (Applied, (table_view E S idx)(pk := Some (patch_row J (members obj)
         (case table_view E S idx pk of Some r \<Rightarrow> r | None \<Rightarrow> default_row S)))))"
proof -
  note ok = assms(1) [unfolded ingest_ok_def]
  note key = kv_key_merged [of E S obj J pk] 
  have d: "distinct (map fst (members obj))" using assms(2) by (simp add: keys_distinct_def)
  show ?thesis
    using ok assms(2,3) d
    by (cases "merge_check J S (members obj)"; cases "kv_get E idx pk")
      (simp_all add: ApplyUpsertMerge_def MergeJsonIntoDoc_def merge_items_eq key table_view_upsert
        row_view_merge row_view_new row_view_copy, simp_all add: table_view_def)
qed

lemma insert_refines:
  assumes "ingest_ok E S" "keys_distinct obj" "ExtractPkString J S obj = Done pk"
  shows "map_prod id (table_view E S) (ApplyInsert E J S idx obj) =
    (if table_view E S idx pk \<noteq> None then (Not_applied, table_view E S idx)
     else case merge_check J S (members obj) of
       Refused \<Rightarrow> (Not_applied, table_view E S idx) | Threw \<Rightarrow> (Exception, table_view E S idx)
     | Done _ \<Rightarrow> (Applied, (table_view E S idx)(pk := Some (patch_row J (members obj) (default_row S)))))"
proof -
  note ok = assms(1) [unfolded ingest_ok_def]
  note key = kv_key_merged [of E S obj J pk]
  have d: "distinct (map fst (members obj))" using assms(2) by (simp add: keys_distinct_def)
  have none: "table_view E S idx pk \<noteq> None \<longleftrightarrow> kv_get E idx pk \<noteq> None" by (simp add: table_view_def)
  show ?thesis
    unfolding none using ok assms(2,3) d
    by (cases "merge_check J S (members obj)"; cases "kv_get E idx pk")
      (simp_all add: ApplyInsert_def MergeJsonIntoDoc_def merge_items_eq key table_view_put
        row_view_merge row_view_new)
qed

lemma delete_refines:
  assumes "ingest_ok E S" "ExtractPkString J S obj = Done pk"
  shows "map_prod id (table_view E S) (ApplyDelete E J S idx obj) = (Applied, (table_view E S idx)(pk := None))"
  using assms
  by (auto simp: ApplyDelete_def ingest_ok_def ExtractPkString_def table_view_delete contains_def
      split: option.splits if_splits)

lemma no_pk_no_effect:
  assumes "\<forall>pk. ExtractPkString J S obj \<noteq> Done pk"
  shows "ApplyInsert E J S idx obj = ((if ExtractPkString J S obj = Refused then Not_applied else Exception), idx)"
    and "ApplyUpsertMerge E J S idx obj = ((if ExtractPkString J S obj = Refused then Not_applied else Exception), idx)"
    and "ApplyDelete E J S idx obj = ((if ExtractPkString J S obj = Refused then Not_applied else Exception), idx)"
proof -
  show "ApplyInsert E J S idx obj = ((if ExtractPkString J S obj = Refused then Not_applied else Exception), idx)"
    "ApplyUpsertMerge E J S idx obj = ((if ExtractPkString J S obj = Refused then Not_applied else Exception), idx)"
    using assms by (cases "ExtractPkString J S obj"; simp add: ApplyInsert_def ApplyUpsertMerge_def)+
  have "sc_find S (sc_pk S) = None \<Longrightarrow> ExtractPkString J S obj = Refused"
    "sc_find S (sc_pk S) = Some p \<Longrightarrow> \<not> contains obj (fd_name p) \<Longrightarrow> ExtractPkString J S obj = Refused" for p
    by (simp_all add: ExtractPkString_def contains_def)
  then show "ApplyDelete E J S idx obj = ((if ExtractPkString J S obj = Refused then Not_applied else Exception), idx)"
    using assms by (cases "ExtractPkString J S obj") (auto simp: ApplyDelete_def split: option.split)
qed

lemmas apply_refines = upsert_refines insert_refines delete_refines

lemma ApplyStreamJsonObject_refines:
  assumes "ingest_ok E S" and "keys_distinct obj"
  shows "map_prod id (table_view E S) (ApplyStreamJsonObject E J S idx obj)
       = stream_spec J S (table_view E S idx) obj"
proof (cases "stream_op J obj")
  case (Done op)
  show ?thesis
  proof (cases "ExtractPkString J S obj")
    case (Done pk)
    show ?thesis
      using \<open>stream_op J obj = Done op\<close> Done
      by (auto simp: ApplyStreamJsonObject_def stream_spec_def apply_refines [OF assms(1)] assms(2)
          split: result.split option.split)
  qed (use Done in \<open>auto simp: ApplyStreamJsonObject_def stream_spec_def no_pk_no_effect\<close>)
qed (simp_all add: ApplyStreamJsonObject_def stream_spec_def)

section \<open>A concrete table and messages\<close>

definition ex_index :: ref_index where
  "ex_index = [(''7'', [(1, V_I64 7), (2, V_Str ''old''), (4, V_AI32 [1])])]"

definition ex_upsert :: json where
  "ex_upsert = JObject [(''_op'', JString ''UpSert''), (''id'', JInt 7), (''name'', JString ''new''),
     (''on'', JBool True), (''x'', JNull)]"

definition ex_append :: json where
  "ex_append = JObject [(''id'', JInt 7), (''n'', JArray [JInt 2, JInt 3])]"

definition ex_bad :: json where
  "ex_bad = JObject [(''id'', JInt 7), (''name'', JInt 1)]"

lemma ex_ingest_ok: "ingest_ok (ref_engine ex_schema) ex_schema"
proof -
  have "pk_ok ex_schema" by code_simp
  then show ?thesis
    by (simp add: ingest_ok_def ref_doc_ok ref_kv_ok ref_key_ok ex_schema_ok)
qed

text \<open>
  C5: Applying a JSON object of the stream to an index does to the rows of the table exactly
  what the abstract operation does: same status, and same rows under every key afterwards.
  This covers INSERT, UPSERT (merge into the stored row, arrays append) and DELETE, in any
  letter case, an absent or non-string _op, an unknown one, and every refusal and exception.
\<close>

theorem stream_refines:
  assumes "ingest_ok E S" and "keys_distinct obj"
  shows "map_prod id (table_view E S) (ApplyStreamJsonObject E J S idx obj)
       = stream_spec J S (table_view E S idx) obj"
  by (rule ApplyStreamJsonObject_refines [OF assms])

theorem stream_refines_witness:
  "map_prod id (table_view (ref_engine ex_schema) ex_schema)
     (ApplyStreamJsonObject (ref_engine ex_schema) ref_json ex_schema ex_index ex_append)
   = stream_spec ref_json ex_schema (table_view (ref_engine ex_schema) ex_schema ex_index) ex_append
   \<and> fst (ApplyStreamJsonObject (ref_engine ex_schema) ref_json ex_schema ex_index ex_append) = Applied"
proof
  show "fst (ApplyStreamJsonObject (ref_engine ex_schema) ref_json ex_schema ex_index ex_append) = Applied"
    by code_simp
  have "keys_distinct ex_append" by code_simp
  then show "map_prod id (table_view (ref_engine ex_schema) ex_schema)
     (ApplyStreamJsonObject (ref_engine ex_schema) ref_json ex_schema ex_index ex_append)
   = stream_spec ref_json ex_schema (table_view (ref_engine ex_schema) ex_schema ex_index) ex_append"
    by (rule stream_refines [OF ex_ingest_ok])
qed

lemma failed_op_unchanged:
  "fst (ApplyInsert E J S idx obj) = Applied \<or> snd (ApplyInsert E J S idx obj) = idx"
  "fst (ApplyUpsertMerge E J S idx obj) = Applied \<or> snd (ApplyUpsertMerge E J S idx obj) = idx"
  "fst (ApplyDelete E J S idx obj) = Applied \<or> snd (ApplyDelete E J S idx obj) = idx"
  by (simp_all add: ApplyInsert_def ApplyUpsertMerge_def ApplyDelete_def Let_def
      split: result.split option.split)

text \<open>
  C22: A message that is not applied (refused or ended by a JSON exception) leaves the index
  itself, not only its rows, as it was.
\<close>

theorem stream_failure_unchanged:
  "fst (ApplyStreamJsonObject E J S idx obj) \<noteq> Applied \<Longrightarrow> snd (ApplyStreamJsonObject E J S idx obj) = idx"
  using failed_op_unchanged [of E J S idx obj]
  by (cases "stream_op J obj") (auto simp: ApplyStreamJsonObject_def split: if_splits)

theorem stream_failure_unchanged_witness:
  "snd (ApplyStreamJsonObject (ref_engine ex_schema) ref_json ex_schema ex_index ex_bad) = ex_index"
  by (rule stream_failure_unchanged) code_simp

section \<open>Consequences\<close>

text \<open>The members that would append to an array.\<close>

definition no_arrays :: "schema \<Rightarrow> json \<Rightarrow> bool" where
  "no_arrays S obj = (\<forall>(key, val) \<in> set (members obj). \<not> is_array val)"

lemma patch_val_idem:
  assumes "\<forall>(key, val) \<in> set ms. \<not> is_array val" and "merge_check J S ms = Done ()"
    and "schema_ok S" "def \<in> set (sc_fields S)"
  shows "patch_val J ms def (patch_val J ms def c) = patch_val J ms def c"
proof (cases "fd_array def")
  case True
  have "is_null v" if "map_of ms (fd_name def) = Some v" "\<not> skipped (fd_name def)" for v
  proof (rule ccontr)
    assume n: "\<not> is_null v"
    have "field_check J def v = Done ()"
      using assms(2) that
    proof (induction ms)
      case (Cons m ms)
      then show ?case
        using schema_find_of [OF assms(3,4)]
        by (cases m) (auto split: if_splits option.splits)
    qed simp
    with n True have "is_array v" by (auto simp: field_check_def split: if_splits)
    with assms(1) that(1) show False by (auto dest: map_of_SomeD)
  qed
  then show ?thesis by (auto simp: patch_val_def split: option.splits)
next
  case False
  then show ?thesis by (auto simp: patch_val_def split: option.splits)
qed

lemma patch_row_idem:
  assumes "\<forall>(key, val) \<in> set ms. \<not> is_array val" and "merge_check J S ms = Done ()"
    and "schema_ok S" "\<forall>(def, c) \<in> set r. def \<in> set (sc_fields S)"
  shows "patch_row J ms (patch_row J ms r) = patch_row J ms r"
  using assms(4) patch_val_idem [OF assms(1-3)] by (auto simp: patch_row_def)

text \<open>
  C18: Redelivery is harmless for scalar messages. A message with no array member, applied a
  second time to the table its first application left, changes no row. (A consumer that stops
  between applying a message and saving its offset sees that message again.)
\<close>

theorem redelivery_idempotent:
  assumes "ingest_ok E S" "keys_distinct obj" "no_arrays S obj"
  shows "(let once = snd (ApplyStreamJsonObject E J S idx obj)
          in table_view E S (snd (ApplyStreamJsonObject E J S once obj)) = table_view E S once)"
proof -
  let ?ms = "members obj"
  have step: "table_view E S (snd (ApplyStreamJsonObject E J S i obj)) = snd (stream_spec J S (table_view E S i) obj)" for i
    using ApplyStreamJsonObject_refines [OF assms(1,2), of J i, symmetric] by simp
  have sch: "schema_ok S" using assms(1) by (simp add: ingest_ok_def)
  have idem: "patch_row J ?ms (patch_row J ?ms r) = patch_row J ?ms r"
    if "merge_check J S ?ms = Done ()" "\<forall>(def, c) \<in> set r. def \<in> set (sc_fields S)" for r
    using patch_row_idem [OF _ that(1) sch that(2)] assms(3) by (simp add: no_arrays_def)
  have rows: "table_view E S idx pk = Some r \<Longrightarrow> \<forall>(def, c) \<in> set r. def \<in> set (sc_fields S)" for pk r
    by (auto simp: table_view_def row_view_def stored_fields_mem)
  have default: "\<forall>(def, c) \<in> set (default_row S). def \<in> set (sc_fields S)"
    by (auto simp: default_row_def stored_fields_mem)
  show ?thesis
  proof (cases "stream_op J obj")
    case op: (Done op)
    show ?thesis
    proof (cases "ExtractPkString J S obj")
      case pk: (Done pk)
      let ?T = "table_view E S idx"
      show ?thesis
      proof (cases "merge_check J S ?ms")
        case (Done u)
        then have chk: "merge_check J S ?ms = Done ()" by simp
        show ?thesis
          unfolding Let_def step
          using op pk chk idem [OF chk rows [of pk]] idem [OF chk default]
          by (cases "?T pk") (simp_all add: stream_spec_def Let_def)
      qed (use op pk in \<open>simp_all add: step stream_spec_def Let_def\<close>)
    qed (use op in \<open>simp_all add: step stream_spec_def Let_def\<close>)
  qed (simp_all add: step stream_spec_def Let_def)
qed

theorem redelivery_idempotent_witness:
  "(let once = snd (ApplyStreamJsonObject (ref_engine ex_schema) ref_json ex_schema ex_index ex_upsert)
    in table_view (ref_engine ex_schema) ex_schema
         (snd (ApplyStreamJsonObject (ref_engine ex_schema) ref_json ex_schema once ex_upsert))
       = table_view (ref_engine ex_schema) ex_schema once)"
  by (rule redelivery_idempotent [OF ex_ingest_ok]) code_simp+

end
