(* ===== verification/KafkaSource.thy ===== *)
theory KafkaSource
  imports StreamSpec
begin

text \<open>
  \<open>kafka/kafka_source.cc\<close>: the consumer thread a table with a Kafka topic runs. librdkafka is
  a parameter: the calls that set the consumer up either succeed or fail (\<open>kafka_env\<close>), and
  each \<open>rd_kafka_consume\<close> gives one \<open>poll\<close> result. The loop runs until the stop flag is seen,
  so a run is given by the results of the polls before that. The offset file is its text, or
  \<open>None\<close> when it cannot be opened for reading.
\<close>

section \<open>The offset file\<close>

text \<open>The logical offset that stands for the start of the partition.\<close>

definition RD_KAFKA_OFFSET_BEGINNING :: i64 where
  "RD_KAFKA_OFFSET_BEGINNING = - 2"

text \<open>
  \<open>f >> off\<close>: nothing but white space leaves the variable as it was, text that is no number
  stores 0, a number out of range the nearest bound.
\<close>

definition istream_int64 :: "string \<Rightarrow> i64 \<Rightarrow> i64" where
  "istream_int64 s old =
     (if dropWhile is_space s = [] then old
      else word_of_int (clamp int64_min int64_max (fst (strtol_raw s))))"

definition LoadOffset :: "string option \<Rightarrow> i64" where
  "LoadOffset file =
     (case file of
        None \<Rightarrow> RD_KAFKA_OFFSET_BEGINNING
      | Some text \<Rightarrow>
          (let off = istream_int64 text RD_KAFKA_OFFSET_BEGINNING
           in if 0 \<le> sint off then off + 1 else RD_KAFKA_OFFSET_BEGINNING))"

definition SaveOffset :: "bool \<Rightarrow> i64 \<Rightarrow> string option \<Rightarrow> string option" where
  "SaveOffset writable offset file =
     (if \<not> writable then file else Some (to_string_i64 offset @ ''\<newline>''))"

section \<open>One message\<close>

text \<open>
  The items of a batch in order; one that is no object is skipped, one whose result is false is
  ignored, and an exception leaves the loop, as the handler encloses it.
\<close>

fun apply_batch :: "('k \<Rightarrow> json \<Rightarrow> apply_status \<times> 'k) \<Rightarrow> 'k \<Rightarrow> json list \<Rightarrow> 'k" where
  "apply_batch apply idx [] = idx"
| "apply_batch apply idx (item # items) =
     (if \<not> is_object item then apply_batch apply idx items
      else case apply idx item of
        (Exception, idx') \<Rightarrow> idx'
      | (_, idx') \<Rightarrow> apply_batch apply idx' items)"

definition apply_payload ::
  "json_ops \<Rightarrow> ('k \<Rightarrow> json \<Rightarrow> apply_status \<times> 'k) \<Rightarrow> 'k \<Rightarrow> string \<Rightarrow> 'k" where
  "apply_payload J apply idx payload =
     (case j_parse J payload of
        None \<Rightarrow> idx
      | Some j \<Rightarrow>
          if is_array j then apply_batch apply idx (elements j)
          else if is_object j then snd (apply idx j)
          else idx)"

section \<open>The consume loop\<close>

text \<open>
  The loop destroys a message before it parses the view it took of the payload: what it parses
  is whatever the freed memory reads as. \<open>freed\<close> is that reading, a function of the payload and
  the offset of the message on which nothing is assumed.
\<close>

datatype poll = P_timeout | P_eof | P_error | P_message string i64

record 'k consumer =
  cn_index :: 'k
  cn_offset_file :: "string option"
  cn_offset_writable :: bool

definition consume_step ::
  "json_ops \<Rightarrow> ('k \<Rightarrow> json \<Rightarrow> apply_status \<times> 'k) \<Rightarrow> (string \<Rightarrow> i64 \<Rightarrow> string) \<Rightarrow> poll \<Rightarrow>
   'k consumer \<Rightarrow> 'k consumer" where
  "consume_step J apply freed p st =
     (case p of
        P_timeout \<Rightarrow> st
      | P_eof \<Rightarrow> st
      | P_error \<Rightarrow> st
      | P_message payload offset \<Rightarrow>
          st\<lparr>cn_index := apply_payload J apply (cn_index st) (freed payload offset),
             cn_offset_file := SaveOffset (cn_offset_writable st) offset (cn_offset_file st)\<rparr>)"

record kafka_config =
  kc_brokers :: string
  kc_topic :: string
  kc_partition :: i32
  kc_offset_file :: string

record kafka_env =
  ke_conf_set :: "string \<Rightarrow> bool"
  ke_new :: bool
  ke_topic_new :: "string \<Rightarrow> bool"
  ke_consume_start :: "string \<Rightarrow> i32 \<Rightarrow> i64 \<Rightarrow> bool"
  ke_polls :: "string \<Rightarrow> i32 \<Rightarrow> i64 \<Rightarrow> poll list"
  ke_freed :: "string \<Rightarrow> i64 \<Rightarrow> string"

definition ConsumeLoop ::
  "kafka_env \<Rightarrow> json_ops \<Rightarrow> ('k \<Rightarrow> json \<Rightarrow> apply_status \<times> 'k) \<Rightarrow> kafka_config \<Rightarrow> 'k consumer \<Rightarrow> 'k consumer" where
  "ConsumeLoop K J apply cfg st =
     (if \<not> ke_conf_set K (kc_brokers cfg) then st
      else if \<not> ke_new K then st
      else let start_offset = LoadOffset (cn_offset_file st) in
      if \<not> ke_topic_new K (kc_topic cfg) then st
      else if \<not> ke_consume_start K (kc_topic cfg) (kc_partition cfg) start_offset then st
      else fold (consume_step J apply (ke_freed K)) (ke_polls K (kc_topic cfg) (kc_partition cfg) start_offset) st)"

text \<open>The thread's life: \<open>Start\<close> runs it, \<open>Stop\<close> sets the flag and joins it if it is running.\<close>

record source_thread =
  kt_running :: bool
  kt_stop :: bool

definition KafkaSource_init :: source_thread where
  "KafkaSource_init = \<lparr>kt_running = False, kt_stop = False\<rparr>"

definition KafkaSource_Start :: "source_thread \<Rightarrow> source_thread" where
  "KafkaSource_Start t = t\<lparr>kt_running := True\<rparr>"

definition KafkaSource_Stop :: "source_thread \<Rightarrow> source_thread" where
  "KafkaSource_Stop t = t\<lparr>kt_stop := True, kt_running := False\<rparr>"

section \<open>The contract of the ingest, as the consumer uses it\<close>

text \<open>
  The loop relies on one law of the operation it hands the objects to: a call that does not
  apply its object leaves the index alone.
\<close>

locale stream_apply =
  fixes apply_obj :: "'k \<Rightarrow> json \<Rightarrow> apply_status \<times> 'k"
  assumes not_applied_unchanged: "fst (apply_obj idx obj) \<noteq> Applied \<Longrightarrow> snd (apply_obj idx obj) = idx"
begin

text \<open>The items of a batch that take effect: those before the first exception.\<close>

fun effective :: "'k \<Rightarrow> json list \<Rightarrow> json list" where
  "effective idx [] = []"
| "effective idx (item # items) =
     (if \<not> is_object item then effective idx items
      else case apply_obj idx item of
        (Exception, _) \<Rightarrow> []
      | (Applied, idx') \<Rightarrow> item # effective idx' items
      | (Not_applied, _) \<Rightarrow> effective idx items)"

lemma batch_is_fold_of_effective:
  "apply_batch apply_obj idx items = fold (\<lambda>obj k. snd (apply_obj k obj)) (effective idx items) idx"
proof (induction items arbitrary: idx)
  case (Cons item items)
  then show ?case
    using not_applied_unchanged [of idx item]
    by (cases "apply_obj idx item"; cases "fst (apply_obj idx item)") simp_all
qed simp

lemma batch_all_refused:
  "(\<forall>item \<in> set items. is_object item \<longrightarrow> fst (apply_obj idx item) \<noteq> Applied) \<Longrightarrow>
   apply_batch apply_obj idx items = idx"
proof (induction items)
  case (Cons item items)
  then show ?case
    using not_applied_unchanged [of idx item]
    by (cases "apply_obj idx item"; cases "fst (apply_obj idx item)") simp_all
qed simp

end

lemma ApplyStreamJsonObject_not_applied:
  "fst (ApplyStreamJsonObject E J S idx obj) \<noteq> Applied \<Longrightarrow> snd (ApplyStreamJsonObject E J S idx obj) = idx"
  using failed_op_unchanged [of E J S idx obj]
  by (cases "stream_op J obj") (auto simp: ApplyStreamJsonObject_def split: if_splits)

interpretation ingest: stream_apply "ApplyStreamJsonObject E J S"
  by unfold_locales (rule ApplyStreamJsonObject_not_applied)

section \<open>The offset file\<close>

lemma istream_int64_dec:
  assumes "int64_min \<le> i" "i \<le> int64_max"
  shows "istream_int64 (dec_int i @ ''\<newline>'') old = word_of_int i"
proof -
  have nd: "char_digit CHR 0x0A = None" by (simp add: char_digit_def)
  have "dec_int i @ ''\<newline>'' \<noteq> []" by simp
  then show ?thesis
    using assms unfolding istream_int64_def dropWhile_space_dec_int strtol_raw_dec_int_stop [OF nd]
    by (simp add: clamp_def)
qed

lemma LoadOffset_saved:
  "LoadOffset (Some (to_string_i64 off @ ''\<newline>'')) = (if 0 \<le> sint off then off + 1 else RD_KAFKA_OFFSET_BEGINNING)"
  using sint_i64_bounds [of off]
  by (simp add: LoadOffset_def to_string_i64_def istream_int64_dec)

text \<open>
  C24: A saved offset is resumed after: what is loaded back is the offset of the next message,
  and the start of the partition when the file is missing, blank, or holds a negative offset.
\<close>

theorem offset_roundtrip:
  "LoadOffset (SaveOffset True off file) = (if 0 \<le> sint off then off + 1 else RD_KAFKA_OFFSET_BEGINNING)
   \<and> LoadOffset None = RD_KAFKA_OFFSET_BEGINNING
   \<and> LoadOffset (Some ''\<newline>'') = RD_KAFKA_OFFSET_BEGINNING"
  by (simp add: SaveOffset_def LoadOffset_saved)
    (simp add: LoadOffset_def istream_int64_def is_space_def RD_KAFKA_OFFSET_BEGINNING_def)

section \<open>Runs and restarts\<close>

fun messages :: "poll list \<Rightarrow> (string \<times> i64) list" where
  "messages [] = []"
| "messages (P_message payload offset # ps) = (payload, offset) # messages ps"
| "messages (_ # ps) = messages ps"

definition apply_log ::
  "json_ops \<Rightarrow> ('k \<Rightarrow> json \<Rightarrow> apply_status \<times> 'k) \<Rightarrow> (string \<times> i64) list \<Rightarrow> 'k \<Rightarrow> 'k" where
  "apply_log J apply log idx = fold (\<lambda>(payload, offset) k. apply_payload J apply k payload) log idx"

text \<open>The messages as the program reads them, after it has freed them.\<close>

definition log_read :: "(string \<Rightarrow> i64 \<Rightarrow> string) \<Rightarrow> (string \<times> i64) list \<Rightarrow> (string \<times> i64) list" where
  "log_read freed log = map (\<lambda>(payload, offset). (freed payload offset, offset)) log"

lemma log_read_intact: "(\<And>p off. freed p off = p) \<Longrightarrow> log_read freed log = log"
  by (simp add: log_read_def)

lemma apply_log_append: "apply_log J apply (ms @ ns) idx = apply_log J apply ns (apply_log J apply ms idx)"
  by (simp add: apply_log_def)

text \<open>Timeouts, end-of-partition events and consume errors change nothing; the messages are
  applied in order and the file holds the offset of the last one.\<close>

lemma consume_run:
  "fold (consume_step J apply freed) ps st =
     st\<lparr>cn_index := apply_log J apply (log_read freed (messages ps)) (cn_index st),
        cn_offset_file := (if messages ps = [] then cn_offset_file st
           else SaveOffset (cn_offset_writable st) (snd (last (messages ps))) (cn_offset_file st))\<rparr>"
proof (induction ps arbitrary: st rule: messages.induct)
  case (2 payload offset ps)
  then show ?case
    by (cases "cn_offset_writable st") (simp_all add: consume_step_def apply_log_def SaveOffset_def log_read_def)
qed (simp_all add: consume_step_def apply_log_def log_read_def)

text \<open>
  The messages a run receives: those of its polls, when the consumer starts. \<open>received\<close> and
  \<open>as_read\<close> put the runs together: what the broker delivered, and what the parser then saw.
\<close>

definition served :: "kafka_env \<Rightarrow> kafka_config \<Rightarrow> 'k consumer \<Rightarrow> (string \<times> i64) list" where
  "served K cfg st =
     (let start = LoadOffset (cn_offset_file st)
      in if ke_conf_set K (kc_brokers cfg) \<and> ke_new K \<and> ke_topic_new K (kc_topic cfg)
            \<and> ke_consume_start K (kc_topic cfg) (kc_partition cfg) start
         then messages (ke_polls K (kc_topic cfg) (kc_partition cfg) start) else [])"

definition consumer_runs ::
  "kafka_env list \<Rightarrow> json_ops \<Rightarrow> ('k \<Rightarrow> json \<Rightarrow> apply_status \<times> 'k) \<Rightarrow> kafka_config \<Rightarrow> 'k consumer \<Rightarrow> 'k consumer" where
  "consumer_runs Ks J apply cfg st = fold (\<lambda>K. ConsumeLoop K J apply cfg) Ks st"

fun received ::
  "kafka_env list \<Rightarrow> json_ops \<Rightarrow> ('k \<Rightarrow> json \<Rightarrow> apply_status \<times> 'k) \<Rightarrow> kafka_config \<Rightarrow> 'k consumer \<Rightarrow> (string \<times> i64) list" where
  "received [] J apply cfg st = []"
| "received (K # Ks) J apply cfg st = served K cfg st @ received Ks J apply cfg (ConsumeLoop K J apply cfg st)"

fun as_read ::
  "kafka_env list \<Rightarrow> json_ops \<Rightarrow> ('k \<Rightarrow> json \<Rightarrow> apply_status \<times> 'k) \<Rightarrow> kafka_config \<Rightarrow> 'k consumer \<Rightarrow> (string \<times> i64) list" where
  "as_read [] J apply cfg st = []"
| "as_read (K # Ks) J apply cfg st =
     log_read (ke_freed K) (served K cfg st) @ as_read Ks J apply cfg (ConsumeLoop K J apply cfg st)"

lemma as_read_intact:
  "(\<And>K p off. K \<in> set Ks \<Longrightarrow> ke_freed K p off = p) \<Longrightarrow> as_read Ks J apply cfg st = received Ks J apply cfg st"
proof (induction Ks arbitrary: st)
  case (Cons K Ks)
  then show ?case by (auto simp: log_read_intact)
qed simp

lemma as_read_offsets: "map snd (as_read Ks J apply cfg st) = map snd (received Ks J apply cfg st)"
  by (induction Ks arbitrary: st) (simp_all add: log_read_def case_prod_beta comp_def)

lemma ConsumeLoop_served:
  "ConsumeLoop K J apply cfg st =
     st\<lparr>cn_index := apply_log J apply (log_read (ke_freed K) (served K cfg st)) (cn_index st),
        cn_offset_file := (if served K cfg st = [] then cn_offset_file st
           else SaveOffset (cn_offset_writable st) (snd (last (served K cfg st))) (cn_offset_file st))\<rparr>"
  by (simp add: ConsumeLoop_def served_def Let_def consume_run log_read_def apply_log_def)

lemma consumer_runs_index:
  "cn_index (consumer_runs Ks J apply cfg st) = apply_log J apply (as_read Ks J apply cfg st) (cn_index st)"
proof (induction Ks arbitrary: st)
  case (Cons K Ks)
  then show ?case
    by (simp add: consumer_runs_def apply_log_append) (simp add: ConsumeLoop_served)
qed (simp add: consumer_runs_def apply_log_def)

text \<open>
  A partition is the list of its messages with increasing offsets, from which a consumer that
  starts at an offset is served in order.
\<close>

definition partition_ok :: "(string \<times> i64) list \<Rightarrow> bool" where
  "partition_ok log \<longleftrightarrow> sorted_wrt (\<lambda>a b. sint (snd a) < sint (snd b)) log \<and>
     (\<forall>(p, off) \<in> set log. 0 \<le> sint off \<and> sint off < int64_max)"

definition deliver :: "(string \<times> i64) list \<Rightarrow> i64 \<Rightarrow> (string \<times> i64) list" where
  "deliver log start = filter (\<lambda>(p, off). sint start \<le> sint off) log"

definition serves :: "kafka_env \<Rightarrow> (string \<times> i64) list \<Rightarrow> bool" where
  "serves K log = (\<forall>topic part start.
     \<exists>n. messages (ke_polls K topic part start) = take n (deliver log start))"

lemma sint_plus_1: "sint (w :: i64) < int64_max \<Longrightarrow> sint (w + 1) = sint w + 1"
proof -
  assume a: "sint w < int64_max"
  have "w + 1 = word_of_int (sint w + 1)" by simp
  then have "sint (w + 1) = sint (word_of_int (sint w + 1) :: i64)" by (simp only:)
  also have "\<dots> = sint w + 1"
    by (rule sint_of_int_i64) (use a sint_i64_bounds [of w] in auto)
  finally show ?thesis .
qed

lemma deliver_all: "partition_ok log \<Longrightarrow> sint start < 0 \<Longrightarrow> deliver log start = log"
  unfolding deliver_def partition_ok_def by (rule filter_True) auto

lemma deliver_after:
  assumes "partition_ok log" "n < length log"
  shows "deliver log (snd (log ! n) + 1) = drop (Suc n) log"
proof -
  let ?lo = "sint (snd (log ! n))"
  have srt: "sorted_wrt (\<lambda>a b. sint (snd a) < sint (snd b)) log" using assms(1) by (simp add: partition_ok_def)
  have "log ! n \<in> set log" using assms(2) by simp
  then have "?lo < int64_max" using assms(1) by (auto simp: partition_ok_def)
  then have plus: "sint (snd (log ! n) + 1) = ?lo + 1" by (rule sint_plus_1)
  have split: "log = take (Suc n) log @ drop (Suc n) log" by simp
  have lo: "\<forall>m \<in> set (take (Suc n) log). sint (snd m) \<le> ?lo"
  proof
    fix m assume "m \<in> set (take (Suc n) log)"
    then obtain i where "i \<le> n" "m = log ! i" using assms(2) by (auto simp: in_set_conv_nth less_Suc_eq_le)
    then show "sint (snd m) \<le> ?lo"
      using srt assms(2) by (cases "i = n") (auto simp: sorted_wrt_iff_nth_less less_imp_le)
  qed
  have hi: "\<forall>m \<in> set (drop (Suc n) log). ?lo < sint (snd m)"
  proof
    fix m assume "m \<in> set (drop (Suc n) log)"
    then obtain i where "i < length (drop (Suc n) log)" "drop (Suc n) log ! i = m"
      unfolding in_set_conv_nth by blast
    then have "Suc n + i < length log" "m = log ! (Suc n + i)" using assms(2) by auto
    then show "?lo < sint (snd m)" using sorted_wrt_nth_less [OF srt, of n "Suc n + i"] by simp
  qed
  have "deliver log (snd (log ! n) + 1)
      = deliver (take (Suc n) log) (snd (log ! n) + 1) @ deliver (drop (Suc n) log) (snd (log ! n) + 1)"
    unfolding deliver_def filter_append [symmetric] by simp
  also have "deliver (take (Suc n) log) (snd (log ! n) + 1) = []"
    using lo by (force simp: deliver_def plus filter_empty_conv)
  also have "deliver (drop (Suc n) log) (snd (log ! n) + 1) = drop (Suc n) log"
    unfolding deliver_def plus by (rule filter_True) (use hi in force)
  finally show ?thesis by simp
qed

lemma deliver_drop:
  assumes "partition_ok log"
  obtains s where "s \<le> length log" "deliver log start = drop s log"
proof -
  have "deliver log start = dropWhile (\<lambda>(p, off). \<not> sint start \<le> sint off) log"
    using assms
  proof (induction log)
    case (Cons m log)
    obtain p off where m: "m = (p, off)" by (cases m)
    have tl: "partition_ok log" using Cons.prems by (simp add: partition_ok_def)
    show ?case
    proof (cases "sint start \<le> sint off")
      case True
      then have "\<forall>(q, off') \<in> set log. sint start \<le> sint off'"
        using Cons.prems m by (auto simp: partition_ok_def)
      then have "deliver log start = log" unfolding deliver_def by (auto intro: filter_True)
      with True m show ?thesis by (simp add: deliver_def)
    next
      case False
      with Cons.IH [OF tl] m show ?thesis by (simp add: deliver_def)
    qed
  qed (simp add: deliver_def)
  also have "\<dots> = drop (length (takeWhile (\<lambda>(p, off). \<not> sint start \<le> sint off) log)) log"
    by (rule dropWhile_eq_drop)
  finally show ?thesis using that length_takeWhile_le by metis
qed

text \<open>The offset file between two runs: the first \<open>n\<close> messages are done, the rest is to come.\<close>

definition resumes_at :: "(string \<times> i64) list \<Rightarrow> nat \<Rightarrow> 'k consumer \<Rightarrow> bool" where
  "resumes_at log n st \<longleftrightarrow> n \<le> length log \<and> cn_offset_writable st \<and>
     deliver log (LoadOffset (cn_offset_file st)) = drop n log"

lemma ConsumeLoop_resumes:
  assumes "partition_ok log" "serves K log" "resumes_at log n st"
  shows "served K cfg st = take (length (served K cfg st)) (drop n log) \<and>
    resumes_at log (n + length (served K cfg st)) (ConsumeLoop K J apply cfg st)"
proof (cases "served K cfg st = []")
  case True
  with assms(3) show ?thesis by (simp add: ConsumeLoop_served resumes_at_def)
next
  case False
  note ra = assms(3) [unfolded resumes_at_def]
  let ?ms = "served K cfg st"
  obtain k where "?ms = take k (drop n log)"
    using assms(2) ra False by (auto simp: serves_def served_def Let_def split: if_splits) metis
  then have ms: "?ms = take (length ?ms) (drop n log)"
    by (metis append_eq_conv_conj append_take_drop_id)
  have len: "0 < length ?ms" "n + length ?ms \<le> length log"
    using False ra arg_cong [OF ms, of length] by auto
  define m where "m = n + length ?ms - 1"
  have m: "m < length log" "Suc m = n + length ?ms" using len unfolding m_def by linarith+
  have nm: "n + (length ?ms - 1) = m" using len unfolding m_def by linarith
  have "last ?ms = ?ms ! (length ?ms - 1)" using False by (rule last_conv_nth)
  also have "\<dots> = take (length ?ms) (drop n log) ! (length ?ms - 1)" by (rule arg_cong [OF ms])
  also have "\<dots> = log ! m" using len nm by simp
  finally have lst: "last ?ms = log ! m" .
  have "log ! m \<in> set log" using m(1) by simp
  then have "0 \<le> sint (snd (log ! m))" using assms(1) by (auto simp: partition_ok_def)
  then have "resumes_at log (Suc m) (ConsumeLoop K J apply cfg st)"
    using False lst ra m(1) deliver_after [OF assms(1) m(1)]
    by (simp add: resumes_at_def ConsumeLoop_served SaveOffset_def LoadOffset_saved)
  with ms m(2) show ?thesis by simp
qed

lemma consumer_runs_resume:
  assumes "partition_ok log" "list_all (\<lambda>K. serves K log) Ks" "resumes_at log n st"
  shows "received Ks J apply cfg st = take (length (received Ks J apply cfg st)) (drop n log) \<and>
    resumes_at log (n + length (received Ks J apply cfg st)) (consumer_runs Ks J apply cfg st)"
  using assms(2,3)
proof (induction Ks arbitrary: n st)
  case Nil
  then show ?case by (simp add: consumer_runs_def)
next
  case (Cons K Ks)
  let ?st = "ConsumeLoop K J apply cfg st" and ?k = "length (served K cfg st)"
  have one: "served K cfg st = take ?k (drop n log)" "resumes_at log (n + ?k) ?st"
    using ConsumeLoop_resumes [OF assms(1) _ Cons.prems(2), of K cfg J "apply"] Cons.prems(1) by simp_all
  have rest: "received Ks J apply cfg ?st = take (length (received Ks J apply cfg ?st)) (drop (n + ?k) log)"
    "resumes_at log (n + ?k + length (received Ks J apply cfg ?st)) (consumer_runs Ks J apply cfg ?st)"
    using Cons.IH [OF _ one(2)] Cons.prems(1) by simp_all
  have "take (?k + length (received Ks J apply cfg ?st)) (drop n log)
      = take ?k (drop n log) @ take (length (received Ks J apply cfg ?st)) (drop (n + ?k) log)"
    by (simp add: take_add add.commute)
  also have "\<dots> = received (K # Ks) J apply cfg st"
    unfolding one(1) [symmetric] rest(1) [symmetric] by simp
  finally show ?case using rest(2) by (simp add: consumer_runs_def add.assoc)
qed

text \<open>
  C14: Restarts lose and repeat nothing. Whatever number of runs of the consumer follow each
  other, each stopped after any number of messages or failing to start, the messages they
  received together are a prefix of the partition, each once and in order; the index is the one
  that results from applying what was read of exactly these messages, once and in order; and the
  next run is served the rest. What is read of a message is what its memory holds after the
  message was freed, as the code frees it before it parses; where that is still the payload, the
  index is the one of the messages themselves. (A run ends between messages, where the stop flag
  is read; the offset file starts absent and is writable.)
\<close>

theorem exactly_once:
  assumes "partition_ok log" and "list_all (\<lambda>K. serves K log) Ks"
    and "cn_offset_file st = None" and "cn_offset_writable st"
  shows "received Ks J apply cfg st = take (length (received Ks J apply cfg st)) log \<and>
    cn_index (consumer_runs Ks J apply cfg st) = apply_log J apply (as_read Ks J apply cfg st) (cn_index st) \<and>
    map snd (as_read Ks J apply cfg st) = map snd (received Ks J apply cfg st) \<and>
    ((\<forall>K \<in> set Ks. \<forall>p off. ke_freed K p off = p) \<longrightarrow>
       cn_index (consumer_runs Ks J apply cfg st) = apply_log J apply (received Ks J apply cfg st) (cn_index st)) \<and>
    deliver log (LoadOffset (cn_offset_file (consumer_runs Ks J apply cfg st)))
      = drop (length (received Ks J apply cfg st)) log"
proof -
  have "deliver log (LoadOffset None) = log"
    by (rule deliver_all [OF assms(1)]) (simp add: LoadOffset_def RD_KAFKA_OFFSET_BEGINNING_def)
  then have "resumes_at log 0 st" using assms(3,4) by (simp add: resumes_at_def)
  from consumer_runs_resume [OF assms(1,2) this, of J "apply" cfg]
  have "received Ks J apply cfg st = take (length (received Ks J apply cfg st)) log"
    "deliver log (LoadOffset (cn_offset_file (consumer_runs Ks J apply cfg st)))
      = drop (length (received Ks J apply cfg st)) log"
    by (simp_all add: resumes_at_def)
  then show ?thesis by (simp add: consumer_runs_index as_read_offsets as_read_intact)
qed

definition ex_log :: "(string \<times> i64) list" where
  "ex_log = [(''a'', 0), (''b'', 1), (''c'', 5)]"

definition ex_kafka :: "nat \<Rightarrow> kafka_env" where
  "ex_kafka n = \<lparr>ke_conf_set = (\<lambda>b. True), ke_new = True, ke_topic_new = (\<lambda>t. True),
     ke_consume_start = (\<lambda>t p o'. True),
     ke_polls = (\<lambda>t p start. P_timeout # map (\<lambda>(s, off). P_message s off) (take n (deliver ex_log start)) @ [P_eof]),
     ke_freed = (\<lambda>p off. p)\<rparr>"

lemma messages_append: "messages (ps @ qs) = messages ps @ messages qs"
  by (induction ps rule: messages.induct) simp_all

lemma messages_map: "messages (map (\<lambda>(s, off). P_message s off) ms) = ms"
  by (induction ms) auto

lemma ex_serves: "serves (ex_kafka n) ex_log"
  by (auto simp: serves_def ex_kafka_def messages_append messages_map)

definition ex_parse :: "string \<Rightarrow> json option" where
  "ex_parse s = (if s = ''a'' then Some ex_upsert else if s = ''b'' then Some (JArray [ex_append, JNull])
     else if s = ''c'' then Some ex_bad else None)"

definition ex_apply :: "ref_index \<Rightarrow> json \<Rightarrow> apply_status \<times> ref_index" where
  "ex_apply = ApplyStreamJsonObject (ref_engine ex_schema) ref_json ex_schema"

definition ex_consumer :: "ref_index consumer" where
  "ex_consumer = \<lparr>cn_index = ex_index, cn_offset_file = None, cn_offset_writable = True\<rparr>"

definition ex_kcfg :: kafka_config where
  "ex_kcfg = \<lparr>kc_brokers = ''b'', kc_topic = ''t'', kc_partition = 0, kc_offset_file = ''f''\<rparr>"

definition ex_dirty_kafka :: "nat \<Rightarrow> kafka_env" where
  "ex_dirty_kafka n = (ex_kafka n)\<lparr>ke_freed := (\<lambda>p off. if p = ''b'' then ''?'' else p)\<rparr>"

lemma ex_dirty_serves: "serves (ex_dirty_kafka n) ex_log"
  using ex_serves [of n] by (simp add: serves_def ex_dirty_kafka_def)

text \<open>A run that gets two messages, of which it reads the second back damaged, and another.\<close>

definition ex_runs :: "kafka_env list" where "ex_runs = [ex_dirty_kafka 2, ex_kafka 7]"

definition ex_stream_json :: json_ops where "ex_stream_json = ref_json\<lparr>j_parse := ex_parse\<rparr>"

lemma ex_received: "received ex_runs ex_stream_json ex_apply ex_kcfg ex_consumer = ex_log"
  by code_simp

lemma ex_as_read: "as_read ex_runs ex_stream_json ex_apply ex_kcfg ex_consumer = [(''a'', 0), (''?'', 1), (''c'', 5)]"
  by code_simp

theorem exactly_once_witness:
  "cn_index (consumer_runs ex_runs ex_stream_json ex_apply ex_kcfg ex_consumer)
     = apply_log ex_stream_json ex_apply [(''a'', 0), (''?'', 1), (''c'', 5)] (cn_index ex_consumer) \<and>
   deliver ex_log (LoadOffset (cn_offset_file (consumer_runs ex_runs ex_stream_json ex_apply ex_kcfg ex_consumer))) = []"
proof -
  have "partition_ok ex_log" by (simp add: partition_ok_def ex_log_def int64_max_def)
  moreover have "list_all (\<lambda>K. serves K ex_log) ex_runs"
    by (simp add: ex_runs_def ex_serves ex_dirty_serves)
  moreover have "cn_offset_file ex_consumer = None" "cn_offset_writable ex_consumer"
    by (simp_all add: ex_consumer_def)
  ultimately show ?thesis
    using exactly_once [of ex_log ex_runs ex_consumer ex_stream_json ex_apply ex_kcfg]
    by (simp add: ex_received ex_as_read)
qed

end
