(* ===== verification/KafkaCatchup.thy ===== *)
theory KafkaCatchup
  imports KafkaSource
begin

text \<open>
  \<open>kafka/kafka_import_catchup.cc\<close>: the one-shot consumer that follows an offline import. It
  seeks by timestamp, applies messages until the partition has stayed silent after its end, and
  writes the offset file the server's consumer starts from. librdkafka is the parameter
  \<open>catchup_env\<close>; the loop reads the clock before every poll, so a run is given by the list of
  (clock, poll result) readings. A list that ends before the loop leaves it has no result.
\<close>

section \<open>Options and results\<close>

record catchup_options =
  co_brokers :: string
  co_topic :: string
  co_partition :: i32
  co_offline_watermark_sec :: i64
  co_rewind_minutes :: u32
  co_offsets_query_timeout_ms :: i32
  co_consume_timeout_ms :: i32
  co_max_silence_loops :: i32
  co_max_wall_seconds :: i32

definition KafkaImportCatchupOptions_init :: catchup_options where
  "KafkaImportCatchupOptions_init = \<lparr>co_brokers = [], co_topic = [], co_partition = 0,
     co_offline_watermark_sec = 0, co_rewind_minutes = 0, co_offsets_query_timeout_ms = 30000,
     co_consume_timeout_ms = 200, co_max_silence_loops = 3, co_max_wall_seconds = 7200\<rparr>"

text \<open>The answer of \<open>rd_kafka_offsets_for_times\<close>: a call error, a partition error, an offset.\<close>

datatype times_answer = Query_error | Partition_error | Offset i64

record catchup_env =
  ce_conf_set :: "string \<Rightarrow> bool"
  ce_new :: bool
  ce_offsets_for_times :: "string \<Rightarrow> i32 \<Rightarrow> i64 \<Rightarrow> i32 \<Rightarrow> times_answer"
  ce_topic_new :: "string \<Rightarrow> bool"
  ce_consume_start :: "string \<Rightarrow> i32 \<Rightarrow> i64 \<Rightarrow> bool"
  ce_now :: int
  ce_readings :: "string \<Rightarrow> i32 \<Rightarrow> i64 \<Rightarrow> i32 \<Rightarrow> (int \<times> poll) list"
  ce_freed :: "string \<Rightarrow> i64 \<Rightarrow> string"
  ce_offset_writable :: bool
  ce_meta_writable :: bool
  ce_wall_time :: i64

record 'k catchup =
  cu_index :: 'k
  cu_offset_file :: "string option"
  cu_meta_file :: "json option"

section \<open>The loop\<close>

text \<open>\<open>Broken\<close> is an exit through \<open>return false\<close> inside the loop.\<close>

datatype 'k loop_end = Finished 'k i64 | Broken 'k

definition max_idle_polls :: int where "max_idle_polls = 50000"

text \<open>The batch loop; \<open>live\<close> is whether it is still running, which an exception ends.\<close>

definition catchup_item ::
  "('k \<Rightarrow> json \<Rightarrow> apply_status \<times> 'k) \<Rightarrow> bool \<times> 'k \<Rightarrow> json \<Rightarrow> bool \<times> 'k" where
  "catchup_item apply = (\<lambda>(live, k) item.
     if \<not> live then (live, k)
     else if \<not> is_object item then (live, k)
     else let (status, k') = apply k item in (status \<noteq> Exception, k'))"

definition catchup_payload ::
  "json_ops \<Rightarrow> ('k \<Rightarrow> json \<Rightarrow> apply_status \<times> 'k) \<Rightarrow> 'k \<Rightarrow> string \<Rightarrow> 'k" where
  "catchup_payload J apply idx payload =
     (case j_parse J payload of
        None \<Rightarrow> idx
      | Some j \<Rightarrow>
          if is_array j then snd (foldl (catchup_item apply) (True, idx) (elements j))
          else if is_object j then snd (apply idx j)
          else idx)"

text \<open>As in the server's consumer, the message is freed before the view of it is parsed.\<close>

fun catchup_loop ::
  "json_ops \<Rightarrow> ('k \<Rightarrow> json \<Rightarrow> apply_status \<times> 'k) \<Rightarrow> (string \<Rightarrow> i64 \<Rightarrow> string) \<Rightarrow> int \<Rightarrow> int \<Rightarrow> (int \<times> poll) list \<Rightarrow>
   'k \<Rightarrow> i64 \<Rightarrow> int \<Rightarrow> bool \<Rightarrow> int \<Rightarrow> 'k loop_end option" where
  "catchup_loop J apply freed max_loops deadline [] idx last_offset silence saw_eof idle_polls = None"
| "catchup_loop J apply freed max_loops deadline ((now, msg) # rest) idx last_offset silence saw_eof idle_polls =
     (if \<not> now < deadline then Some (Finished idx last_offset)
      else case msg of
        P_timeout \<Rightarrow>
          if saw_eof then
            (if silence + 1 \<ge> max_loops then Some (Finished idx last_offset)
             else catchup_loop J apply freed max_loops deadline rest idx last_offset (silence + 1) saw_eof idle_polls)
          else if idle_polls + 1 > max_idle_polls then Some (Broken idx)
          else catchup_loop J apply freed max_loops deadline rest idx last_offset silence saw_eof (idle_polls + 1)
      | P_eof \<Rightarrow> catchup_loop J apply freed max_loops deadline rest idx last_offset silence True 0
      | P_error \<Rightarrow> Some (Broken idx)
      | P_message payload offset \<Rightarrow>
          catchup_loop J apply freed max_loops deadline rest (catchup_payload J apply idx (freed payload offset)) offset 0 saw_eof 0)"

section \<open>The files\<close>

definition SaveOffsetFile :: "bool \<Rightarrow> i64 \<Rightarrow> 'k catchup \<Rightarrow> 'k catchup option" where
  "SaveOffsetFile writable offset st =
     (if \<not> writable then None
      else Some (st\<lparr>cu_offset_file := Some (to_string_i64 offset @ ''\<newline>'')\<rparr>))"

text \<open>The members are listed in the order of their names, as the library keeps them.\<close>

definition WriteMetaFile ::
  "bool \<Rightarrow> i64 \<Rightarrow> catchup_options \<Rightarrow> i64 \<Rightarrow> 'k catchup \<Rightarrow> 'k catchup option" where
  "WriteMetaFile writable now opt last_offset st =
     (let j = JObject
        [(''brokers'', JString (co_brokers opt)),
         (''catchup_completed_unix'', JInt now),
         (''last_committed_offset'', JInt last_offset),
         (''offline_watermark_sec'', JInt (co_offline_watermark_sec opt)),
         (''partition'', JInt (scast (co_partition opt))),
         (''rewind_minutes'', JUint (ucast (co_rewind_minutes opt))),
         (''topic'', JString (co_topic opt))]
      in if \<not> writable then None else Some (st\<lparr>cu_meta_file := Some j\<rparr>))"

section \<open>\<open>RunKafkaImportCatchup\<close>\<close>

text \<open>
  The timestamp to seek to, in milliseconds. The source computes it in \<open>int64_t\<close>, here with
  wrap-around (an overflow is undefined behaviour in C++).
\<close>

definition catchup_ts_ms :: "catchup_options \<Rightarrow> i64" where
  "catchup_ts_ms opt =
     (let ts_ms = (co_offline_watermark_sec opt - ucast (co_rewind_minutes opt) * 60) * 1000
      in if sint ts_ms < 0 then 0 else ts_ms)"

definition catchup_start_offset :: "i64 \<Rightarrow> i64" where
  "catchup_start_offset off = (if sint off < 0 then RD_KAFKA_OFFSET_BEGINNING else off)"

definition catchup_commit ::
  "catchup_env \<Rightarrow> catchup_options \<Rightarrow> i64 \<Rightarrow> 'k catchup \<Rightarrow> bool \<times> 'k catchup" where
  "catchup_commit C opt last_offset st =
     (case SaveOffsetFile (ce_offset_writable C) last_offset st of
        None \<Rightarrow> (False, st)
      | Some st' \<Rightarrow>
          (case WriteMetaFile (ce_meta_writable C) (ce_wall_time C) opt last_offset st' of
             None \<Rightarrow> (False, st')
           | Some st'' \<Rightarrow> (True, st'')))"

definition catchup_timeout :: "catchup_options \<Rightarrow> i32" where
  "catchup_timeout opt =
     (if 0 < sint (co_consume_timeout_ms opt) then co_consume_timeout_ms opt else 200)"

definition catchup_deadline :: "catchup_env \<Rightarrow> catchup_options \<Rightarrow> int" where
  "catchup_deadline C opt = ce_now C + 1000000000 *
     (if 0 < sint (co_max_wall_seconds opt) then sint (co_max_wall_seconds opt) else 7200)"

definition catchup_consume ::
  "catchup_env \<Rightarrow> json_ops \<Rightarrow> ('k \<Rightarrow> json \<Rightarrow> apply_status \<times> 'k) \<Rightarrow> catchup_options \<Rightarrow> i64 \<Rightarrow> 'k \<Rightarrow>
   (int \<times> poll) list \<Rightarrow> 'k loop_end option" where
  "catchup_consume C J apply opt start_offset idx readings =
     (let last_offset = start_offset - 1;
          max_loops = (if 0 < sint (co_max_silence_loops opt) then sint (co_max_silence_loops opt) else 3)
      in catchup_loop J apply (ce_freed C) max_loops (catchup_deadline C opt) readings idx last_offset 0 False 0)"

text \<open>\<open>None\<close>: the readings end while the loop still runs.\<close>

definition RunKafkaImportCatchup ::
  "catchup_env \<Rightarrow> json_ops \<Rightarrow> ('k \<Rightarrow> json \<Rightarrow> apply_status \<times> 'k) \<Rightarrow> catchup_options \<Rightarrow> 'k catchup \<Rightarrow>
   (bool \<times> 'k catchup) option" where
  "RunKafkaImportCatchup C J apply opt st =
     (if co_brokers opt = [] then Some (False, st)
      else if co_topic opt = [] then Some (False, st)
      else if \<not> ce_conf_set C (co_brokers opt) then Some (False, st)
      else if \<not> ce_new C then Some (False, st)
      else case ce_offsets_for_times C (co_topic opt) (co_partition opt) (catchup_ts_ms opt)
                  (co_offsets_query_timeout_ms opt) of
        Query_error \<Rightarrow> Some (False, st)
      | Partition_error \<Rightarrow> Some (False, st)
      | Offset off \<Rightarrow>
          let start_offset = catchup_start_offset off in
          if \<not> ce_topic_new C (co_topic opt) then Some (False, st)
          else if \<not> ce_consume_start C (co_topic opt) (co_partition opt) start_offset then Some (False, st)
          else
            (case catchup_consume C J apply opt start_offset (cu_index st)
                    (ce_readings C (co_topic opt) (co_partition opt) start_offset (catchup_timeout opt)) of
                 None \<Rightarrow> None
               | Some (Broken idx) \<Rightarrow> Some (False, st\<lparr>cu_index := idx\<rparr>)
               | Some (Finished idx last_offset) \<Rightarrow>
                   Some (catchup_commit C opt last_offset (st\<lparr>cu_index := idx\<rparr>))))"

section \<open>The two copies of the message handling agree\<close>

lemma foldl_dead: "foldl (catchup_item apply) (False, idx) items = (False, idx)"
  by (induction items) (simp_all add: catchup_item_def)

lemma catchup_batch: "snd (foldl (catchup_item apply) (True, idx) items) = apply_batch apply idx items"
proof (induction items arbitrary: idx)
  case (Cons item items)
  obtain status idx' where "apply idx item = (status, idx')" by (cases "apply idx item")
  with Cons show ?case
    using foldl_dead [of "apply" idx' items] by (cases status) (simp_all add: catchup_item_def)
qed simp

lemma catchup_payload_eq: "catchup_payload J apply = apply_payload J apply"
  by (rule ext)+ (simp add: catchup_payload_def apply_payload_def catchup_batch split: option.split)

text \<open>
  The catch-up applies a message by the same rules as the server's consumer: for every
  payload (unparsable, object, batch with skipped, refused or throwing items, anything else)
  both leave the same index.
\<close>

theorem catchup_same_rules:
  "catchup_payload J (ApplyStreamJsonObject E J S) idx payload
   = apply_payload J (ApplyStreamJsonObject E J S) idx payload"
  by (simp add: catchup_payload_eq)

section \<open>The loop\<close>

text \<open>
  How many readings the loop goes past before the one at which it leaves: those on which a run
  that got no others would still be waiting.
\<close>

definition loop_readings :: "('r list \<Rightarrow> 'a option) \<Rightarrow> 'r list \<Rightarrow> nat" where
  "loop_readings loop rs = length (takeWhile (\<lambda>i. loop (take (Suc i) rs) = None) [0..<length rs])"

lemma loop_readings_leave: "loop [r] \<noteq> None \<Longrightarrow> loop_readings loop (r # rs) = 0"
  by (simp add: loop_readings_def upt_conv_Cons del: upt_Suc)

lemma loop_readings_stay:
  "loop [r] = None \<Longrightarrow> loop_readings loop (r # rs) = Suc (loop_readings (\<lambda>xs. loop (r # xs)) rs)"
proof -
  assume none: "loop [r] = None"
  have "[0..<length (r # rs)] = 0 # map Suc [0..<length rs]"
    by (simp add: upt_conv_Cons map_Suc_upt del: upt_Suc)
  with none show ?thesis by (simp add: loop_readings_def takeWhile_map comp_def del: upt_Suc)
qed

text \<open>What is applied is what was read of the messages before the last reading, all of them, and
  the last offset is that of the last one.\<close>

definition consumed ::
  "json_ops \<Rightarrow> ('k \<Rightarrow> json \<Rightarrow> apply_status \<times> 'k) \<Rightarrow> (string \<Rightarrow> i64 \<Rightarrow> string) \<Rightarrow> (string \<times> i64) list \<Rightarrow>
   'k \<Rightarrow> i64 \<Rightarrow> 'k \<Rightarrow> i64 \<Rightarrow> bool" where
  "consumed J apply freed ms idx off0 idx' last' \<longleftrightarrow>
     idx' = apply_log J apply (log_read freed ms) idx \<and> last' = (if ms = [] then off0 else snd (last ms))"

lemma consumed_none: "consumed J apply freed [] idx off0 idx off0"
  by (simp add: consumed_def apply_log_def log_read_def)

lemma consumed_message:
  "consumed J apply freed ms (apply_payload J apply idx (freed p off)) off idx' last' \<Longrightarrow>
   consumed J apply freed ((p, off) # ms) idx off0 idx' last'"
  by (simp add: consumed_def apply_log_def log_read_def)

lemma catchup_loop_finished:
  assumes "catchup_loop J apply freed max_loops deadline rs idx last_offset silence saw_eof idle = Some (Finished idx' last')"
  shows "consumed J apply freed (messages (map snd (take
      (loop_readings (\<lambda>rs. catchup_loop J apply freed max_loops deadline rs idx last_offset silence saw_eof idle) rs) rs)))
    idx last_offset idx' last'"
  using assms
proof (induction J "apply" freed max_loops deadline rs idx last_offset silence saw_eof idle rule: catchup_loop.induct)
  case (1 J ap freed max_loops deadline idx last_offset silence saw_eof idle)
  then show ?case by simp
next
  case (2 J ap freed max_loops deadline now msg rest idx last_offset silence saw_eof idle)
  let ?loop = "\<lambda>rs. catchup_loop J ap freed max_loops deadline rs idx last_offset silence saw_eof idle"
  show ?case
  proof (cases "?loop [(now, msg)] = None")
    case False
    then have "idx' = idx \<and> last' = last_offset"
      using "2.prems" by (cases msg) (auto split: if_splits)
    with loop_readings_leave [of ?loop, OF False] show ?thesis by (simp add: consumed_none)
  next
    case True
    note stay = loop_readings_stay [of ?loop, OF True]
    from True have now: "now < deadline" by (auto split: if_splits)
    show ?thesis
    proof (cases msg)
      case P_timeout
      with True "2.prems" "2.IH"(1,2) now stay show ?thesis by (cases saw_eof) (auto split: if_splits)
    next
      case P_eof
      with True "2.prems" "2.IH"(3) now stay show ?thesis by simp
    next
      case P_error
      with True now show ?thesis by simp
    next
      case (P_message payload offset)
      with True "2.prems" "2.IH"(4) now stay show ?thesis by (simp add: consumed_message catchup_payload_eq)
    qed
  qed
qed

lemma catchup_loop_returns:
  assumes "\<exists>now msg. (now, msg) \<in> set rs \<and> deadline \<le> now"
  shows "catchup_loop J apply freed max_loops deadline rs idx last_offset silence saw_eof idle \<noteq> None"
  using assms
proof (induction J "apply" freed max_loops deadline rs idx last_offset silence saw_eof idle rule: catchup_loop.induct)
  case (2 J ap freed max_loops deadline now msg rest idx last_offset silence saw_eof idle)
  then show ?case by (cases msg) auto
qed simp

text \<open>
  C23: The catch-up always ends: as soon as the clock has a reading at or past the deadline, the
  loop has a result, whatever the polls before gave.
\<close>

theorem catchup_terminates:
  assumes "\<exists>now msg. (now, msg) \<in> set rs \<and> deadline \<le> now"
  shows "catchup_loop J apply freed max_loops deadline rs idx last_offset silence saw_eof idle \<noteq> None"
  by (rule catchup_loop_returns [OF assms])

theorem catchup_terminates_witness:
  "catchup_loop ref_json ex_apply (\<lambda>p off. p) 3 10 [(0, P_timeout), (11, P_timeout)] ex_index 0 0 False 0 \<noteq> None"
  by (rule catchup_terminates) auto

text \<open>The idle guard: as many empty polls without an end of partition give up.\<close>

lemma catchup_idle:
  assumes "0 \<le> idle" "idle \<le> max_idle_polls" "int n = max_idle_polls - idle"
    and "list_all (\<lambda>(now, msg). now < deadline \<and> msg = P_timeout) rs" "n < length rs"
  shows "catchup_loop J apply freed max_loops deadline rs idx last_offset silence False idle = Some (Broken idx)"
  using assms
proof (induction n arbitrary: idle rs)
  case 0
  then show ?case by (cases rs) auto
next
  case (Suc n)
  then obtain r rs' where rs: "rs = r # rs'" by (cases rs) auto
  with Suc.prems have "catchup_loop J apply freed max_loops deadline rs' idx last_offset silence False (idle + 1) = Some (Broken idx)"
    by (intro Suc.IH) auto
  with Suc.prems rs show ?case by auto
qed

section \<open>Handing over to the server's consumer\<close>

lemma deliver_deliver:
  "sint start \<le> sint start' \<Longrightarrow> deliver (deliver log start) start' = deliver log start'"
  unfolding deliver_def filter_filter by (rule filter_cong) auto

lemma partition_ok_deliver: "partition_ok log \<Longrightarrow> partition_ok (deliver log start)"
  by (auto simp: partition_ok_def deliver_def sorted_wrt_filter)

lemma deliver_cong_neg: "partition_ok log \<Longrightarrow> sint a \<le> 0 \<Longrightarrow> deliver log a = log"
  unfolding deliver_def partition_ok_def by (rule filter_True) auto

lemma sint_minus_1: "0 < sint (w :: i64) \<Longrightarrow> sint (w - 1) = sint w - 1"
proof -
  assume a: "0 < sint w"
  have "w - 1 = word_of_int (sint w - 1)" by simp
  then have "sint (w - 1) = sint (word_of_int (sint w - 1) :: i64)" by (simp only:)
  also have "\<dots> = sint w - 1"
    by (rule sint_of_int_i64) (use a sint_i64_bounds [of w] in \<open>auto simp: int64_min_def\<close>)
  finally show ?thesis .
qed

lemma resume_from_start:
  assumes "partition_ok log"
  shows "deliver log (LoadOffset (Some (to_string_i64 (catchup_start_offset off - 1) @ ''\<newline>'')))
       = deliver log (catchup_start_offset off)"
proof (cases "0 < sint off")
  case True
  then show ?thesis by (simp add: LoadOffset_saved catchup_start_offset_def sint_minus_1)
next
  case False
  then have "sint off < 0 \<or> off = 0" using sint_eq_iff [of off 0] by auto
  then have start: "catchup_start_offset off = - 2 \<or> catchup_start_offset off = 0"
    by (auto simp: catchup_start_offset_def RD_KAFKA_OFFSET_BEGINNING_def)
  then have "sint (catchup_start_offset off) \<le> 0" by auto
  moreover have "sint (catchup_start_offset off - 1) < 0" using start by auto
  ultimately show ?thesis
    by (simp add: LoadOffset_saved deliver_cong_neg [OF assms] RD_KAFKA_OFFSET_BEGINNING_def)
qed

lemma resume_after_prefix:
  assumes "partition_ok log"
    and "0 < n" "n \<le> length (deliver log start)"
  shows "deliver log (LoadOffset (Some (to_string_i64 (snd (last (take n (deliver log start)))) @ ''\<newline>'')))
       = drop n (deliver log start)"
proof -
  let ?d = "deliver log start" and ?m = "last (take n (deliver log start))"
  have ne: "take n ?d \<noteq> []" using assms(2,3) by auto
  have m: "?m = ?d ! (n - 1)" unfolding last_conv_nth [OF ne] using assms(2,3) by (simp add: min_def)
  then have mem: "?m \<in> set ?d" using assms(2,3) by simp
  then have "sint start \<le> sint (snd ?m)" "?m \<in> set log" by (auto simp: deliver_def)
  with assms(1) have b: "0 \<le> sint (snd ?m)" "sint (snd ?m) < int64_max" "sint start \<le> sint (snd ?m + 1)"
    by (auto simp: partition_ok_def sint_plus_1)
  have "deliver log (snd ?m + 1) = deliver ?d (snd ?m + 1)" using b by (simp add: deliver_deliver)
  also have "\<dots> = drop n ?d"
    using deliver_after [OF partition_ok_deliver [OF assms(1)], of "n - 1" start] m assms(2,3) by simp
  finally show ?thesis using b by (simp add: LoadOffset_saved)
qed

definition catchup_serves :: "catchup_env \<Rightarrow> (string \<times> i64) list \<Rightarrow> bool" where
  "catchup_serves C log = (\<forall>topic part start tmo.
     \<exists>n. messages (map snd (ce_readings C topic part start tmo)) = take n (deliver log start))"

text \<open>The offset the catch-up seeks to, when the query answers.\<close>

definition catchup_seek :: "catchup_env \<Rightarrow> catchup_options \<Rightarrow> i64 option" where
  "catchup_seek C opt =
     (case ce_offsets_for_times C (co_topic opt) (co_partition opt) (catchup_ts_ms opt)
             (co_offsets_query_timeout_ms opt) of
        Offset off \<Rightarrow> Some (catchup_start_offset off) | _ \<Rightarrow> None)"

text \<open>What the catch-up receives: the messages before the reading at which its loop leaves.\<close>

definition catchup_received ::
  "catchup_env \<Rightarrow> json_ops \<Rightarrow> ('k \<Rightarrow> json \<Rightarrow> apply_status \<times> 'k) \<Rightarrow> catchup_options \<Rightarrow> 'k \<Rightarrow> (string \<times> i64) list" where
  "catchup_received C J apply opt idx =
     (case catchup_seek C opt of
        None \<Rightarrow> []
      | Some start \<Rightarrow>
          let rs = ce_readings C (co_topic opt) (co_partition opt) start (catchup_timeout opt)
          in messages (map snd (take (loop_readings (catchup_consume C J apply opt start idx) rs) rs)))"

text \<open>The consumer of the server, as it finds the table after the catch-up.\<close>

definition handover :: "'k catchup \<Rightarrow> 'k consumer" where
  "handover st = \<lparr>cn_index = cu_index st,
     cn_offset_file = cu_offset_file st, cn_offset_writable = True\<rparr>"

lemma messages_take: "\<exists>m. messages (map snd (take n rs)) = take m (messages (map snd rs))"
proof -
  have "messages (map snd rs) = messages (map snd (take n rs)) @ messages (map snd (drop n rs))"
    by (simp flip: messages_append map_append)
  then have "messages (map snd (take n rs))
      = take (length (messages (map snd (take n rs)))) (messages (map snd rs))" by simp
  then show ?thesis by blast
qed

lemma take_length_self: "xs = take k ys \<Longrightarrow> xs = take (length xs) ys \<and> length xs \<le> length ys"
  by (auto simp: min_def)

lemma catchup_runs_out:
  assumes "RunKafkaImportCatchup C J apply opt st = None"
  shows "\<exists>start. catchup_seek C opt = Some start \<and>
    (\<forall>x \<in> set (ce_readings C (co_topic opt) (co_partition opt) start (catchup_timeout opt)).
       fst x < catchup_deadline C opt)"
proof -
  from assms obtain off where times: "ce_offsets_for_times C (co_topic opt) (co_partition opt)
      (catchup_ts_ms opt) (co_offsets_query_timeout_ms opt) = Offset off"
    by (auto simp: RunKafkaImportCatchup_def split: if_splits times_answer.splits)
  let ?start = "catchup_start_offset off"
  let ?rs = "ce_readings C (co_topic opt) (co_partition opt) ?start (catchup_timeout opt)"
  from assms times have "catchup_consume C J apply opt ?start (cu_index st) ?rs = None"
    by (auto simp: RunKafkaImportCatchup_def Let_def split: if_splits option.splits loop_end.splits)
  then have none: "catchup_loop J apply (ce_freed C)
      (if 0 < sint (co_max_silence_loops opt) then sint (co_max_silence_loops opt) else 3)
      (catchup_deadline C opt) ?rs (cu_index st) (?start - 1) 0 False 0 = None"
    by (simp only: catchup_consume_def Let_def)
  have "fst x < catchup_deadline C opt" if x: "x \<in> set ?rs" for x
  proof (rule ccontr)
    assume "\<not> fst x < catchup_deadline C opt"
    with x have "\<exists>now msg. (now, msg) \<in> set ?rs \<and> catchup_deadline C opt \<le> now"
      by (intro exI [of _ "fst x"] exI [of _ "snd x"]) simp
    then show False by (rule notE [OF catchup_loop_returns none])
  qed
  with times show ?thesis by (simp add: catchup_seek_def)
qed

lemma catchup_done:
  assumes "partition_ok log" "catchup_serves C log"
    and run: "RunKafkaImportCatchup C J apply opt st = Some (True, st')"
  obtains start where "catchup_seek C opt = Some start"
    "catchup_received C J apply opt (cu_index st)
       = take (length (catchup_received C J apply opt (cu_index st))) (deliver log start)"
    "cu_index st' = apply_log J apply (log_read (ce_freed C) (catchup_received C J apply opt (cu_index st))) (cu_index st)"
    "deliver log (LoadOffset (cu_offset_file st'))
       = drop (length (catchup_received C J apply opt (cu_index st))) (deliver log start)"
proof -
  from run obtain off where times: "ce_offsets_for_times C (co_topic opt) (co_partition opt)
      (catchup_ts_ms opt) (co_offsets_query_timeout_ms opt) = Offset off"
    by (auto simp: RunKafkaImportCatchup_def split: if_splits times_answer.splits)
  let ?start = "catchup_start_offset off"
  let ?rs = "ce_readings C (co_topic opt) (co_partition opt) ?start (catchup_timeout opt)"
  let ?ms = "catchup_received C J apply opt (cu_index st)" and ?d = "deliver log ?start"
  from times have seek: "catchup_seek C opt = Some ?start" by (simp add: catchup_seek_def)
  from run times obtain idx' last' where
    loop: "catchup_consume C J apply opt ?start (cu_index st) ?rs = Some (Finished idx' last')"
    and commit: "catchup_commit C opt last' (st\<lparr>cu_index := idx'\<rparr>) = (True, st')"
    by (auto simp: RunKafkaImportCatchup_def Let_def split: if_splits option.splits loop_end.splits)
  have ms: "?ms = messages (map snd (take (loop_readings (catchup_consume C J apply opt ?start (cu_index st)) ?rs) ?rs))"
    by (simp add: catchup_received_def seek Let_def)
  from catchup_loop_finished [OF loop [unfolded catchup_consume_def Let_def]]
  have fin: "idx' = apply_log J apply (log_read (ce_freed C) ?ms) (cu_index st)"
    "last' = (if ?ms = [] then ?start - 1 else snd (last ?ms))"
    unfolding consumed_def ms catchup_consume_def [abs_def] Let_def by simp_all
  obtain k where "messages (map snd ?rs) = take k ?d"
    using assms(2) unfolding catchup_serves_def by blast
  with messages_take [of _ ?rs] obtain k' where "?ms = take k' (take k ?d)" unfolding ms by metis
  then have pre: "?ms = take (length ?ms) ?d" "length ?ms \<le> length ?d"
    using take_length_self [of ?ms "min k' k" ?d] by (simp_all add: take_take)
  have st': "cu_index st' = idx'" "cu_offset_file st' = Some (to_string_i64 last' @ ''\<newline>'')"
    using commit by (auto simp: catchup_commit_def SaveOffsetFile_def WriteMetaFile_def Let_def
        split: if_splits option.splits)
  have "deliver log (LoadOffset (cu_offset_file st')) = drop (length ?ms) ?d"
  proof (cases "?ms = []")
    case True
    then show ?thesis unfolding st' fin(2) by (simp add: resume_from_start [OF assms(1)])
  next
    case False
    then show ?thesis
      using resume_after_prefix [OF assms(1), of "length ?ms" ?start] pre unfolding st' fin(2) by simp
  qed
  with that [OF seek pre(1)] fin(1) st'(1) show thesis by simp
qed

text \<open>
  C15: Import, then serve. When the catch-up reports success and the server's consumer then runs
  on the offset file it wrote, any number of times, what the two programs received is, together,
  a prefix of the partition from the offset sought on: no message is lost or repeated at the
  hand-over, even when the catch-up received none or stopped at its deadline. What was read of
  exactly these messages is applied once each, in order (the messages themselves, where the
  memory both programs parse after freeing it still holds them), and the next run is served the
  rest. (The offset sought is the one the broker answers for the timestamp, and the beginning of
  the partition when it answers that no message is as late.)
\<close>

theorem catchup_handover:
  assumes "partition_ok log" "catchup_serves C log" "list_all (\<lambda>K. serves K log) Ks"
    and "RunKafkaImportCatchup C J apply opt st = Some (True, st')"
  shows "\<exists>start. catchup_seek C opt = Some start \<and>
    (let first = catchup_received C J apply opt (cu_index st);
         later = received Ks J apply cfg (handover st');
         final = consumer_runs Ks J apply cfg (handover st')
     in first @ later = take (length first + length later) (deliver log start) \<and>
        deliver log (LoadOffset (cn_offset_file final)) = drop (length first + length later) (deliver log start) \<and>
        cn_index final = apply_log J apply
          (log_read (ce_freed C) first @ as_read Ks J apply cfg (handover st')) (cu_index st) \<and>
        ((\<forall>p off. ce_freed C p off = p) \<and> (\<forall>K \<in> set Ks. \<forall>p off. ke_freed K p off = p) \<longrightarrow>
           cn_index final = apply_log J apply (first @ later) (cu_index st)))"
proof -
  let ?first = "catchup_received C J apply opt (cu_index st)"
  let ?later = "received Ks J apply cfg (handover st')"
  let ?final = "consumer_runs Ks J apply cfg (handover st')"
  obtain start where start: "catchup_seek C opt = Some start"
    "?first = take (length ?first) (deliver log start)"
    "cu_index st' = apply_log J apply (log_read (ce_freed C) ?first) (cu_index st)"
    "deliver log (LoadOffset (cu_offset_file st')) = drop (length ?first) (deliver log start)"
    using catchup_done [OF assms(1,2,4)] .
  obtain s where s: "s \<le> length log" "deliver log start = drop s log"
    using deliver_drop [OF assms(1)] by blast
  have len: "length ?first \<le> length log - s"
    using arg_cong [OF start(2), of length] unfolding s(2) by simp
  then have "resumes_at log (s + length ?first) (handover st')"
    using start(4) s by (simp add: resumes_at_def handover_def add.commute)
  from consumer_runs_resume [OF assms(1,3) this, of J "apply" cfg]
  have later: "?later = take (length ?later) (drop (length ?first) (deliver log start))"
    and rest: "deliver log (LoadOffset (cn_offset_file ?final)) = drop (length ?first + length ?later) (deliver log start)"
    unfolding s(2) resumes_at_def by (simp_all add: add.commute add.left_commute)
  have both: "?first @ ?later = take (length ?first + length ?later) (deliver log start)"
    using start(2) later by (metis take_add)
  have idx: "cn_index ?final = apply_log J apply
      (log_read (ce_freed C) ?first @ as_read Ks J apply cfg (handover st')) (cu_index st)"
    by (simp add: consumer_runs_index apply_log_append) (simp add: handover_def start(3))
  with start(1) both rest show ?thesis by (auto simp: Let_def log_read_intact as_read_intact)
qed

definition ex_catchup_env :: catchup_env where
  "ex_catchup_env = \<lparr>ce_conf_set = (\<lambda>b. True), ce_new = True,
     ce_offsets_for_times = (\<lambda>t p ts tmo. Offset 1), ce_topic_new = (\<lambda>t. True),
     ce_consume_start = (\<lambda>t p o'. True), ce_now = 0,
     ce_readings = (\<lambda>t p start tmo.
        map (\<lambda>(s, off). (0, P_message s off)) (take 1 (deliver ex_log start)) @
        [(1, P_eof), (2, P_timeout), (3, P_timeout), (4, P_timeout)]),
     ce_freed = (\<lambda>p off. if p = ''b'' then ''?'' else p),
     ce_offset_writable = True, ce_meta_writable = True, ce_wall_time = 100\<rparr>"

definition ex_catchup_opt :: catchup_options where
  "ex_catchup_opt = KafkaImportCatchupOptions_init\<lparr>co_brokers := ''b'', co_topic := ''t''\<rparr>"

definition ex_catchup :: "ref_index catchup" where
  "ex_catchup = \<lparr>cu_index = ex_index, cu_offset_file = None, cu_meta_file = None\<rparr>"

lemma messages_map_pair: "messages (map snd (map (\<lambda>(s, off). (t, P_message s off)) ms)) = ms"
  by (induction ms) auto

lemma ex_catchup_serves: "catchup_serves ex_catchup_env ex_log"
  unfolding catchup_serves_def ex_catchup_env_def
  by (auto simp: messages_append messages_map_pair simp del: map_map) 

lemma ex_partition_ok: "partition_ok ex_log"
  by (simp add: partition_ok_def ex_log_def int64_max_def)

definition ex_json :: json_ops where "ex_json = ref_json\<lparr>j_parse := ex_parse\<rparr>"

definition ex_caught_up :: "ref_index catchup" where
  "ex_caught_up = snd (the (RunKafkaImportCatchup ex_catchup_env ex_json ex_apply ex_catchup_opt ex_catchup))"

lemma ex_catchup_runs:
  "RunKafkaImportCatchup ex_catchup_env ex_json ex_apply ex_catchup_opt ex_catchup = Some (True, ex_caught_up)"
proof -
  have "map_option fst (RunKafkaImportCatchup ex_catchup_env ex_json ex_apply ex_catchup_opt ex_catchup) = Some True"
    by code_simp
  then show ?thesis by (auto simp: ex_caught_up_def)
qed

lemma ex_catchup_received:
  "catchup_received ex_catchup_env ex_json ex_apply ex_catchup_opt (cu_index ex_catchup) = [(''b'', 1)]"
  by code_simp

definition ex_next_runs :: "kafka_env list" where "ex_next_runs = [ex_kafka 1]"

lemma ex_received_later:
  "received ex_next_runs ex_json ex_apply ex_kcfg (handover ex_caught_up) = [(''c'', 5)]"
  "as_read ex_next_runs ex_json ex_apply ex_kcfg (handover ex_caught_up) = [(''c'', 5)]"
  by code_simp+

theorem catchup_handover_witness:
  "cn_index (consumer_runs ex_next_runs ex_json ex_apply ex_kcfg (handover ex_caught_up))
     = apply_log ex_json ex_apply [(''?'', 1), (''c'', 5)] (cu_index ex_catchup) \<and>
   [(''b'', 1), (''c'', 5)] = take 2 (deliver ex_log 1)"
proof -
  have "list_all (\<lambda>K. serves K ex_log) ex_next_runs" by (simp add: ex_next_runs_def ex_serves)
  moreover have "catchup_seek ex_catchup_env ex_catchup_opt = Some 1" by code_simp
  moreover have "log_read (ce_freed ex_catchup_env) [(''b'', 1)] = [(''?'', 1)]" by code_simp
  ultimately show ?thesis
    using catchup_handover [OF ex_partition_ok ex_catchup_serves _ ex_catchup_runs, of ex_next_runs ex_kcfg]
    by (simp add: ex_catchup_received ex_received_later Let_def numeral_2_eq_2)
qed

end
