(* ===== verification/Config.thy ===== *)
theory Config
  imports Json
begin

text \<open>
  \<open>table_config.h\<close>, \<open>server_config.h\<close>: the JSON configuration files and their validation,
  with the operations of \<open>std::filesystem::path\<close> the loaders use (POSIX paths). What is on disk
  and the parse of a stream are the parameter \<open>config_env\<close>.
\<close>

section \<open>Paths\<close>

fun split_slash :: "string \<Rightarrow> string \<Rightarrow> string list" where
  "split_slash acc [] = [rev acc]"
| "split_slash acc (c # cs) =
     (if c = CHR ''/'' then rev acc # split_slash [] cs else split_slash (c # acc) cs)"

definition is_absolute :: "string \<Rightarrow> bool" where
  "is_absolute p = (case p of [] \<Rightarrow> False | c # cs \<Rightarrow> c = CHR ''/'')"

text \<open>\<open>p / q\<close>: an absolute \<open>q\<close> replaces \<open>p\<close>.\<close>

definition path_join :: "string \<Rightarrow> string \<Rightarrow> string" where
  "path_join p q =
     (if is_absolute q then q else if p = [] \<or> last p = CHR ''/'' then p @ q else p @ ''/'' @ q)"

definition path_filename :: "string \<Rightarrow> string" where
  "path_filename p = after_last CHR ''/'' p"

definition parent_path :: "string \<Rightarrow> string" where
  "parent_path p =
     (if \<forall>c \<in> set p. c = CHR ''/'' then p
      else let dir = rtrim (\<lambda>c. c \<noteq> CHR ''/'') p;
               trimmed = rtrim (\<lambda>c. c = CHR ''/'') dir
           in if trimmed = [] \<and> dir \<noteq> [] then ''/'' else trimmed)"

definition has_parent_path :: "string \<Rightarrow> bool" where
  "has_parent_path p = (parent_path p \<noteq> [])"

text \<open>\<open>lexically_normal\<close> of a path that ends in a file name: dots go, \<open>x/..\<close> cancels.\<close>

fun normal_step :: "bool \<Rightarrow> string \<Rightarrow> string list \<Rightarrow> string list" where
  "normal_step rooted c stack =
     (if c = [] \<or> c = ''.'' then stack
      else if c = ''..'' then
        (case stack of [] \<Rightarrow> if rooted then [] else [c]
         | t # rest \<Rightarrow> if t = ''..'' then c # stack else rest)
      else c # stack)"

definition lexically_normal :: "string \<Rightarrow> string" where
  "lexically_normal p =
     (let rooted = is_absolute p;
          cs = rev (fold (normal_step rooted) (split_slash [] p) []);
          body = concat (map (\<lambda>c. c @ ''/'') (butlast cs)) @ (if cs = [] then [] else last cs)
      in if rooted then ''/'' @ body else if body = [] then ''.'' else body)"

section \<open>Loading\<close>

record config_env =
  fe_exists :: "string \<Rightarrow> bool"
  fe_read :: "string \<Rightarrow> string option"
  fe_parse :: "string \<Rightarrow> json option"

text \<open>The exceptions: a \<open>std::runtime_error\<close> of the loader, or the library's own type error.\<close>

datatype config_error = Runtime_error string | Json_parse_error | Json_type_error

type_synonym 'a loaded = "config_error + 'a"

definition get_as :: "'a option \<Rightarrow> 'a loaded" where
  "get_as v = (case v of None \<Rightarrow> Inl Json_type_error | Some x \<Rightarrow> Inr x)"

fun bind_loaded :: "'a loaded \<Rightarrow> ('a \<Rightarrow> 'b loaded) \<Rightarrow> 'b loaded" where
  "bind_loaded (Inl e) f = Inl e"
| "bind_loaded (Inr x) f = f x"

text \<open>\<open>if (j.contains(k)) x = j[k].get<T>();\<close>\<close>

definition get_optional :: "json \<Rightarrow> string \<Rightarrow> (json \<Rightarrow> 'a option) \<Rightarrow> 'a \<Rightarrow> 'a loaded" where
  "get_optional j k conv dflt = (case member j k of None \<Rightarrow> Inr dflt | Some v \<Rightarrow> get_as (conv v))"

record table_kafka_config =
  tk_topic :: string
  tk_partition :: i32
  tk_brokers :: string

record table_config =
  tc_kafka :: "table_kafka_config option"

definition TableConfig_init :: table_config where "TableConfig_init = \<lparr>tc_kafka = None\<rparr>"

definition LoadTableConfig :: "config_env \<Rightarrow> json_ops \<Rightarrow> string \<Rightarrow> table_config loaded" where
  "LoadTableConfig F J table_dir =
     (let path = path_join table_dir ''table.json'' in
      if \<not> fe_exists F path then Inr TableConfig_init
      else case fe_read F path of
        None \<Rightarrow> Inr TableConfig_init
      | Some text \<Rightarrow>
          (case fe_parse F text of
             None \<Rightarrow> Inl (Runtime_error (''table.json parse error in '' @ table_dir))
           | Some j \<Rightarrow>
               (case member j ''kafka'' of
                  None \<Rightarrow> Inr TableConfig_init
                | Some kj \<Rightarrow>
                    (case member kj ''topic'' of
                       None \<Rightarrow> Inl (Runtime_error (''kafka.topic is required in '' @ path))
                     | Some t \<Rightarrow>
                         bind_loaded (get_as (j_string J t)) (\<lambda>topic.
                           if topic = [] then Inl (Runtime_error (''kafka.topic is required in '' @ path))
                           else bind_loaded (get_optional kj ''partition'' (j_int32 J) 0) (\<lambda>partition.
                           bind_loaded (get_optional kj ''brokers'' (j_string J) []) (\<lambda>brokers.
                             Inr \<lparr>tc_kafka = Some \<lparr>tk_topic = topic, tk_partition = partition,
                                                     tk_brokers = brokers\<rparr>\<rparr>)))))))"

record server_config =
  sv_db_path :: string
  sv_listen :: string
  sv_arena_seg_gb :: u64
  sv_arena_max_gb :: u64
  sv_exclusive_arena_lock :: bool
  sv_kafka_default_brokers :: string
  sv_admin_unix_socket :: string

definition ServerConfig_init :: server_config where
  "ServerConfig_init = \<lparr>sv_db_path = [], sv_listen = ''0.0.0.0:9000'', sv_arena_seg_gb = 1,
     sv_arena_max_gb = 512, sv_exclusive_arena_lock = True, sv_kafka_default_brokers = [],
     sv_admin_unix_socket = []\<rparr>"

definition trim_space :: "string \<Rightarrow> string" where
  "trim_space s = rtrim is_space (dropWhile is_space s)"

definition default_admin_socket :: "string \<Rightarrow> string" where
  "default_admin_socket db_path =
     (let parent = (if has_parent_path db_path then parent_path db_path else ''.'')
      in lexically_normal (path_join parent ''admin.sock''))"

definition required_db_path :: "json_ops \<Rightarrow> json \<Rightarrow> string loaded" where
  "required_db_path J j =
     (case member j ''db_path'' of
        None \<Rightarrow> Inl (Runtime_error ''config missing required key: db_path'')
      | Some v \<Rightarrow>
          bind_loaded (get_as (j_string J v)) (\<lambda>p.
            if p = [] then Inl (Runtime_error ''config missing required key: db_path'') else Inr p))"

definition default_brokers_of :: "json_ops \<Rightarrow> json \<Rightarrow> string loaded" where
  "default_brokers_of J j =
     (case member j ''kafka'' of None \<Rightarrow> Inr []
      | Some kj \<Rightarrow> get_optional kj ''default_brokers'' (j_string J) [])"

definition LoadServerConfig :: "config_env \<Rightarrow> json_ops \<Rightarrow> string \<Rightarrow> server_config loaded" where
  "LoadServerConfig F J path =
     (case fe_read F path of
        None \<Rightarrow> Inl (Runtime_error (''cannot open config file: '' @ path))
      | Some text \<Rightarrow>
          (case fe_parse F text of
             None \<Rightarrow> Inl Json_parse_error
           | Some j \<Rightarrow>
               let d = ServerConfig_init in
               bind_loaded (required_db_path J j) (\<lambda>db_path.
               bind_loaded (get_optional j ''listen'' (j_string J) (sv_listen d)) (\<lambda>listen.
               bind_loaded (get_optional j ''arena_seg_gb'' (j_uint64 J) (sv_arena_seg_gb d)) (\<lambda>seg.
               bind_loaded (get_optional j ''arena_max_gb'' (j_uint64 J) (sv_arena_max_gb d)) (\<lambda>max_gb.
               bind_loaded (get_optional j ''exclusive_arena_lock'' (j_bool J) (sv_exclusive_arena_lock d)) (\<lambda>lock.
               bind_loaded (default_brokers_of J j) (\<lambda>brokers.
               bind_loaded (get_optional j ''admin_unix_socket'' (j_string J) []) (\<lambda>sock.
                 let sock = trim_space sock;
                     sock = (if sock = [] then default_admin_socket db_path else sock)
                 in if seg = 0 \<or> max_gb = 0 then
                      Inl (Runtime_error ''arena_seg_gb and arena_max_gb must be positive'')
                    else if max_gb < seg then
                      Inl (Runtime_error ''arena_max_gb must be >= arena_seg_gb'')
                    else Inr \<lparr>sv_db_path = db_path, sv_listen = listen, sv_arena_seg_gb = seg,
                       sv_arena_max_gb = max_gb, sv_exclusive_arena_lock = lock,
                       sv_kafka_default_brokers = brokers, sv_admin_unix_socket = sock\<rparr>)))))))))"

text \<open>The sizes \<open>main\<close> hands to the database, in bytes, in 64-bit unsigned arithmetic.\<close>

record db_options =
  do_db_path :: string
  do_arena_size :: u64
  do_segment_size :: u64
  do_max_arena_size :: u64
  do_exclusive_arena_lock :: bool

definition main_db_options :: "server_config \<Rightarrow> db_options" where
  "main_db_options cfg =
     (let seg_b = sv_arena_seg_gb cfg * 1024 * 1024 * 1024
      in \<lparr>do_db_path = sv_db_path cfg, do_arena_size = seg_b, do_segment_size = seg_b,
          do_max_arena_size = sv_arena_max_gb cfg * 1024 * 1024 * 1024,
          do_exclusive_arena_lock = sv_exclusive_arena_lock cfg\<rparr>)"

section \<open>What an accepted configuration guarantees\<close>

lemma bind_loaded_Inr [simp]: "bind_loaded r f = Inr y \<longleftrightarrow> (\<exists>x. r = Inr x \<and> f x = Inr y)"
  by (cases r) simp_all

lemma trim_space_ends:
  "trim_space s \<noteq> [] \<Longrightarrow> \<not> is_space (hd (trim_space s)) \<and> \<not> is_space (last (trim_space s))"
proof -
  assume ne: "trim_space s \<noteq> []"
  obtain t where t: "dropWhile is_space s = trim_space s @ t"
    using rtrim_prefix [of "dropWhile is_space s" is_space] by (auto simp: trim_space_def)
  with ne have "hd (trim_space s) = hd (dropWhile is_space s)" "dropWhile is_space s \<noteq> []" by auto
  with ne show ?thesis
    using hd_dropWhile [of is_space s] rtrim_last [of is_space "dropWhile is_space s"]
    by (auto simp: trim_space_def)
qed

lemma trim_space_split: "\<exists>l r. s = l @ trim_space s @ r \<and> list_all is_space (l @ r)"
proof -
  obtain t where t: "dropWhile is_space s = trim_space s @ t" "\<forall>c \<in> set t. is_space c"
    using rtrim_prefix [of "dropWhile is_space s" is_space] by (auto simp: trim_space_def)
  have "s = takeWhile is_space s @ trim_space s @ t" using t(1) takeWhile_dropWhile_id [of is_space s] by simp
  moreover have "list_all is_space (takeWhile is_space s @ t)"
    using t(2) by (auto simp: list_all_iff dest: set_takeWhileD)
  ultimately show ?thesis by blast
qed

lemma trim_space_empty: "trim_space s = [] \<longleftrightarrow> list_all is_space s"
proof
  show "trim_space s = [] \<Longrightarrow> list_all is_space s" using trim_space_split [of s] by auto
  assume "list_all is_space s"
  then have "dropWhile is_space s = []" by (simp add: list_all_iff)
  then show "trim_space s = []" unfolding trim_space_def rtrim_def by (simp only: rev.simps dropWhile.simps)
qed

lemma fold_normal_last:
  "c \<notin> {[], ''.'', ''..''} \<Longrightarrow> fold (normal_step r) (cs @ [c]) st = c # fold (normal_step r) cs st"
  by simp

lemma split_slash_append: "split_slash acc (p @ CHR ''/'' # q) = split_slash acc p @ split_slash [] q"
  by (induction p arbitrary: acc) simp_all

lemma split_slash_noslash: "CHR ''/'' \<notin> set q \<Longrightarrow> split_slash acc q = [rev acc @ q]"
  by (induction q arbitrary: acc) auto

lemma split_path_join:
  assumes "CHR ''/'' \<notin> set q"
  shows "\<exists>cs. split_slash [] (path_join p q) = cs @ [q]"
proof -
  have rel: "\<not> is_absolute q" using assms by (auto simp: is_absolute_def split: list.split)
  show ?thesis
  proof (cases "p = [] \<or> last p \<noteq> CHR ''/''")
    case True
    with rel show ?thesis
      by (auto simp: path_join_def split_slash_append split_slash_noslash [OF assms])
  next
    case False
    with rel have "path_join p q = butlast p @ CHR ''/'' # q"
      using append_butlast_last_id [of p] by (auto simp: path_join_def)
    then show ?thesis by (simp add: split_slash_append split_slash_noslash [OF assms])
  qed
qed

lemma lexically_normal_file:
  assumes "CHR ''/'' \<notin> set q" "q \<notin> {[], ''.'', ''..''}"
  shows "\<exists>d. lexically_normal (path_join p q) = d @ q"
proof -
  obtain cs where cs: "split_slash [] (path_join p q) = cs @ [q]"
    using split_path_join [OF assms(1)] by blast
  show ?thesis
    using assms(2) by (auto simp: lexically_normal_def cs fold_normal_last [OF assms(2)] Let_def)
qed

text \<open>
  C25: A server configuration that is accepted names a database directory, has arena sizes that
  are positive and in order, and an admin socket path that is never empty: the one configured,
  without the white space at its ends, or, when none is configured or only white space, the
  default for the database directory as it is written (with the white space that may begin it),
  which ends in the file name admin.sock.
\<close>

theorem server_config_valid:
  assumes "LoadServerConfig F J path = Inr cfg"
  shows "sv_db_path cfg \<noteq> [] \<and> sv_arena_seg_gb cfg \<noteq> 0 \<and> sv_arena_seg_gb cfg \<le> sv_arena_max_gb cfg \<and>
    (\<exists>body j sock. fe_read F path = Some body \<and> fe_parse F body = Some j \<and>
      get_optional j ''admin_unix_socket'' (j_string J) [] = Inr sock \<and>
      (if list_all is_space sock
       then sv_admin_unix_socket cfg = default_admin_socket (sv_db_path cfg) \<and>
         (\<exists>d. sv_admin_unix_socket cfg = d @ ''admin.sock'')
       else (\<exists>l r. sock = l @ sv_admin_unix_socket cfg @ r \<and> list_all is_space (l @ r)) \<and>
         sv_admin_unix_socket cfg \<noteq> [] \<and> \<not> is_space (hd (sv_admin_unix_socket cfg)) \<and>
         \<not> is_space (last (sv_admin_unix_socket cfg))))"
proof -
  obtain body j where rd: "fe_read F path = Some body" "fe_parse F body = Some j"
    using assms by (auto simp: LoadServerConfig_def split: option.splits)
  have default: "\<exists>d. default_admin_socket p = d @ ''admin.sock''" for p
    unfolding default_admin_socket_def Let_def by (rule lexically_normal_file) simp_all
  have "sv_db_path cfg \<noteq> [] \<and> sv_arena_seg_gb cfg \<noteq> 0 \<and> sv_arena_seg_gb cfg \<le> sv_arena_max_gb cfg"
    using assms rd
    by (auto simp: LoadServerConfig_def required_db_path_def Let_def not_less split: if_splits option.splits)
  moreover from assms rd obtain sock where sock: "get_optional j ''admin_unix_socket'' (j_string J) [] = Inr sock"
    "sv_admin_unix_socket cfg =
       (if trim_space sock = [] then default_admin_socket (sv_db_path cfg) else trim_space sock)"
    by (auto simp: LoadServerConfig_def Let_def split: if_splits)
  moreover have "(trim_space sock = []) = list_all is_space sock" by (rule trim_space_empty)
  moreover have "\<exists>l r. sock = l @ trim_space sock @ r \<and> list_all is_space (l @ r)" by (rule trim_space_split)
  moreover note trim_space_ends [of sock]
  ultimately show ?thesis using rd default [of "sv_db_path cfg"] by (cases "list_all is_space sock") auto
qed

definition ex_server_json :: json where
  "ex_server_json = JObject [(''db_path'', JString ''/srv/./work//x/../server_db''),
     (''arena_max_gb'', JInt 4), (''admin_unix_socket'', JString '' '')]"

definition ex_config_env :: config_env where
  "ex_config_env = \<lparr>fe_exists = (\<lambda>p. True), fe_read = (\<lambda>p. Some ''cfg''),
     fe_parse = (\<lambda>t. Some ex_server_json)\<rparr>"

definition ex_server_config :: server_config where
  "ex_server_config = ServerConfig_init\<lparr>sv_db_path := ''/srv/./work//x/../server_db'',
     sv_arena_max_gb := 4, sv_admin_unix_socket := ''/srv/work/admin.sock''\<rparr>"

lemma ex_config_loads: "LoadServerConfig ex_config_env ref_json ''c'' = Inr ex_server_config"
  by code_simp

theorem server_config_valid_witness:
  "sv_db_path ex_server_config \<noteq> [] \<and> sv_arena_seg_gb ex_server_config \<noteq> 0 \<and>
   sv_arena_seg_gb ex_server_config \<le> sv_arena_max_gb ex_server_config"
  using server_config_valid [OF ex_config_loads] by simp

lemma gb_bytes: "unat (w :: u64) < 2 ^ 34 \<Longrightarrow> unat (w * 1024 * 1024 * 1024) = unat w * 2 ^ 30"
proof -
  assume a: "unat w < 2 ^ 34"
  have "w * 1024 * 1024 * 1024 = word_of_nat (unat w * 2 ^ 30)" by simp
  then have "unat (w * 1024 * 1024 * 1024) = unat (word_of_nat (unat w * 2 ^ 30) :: u64)" by (simp only:)
  also have "\<dots> = unat w * 2 ^ 30"
    using a by (simp add: unsigned_of_nat take_bit_nat_eq_self del: of_nat_mult)
  finally show ?thesis .
qed

text \<open>
  C26: The arena sizes of an accepted configuration reach the database undistorted, in bytes, and
  still positive and in order, as long as the maximum is below 2^34 GiB; the 64-bit products do
  not wrap. (At 2^34 they do: a segment of 2^34 GiB is accepted and becomes a size of 0.)
\<close>

theorem arena_sizes_exact:
  assumes "LoadServerConfig F J path = Inr cfg" and "unat (sv_arena_max_gb cfg) < 2 ^ 34"
  shows "unat (do_segment_size (main_db_options cfg)) = unat (sv_arena_seg_gb cfg) * 2 ^ 30 \<and>
    unat (do_max_arena_size (main_db_options cfg)) = unat (sv_arena_max_gb cfg) * 2 ^ 30 \<and>
    0 < do_segment_size (main_db_options cfg) \<and>
    do_segment_size (main_db_options cfg) \<le> do_max_arena_size (main_db_options cfg)"
proof -
  obtain body j where rd: "fe_read F path = Some body" "fe_parse F body = Some j"
    using assms by (auto simp: LoadServerConfig_def split: option.splits)
  have v: "sv_arena_seg_gb cfg \<noteq> 0" "sv_arena_seg_gb cfg \<le> sv_arena_max_gb cfg"
    using assms(1) rd by (auto simp: LoadServerConfig_def Let_def not_less split: if_splits)
  then have le: "unat (sv_arena_seg_gb cfg) \<le> unat (sv_arena_max_gb cfg)" by (simp add: word_le_nat_alt)
  then have b: "unat (sv_arena_seg_gb cfg) < 2 ^ 34" using assms(2) by linarith
  note seg = gb_bytes [OF b] and mx = gb_bytes [OF assms(2)]
  have "0 < unat (sv_arena_seg_gb cfg)" using v(1) by (simp add: unat_gt_0)
  then show ?thesis
    using le unfolding word_less_nat_alt word_le_nat_alt main_db_options_def Let_def
      db_options.simps seg mx by simp
qed

lemma arena_size_wraps: "do_segment_size (main_db_options (ServerConfig_init\<lparr>sv_arena_seg_gb := 2 ^ 34\<rparr>)) = 0"
  by (simp add: main_db_options_def)

theorem arena_sizes_exact_witness:
  "unat (do_segment_size (main_db_options ex_server_config)) = 1 * 2 ^ 30"
  using arena_sizes_exact [OF ex_config_loads] by (simp add: ex_server_config_def ServerConfig_init_def)

end
