(* ===== verification/Registry.thy ===== *)
theory Registry
  imports Config KafkaSource
begin

text \<open>
  \<open>table_registry.cc\<close>: the tables the server has open, their first load, the lookup of a table
  for a request, and the hot reload that swaps the live index of a table.

  The database directory of open indexes (\<open>DB::Instance()\<close>) and the file system are the parameter
  \<open>world\<close>, whose operations read and transform a state of their own. A \<open>shared_ptr<TableSlot>\<close>
  is the number of the slot; the handles in flight are the list of the slots they hold, so the
  use count of a slot that only its handles and one owner hold is one more than its occurrences.
\<close>

section \<open>The world\<close>

text \<open>
  A message from \<open>w_open\<close> or \<open>w_close\<close> is that of a thrown exception; one from \<open>w_canonical\<close>
  (on the left) or \<open>w_symlink\<close> that of an error code. The error code of \<open>w_remove\<close> is only logged.
\<close>

record ('w, 'r) world =
  w_open :: "'w \<Rightarrow> string \<Rightarrow> string option \<times> 'w"
  w_close :: "'w \<Rightarrow> string \<Rightarrow> string option \<times> 'w"
  w_kv :: "'w \<Rightarrow> string \<Rightarrow> 'r option"
  w_schema :: "'w \<Rightarrow> 'r \<Rightarrow> schema option"
  w_is_directory :: "'w \<Rightarrow> string \<Rightarrow> bool"
  w_entries :: "'w \<Rightarrow> string \<Rightarrow> (string \<times> bool) list"
  w_canonical :: "'w \<Rightarrow> string \<Rightarrow> string + string"
  w_remove :: "'w \<Rightarrow> string \<Rightarrow> 'w"
  w_symlink :: "'w \<Rightarrow> string \<Rightarrow> string \<Rightarrow> string option \<times> 'w"
  w_files :: "'w \<Rightarrow> config_env"

section \<open>The state\<close>

record 'r table_slot =
  ts_kv :: 'r
  ts_schema :: schema
  ts_kafka :: "(kafka_config \<times> source_thread) option"

record table_head =
  th_staging_is_live :: bool
  th_slot :: "nat option"

record ('w, 'r) registry =
  rg_world :: 'w
  rg_db_path :: string
  rg_default_brokers :: string
  rg_heads :: "(string \<times> table_head) list"
  rg_slots :: "(nat \<times> 'r table_slot) list"
  rg_next :: nat
  rg_handles :: "nat list"

text \<open>How a call ends: it returns, throws, or dereferences a null pointer.\<close>

datatype 'a ending = Returns 'a | Throws string | Crashes

definition TableRegistry_init :: "'w \<Rightarrow> string \<Rightarrow> string \<Rightarrow> ('w, 'r) registry" where
  "TableRegistry_init w db_path brokers =
     \<lparr>rg_world = w, rg_db_path = db_path, rg_default_brokers = brokers, rg_heads = [],
      rg_slots = [], rg_next = 0, rg_handles = []\<rparr>"

definition reload_suffix :: string where "reload_suffix = ''~reload''"

definition IsReservedReloadStagingDirName :: "string \<Rightarrow> bool" where
  "IsReservedReloadStagingDirName name =
     (length name \<ge> length reload_suffix \<and>
      drop (length name - length reload_suffix) name = reload_suffix)"

definition ReloadStagingDbName :: "string \<Rightarrow> string" where
  "ReloadStagingDbName logical_table = logical_table @ reload_suffix"

definition find_head :: "('w, 'r) registry \<Rightarrow> string \<Rightarrow> table_head option" where
  "find_head R name = map_of (rg_heads R) name"

definition find_slot :: "('w, 'r) registry \<Rightarrow> nat \<Rightarrow> 'r table_slot option" where
  "find_slot R i = map_of (rg_slots R) i"

definition TableCount :: "('w, 'r) registry \<Rightarrow> nat" where
  "TableCount R = length (rg_heads R)"

text \<open>\<open>slot->kafka_src->Stop()\<close>, when there is one.\<close>

definition stop_kafka :: "nat \<Rightarrow> ('w, 'r) registry \<Rightarrow> ('w, 'r) registry" where
  "stop_kafka i R = R\<lparr>rg_slots := map (\<lambda>(j, s).
     (j, if j = i then s\<lparr>ts_kafka := map_option (\<lambda>(c, t). (c, KafkaSource_Stop t)) (ts_kafka s)\<rparr> else s))
     (rg_slots R)\<rparr>"

definition TableRegistry_destroy :: "('w, 'r) registry \<Rightarrow> ('w, 'r) registry" where
  "TableRegistry_destroy R =
     fold (\<lambda>(name, h) R. case th_slot h of None \<Rightarrow> R | Some i \<Rightarrow> stop_kafka i R) (rg_heads R) R"

section \<open>Building a slot\<close>

definition slot_kafka :: "string \<Rightarrow> string \<Rightarrow> table_config \<Rightarrow> (kafka_config \<times> source_thread) option" where
  "slot_kafka default_brokers table_config_dir tcfg =
     (case tc_kafka tcfg of
        None \<Rightarrow> None
      | Some kc \<Rightarrow>
          let brokers = (if tk_brokers kc = [] then default_brokers else tk_brokers kc)
          in if brokers = [] then None
             else Some (\<lparr>kc_brokers = brokers, kc_topic = tk_topic kc, kc_partition = tk_partition kc,
                         kc_offset_file = path_join table_config_dir ''kafka.offset''\<rparr>,
                        KafkaSource_Start KafkaSource_init))"

text \<open>The schema is read through the index pointer before the pointer is tested.\<close>

definition BuildSlotAfterOpen ::
  "('w, 'r) world \<Rightarrow> json_ops \<Rightarrow> ('w, 'r) registry \<Rightarrow> string \<Rightarrow> string \<Rightarrow> 'r table_slot option ending" where
  "BuildSlotAfterOpen W J R db_index_name table_config_dir =
     (case w_kv W (rg_world R) db_index_name of
        None \<Rightarrow> Crashes
      | Some kv \<Rightarrow>
          (case w_schema W (rg_world R) kv of
             None \<Rightarrow> Returns None
           | Some sch \<Rightarrow>
               let tcfg = (case LoadTableConfig (w_files W (rg_world R)) J table_config_dir of
                             Inl e \<Rightarrow> TableConfig_init | Inr c \<Rightarrow> c)
               in Returns (Some \<lparr>ts_kv = kv, ts_schema = sch,
                     ts_kafka = slot_kafka (rg_default_brokers R) table_config_dir tcfg\<rparr>)))"

section \<open>\<open>LoadTable\<close>, \<open>ScanAndLoad\<close>\<close>

text \<open>\<open>CloseIndex\<close> outside a try block: an exception of it ends the call.\<close>

definition close_then ::
  "('w, 'r) world \<Rightarrow> string \<Rightarrow> 'a \<Rightarrow> ('w, 'r) registry \<Rightarrow> 'a ending \<times> ('w, 'r) registry" where
  "close_then W key ret R =
     (case w_close W (rg_world R) key of
        (Some e, w) \<Rightarrow> (Throws e, R\<lparr>rg_world := w\<rparr>)
      | (None, w) \<Rightarrow> (Returns ret, R\<lparr>rg_world := w\<rparr>))"

definition add_slot :: "'r table_slot \<Rightarrow> ('w, 'r) registry \<Rightarrow> nat \<times> ('w, 'r) registry" where
  "add_slot s R = (rg_next R, R\<lparr>rg_slots := (rg_next R, s) # rg_slots R, rg_next := rg_next R + 1\<rparr>)"

definition LoadTable ::
  "('w, 'r) world \<Rightarrow> json_ops \<Rightarrow> string \<Rightarrow> ('w, 'r) registry \<Rightarrow> bool ending \<times> ('w, 'r) registry" where
  "LoadTable W J table_dir R =
     (let name = path_filename table_dir in
      if name = [] \<or> hd name = CHR ''.'' then (Returns False, R)
      else if IsReservedReloadStagingDirName name then (Returns False, R)
      else if find_head R name \<noteq> None then (Returns True, R)
      else case w_open W (rg_world R) name of
        (Some e, w) \<Rightarrow> (Returns False, R\<lparr>rg_world := w\<rparr>)
      | (None, w) \<Rightarrow>
          let R = R\<lparr>rg_world := w\<rparr> in
          (case w_canonical W w table_dir of
             Inl e \<Rightarrow> close_then W name False R
           | Inr cfg_dir \<Rightarrow>
               (case BuildSlotAfterOpen W J R name cfg_dir of
                  Throws e \<Rightarrow> (Throws e, R)
                | Crashes \<Rightarrow> (Crashes, R)
                | Returns None \<Rightarrow> close_then W name False R
                | Returns (Some slot) \<Rightarrow>
                    if find_head R name \<noteq> None then close_then W name True R
                    else let (i, R) = add_slot slot R
                         in (Returns True, R\<lparr>rg_heads := rg_heads R @
                               [(name, \<lparr>th_staging_is_live = False, th_slot = Some i\<rparr>)]\<rparr>))))"

text \<open>The result of each load is ignored; an exception ends the scan.\<close>

fun scan_entries ::
  "('w, 'r) world \<Rightarrow> json_ops \<Rightarrow> (string \<times> bool) list \<Rightarrow> ('w, 'r) registry \<Rightarrow> unit ending \<times> ('w, 'r) registry" where
  "scan_entries W J [] R = (Returns (), R)"
| "scan_entries W J ((path, is_dir) # es) R =
     (if \<not> is_dir then scan_entries W J es R
      else if IsReservedReloadStagingDirName (path_filename path) then scan_entries W J es R
      else case LoadTable W J path R of
        (Returns b, R') \<Rightarrow> scan_entries W J es R'
      | (Throws e, R') \<Rightarrow> (Throws e, R')
      | (Crashes, R') \<Rightarrow> (Crashes, R'))"

definition ScanAndLoad ::
  "('w, 'r) world \<Rightarrow> json_ops \<Rightarrow> ('w, 'r) registry \<Rightarrow> unit ending \<times> ('w, 'r) registry" where
  "ScanAndLoad W J R =
     (if \<not> w_is_directory W (rg_world R) (rg_db_path R) then (Returns (), R)
      else scan_entries W J (w_entries W (rg_world R) (rg_db_path R)) R)"

section \<open>\<open>Acquire\<close> and the handles\<close>

definition live_slot :: "('w, 'r) registry \<Rightarrow> string \<Rightarrow> nat option" where
  "live_slot R name = Option.bind (find_head R name) th_slot"

definition Acquire :: "string \<Rightarrow> ('w, 'r) registry \<Rightarrow> nat option \<times> ('w, 'r) registry" where
  "Acquire name R =
     (case find_head R name of
        None \<Rightarrow> (None, R)
      | Some h \<Rightarrow>
          (case th_slot h of
             None \<Rightarrow> (None, R)
           | Some i \<Rightarrow> (Some i, R\<lparr>rg_handles := i # rg_handles R\<rparr>)))"

definition release :: "nat \<Rightarrow> ('w, 'r) registry \<Rightarrow> ('w, 'r) registry" where
  "release i R = R\<lparr>rg_handles := remove1 i (rg_handles R)\<rparr>"

section \<open>\<open>ReloadTable\<close>\<close>

text \<open>A table that is not registered yet is opened as at startup.\<close>

definition reload_hot_open ::
  "('w, 'r) world \<Rightarrow> json_ops \<Rightarrow> string \<Rightarrow> ('w, 'r) registry \<Rightarrow> unit ending \<times> ('w, 'r) registry" where
  "reload_hot_open W J table_name R =
     (if IsReservedReloadStagingDirName table_name then
        (Throws (''ReloadTable: reserved name suffix: '' @ table_name), R)
      else let dir = path_join (rg_db_path R) table_name in
      if \<not> w_is_directory W (rg_world R) dir then
        (Throws (''ReloadTable: not a directory: '' @ dir), R)
      else case LoadTable W J dir R of
        (Returns True, R') \<Rightarrow> (Returns (), R')
      | (Returns False, R') \<Rightarrow> (Throws (''ReloadTable: failed to open new table: '' @ table_name), R')
      | (Throws e, R') \<Rightarrow> (Throws e, R')
      | (Crashes, R') \<Rightarrow> (Crashes, R'))"

text \<open>The database keys of a reload: the one to open next, and the one that is live.\<close>

definition next_key :: "string \<Rightarrow> bool \<Rightarrow> string" where
  "next_key name live_on_staging = (if \<not> live_on_staging then ReloadStagingDbName name else name)"

definition prev_key :: "string \<Rightarrow> bool \<Rightarrow> string" where
  "prev_key name live_on_staging = (if \<not> live_on_staging then name else ReloadStagingDbName name)"

text \<open>The cleanup of a failed reload: the staging link goes, errors are ignored.\<close>

definition remove_staging_link ::
  "('w, 'r) world \<Rightarrow> string \<Rightarrow> string \<Rightarrow> ('w, 'r) registry \<Rightarrow> ('w, 'r) registry" where
  "remove_staging_link W name next_db R =
     (if next_db \<noteq> name then
        R\<lparr>rg_world := w_remove W (rg_world R) (path_join (rg_db_path R) next_db)\<rparr>
      else R)"

text \<open>From the lookup of the head up to the new slot; the live slot is not touched.\<close>

definition reload_open ::
  "('w, 'r) world \<Rightarrow> json_ops \<Rightarrow> string \<Rightarrow> string \<Rightarrow> string \<Rightarrow> ('w, 'r) registry \<Rightarrow>
   'r table_slot ending \<times> ('w, 'r) registry" where
  "reload_open W J name next_db table_config_dir R =
     (case w_close W (rg_world R) next_db of
        (Some e, w) \<Rightarrow> (Throws e, remove_staging_link W name next_db (R\<lparr>rg_world := w\<rparr>))
      | (None, w) \<Rightarrow>
          (case w_open W w next_db of
             (Some e, w) \<Rightarrow> (Throws e, remove_staging_link W name next_db (R\<lparr>rg_world := w\<rparr>))
           | (None, w) \<Rightarrow>
               let R = R\<lparr>rg_world := w\<rparr> in
               (case BuildSlotAfterOpen W J R next_db table_config_dir of
                  Throws e \<Rightarrow> (Throws e, R)
                | Crashes \<Rightarrow> (Crashes, R)
                | Returns (Some slot) \<Rightarrow> (Returns slot, R)
                | Returns None \<Rightarrow>
                    (case close_then W next_db () R of
                       (Returns _, R) \<Rightarrow>
                         (Throws (''ReloadTable: rebuild slot failed: '' @ name), remove_staging_link W name next_db R)
                     | (Throws e, R) \<Rightarrow> (Throws e, R)
                     | (Crashes, R) \<Rightarrow> (Crashes, R)))))"

definition reload_prepare ::
  "('w, 'r) world \<Rightarrow> json_ops \<Rightarrow> string \<Rightarrow> bool \<Rightarrow> ('w, 'r) registry \<Rightarrow>
   'r table_slot ending \<times> ('w, 'r) registry" where
  "reload_prepare W J name live_on_staging R =
     (let next_db = next_key name live_on_staging;
          primary = path_join (rg_db_path R) name
      in case w_canonical W (rg_world R) primary of
        Inl e \<Rightarrow> (Throws (''ReloadTable: weakly_canonical('' @ primary @ ''): '' @ e), R)
      | Inr table_config_dir \<Rightarrow>
          if next_db \<noteq> name then
            (let link_path = path_join (rg_db_path R) next_db;
                 w = w_remove W (rg_world R) link_path
             in case w_symlink W w table_config_dir link_path of
               (Some e, w) \<Rightarrow> (Throws (''ReloadTable: create_symlink '' @ link_path @ '': '' @ e), R\<lparr>rg_world := w\<rparr>)
             | (None, w) \<Rightarrow> reload_open W J name next_db table_config_dir (R\<lparr>rg_world := w\<rparr>))
          else reload_open W J name next_db table_config_dir R)"

definition update_head :: "string \<Rightarrow> table_head \<Rightarrow> ('w, 'r) registry \<Rightarrow> ('w, 'r) registry" where
  "update_head name h R = R\<lparr>rg_heads := map (\<lambda>(n, h'). (n, if n = name then h else h')) (rg_heads R)\<rparr>"

text \<open>The swap gives the head the new slot, then stops the consumer of the old one.\<close>

definition reload_swap ::
  "string \<Rightarrow> bool \<Rightarrow> nat \<Rightarrow> 'r table_slot \<Rightarrow> ('w, 'r) registry \<Rightarrow> ('w, 'r) registry" where
  "reload_swap name live_on_staging old_slot slot R =
     (let (i, R) = add_slot slot R
      in stop_kafka old_slot
           (update_head name \<lparr>th_staging_is_live = \<not> live_on_staging, th_slot = Some i\<rparr> R))"

text \<open>\<open>old_sp.use_count() == 1\<close>: no handle holds the old slot.\<close>

definition drained :: "nat \<Rightarrow> ('w, 'r) registry \<Rightarrow> bool" where
  "drained i R = (i \<notin> set (rg_handles R))"

text \<open>The old slot is released and its index closed.\<close>

definition reload_finish ::
  "('w, 'r) world \<Rightarrow> string \<Rightarrow> string \<Rightarrow> nat \<Rightarrow> ('w, 'r) registry \<Rightarrow> unit ending \<times> ('w, 'r) registry" where
  "reload_finish W name prev_db old_slot R =
     (let R = R\<lparr>rg_slots := filter (\<lambda>(j, s). j \<noteq> old_slot) (rg_slots R)\<rparr>
      in case close_then W prev_db () R of
        (Throws e, R) \<Rightarrow> (Throws e, R)
      | (Crashes, R) \<Rightarrow> (Crashes, R)
      | (Returns _, R) \<Rightarrow>
          if prev_db \<noteq> name then
            (Returns (), R\<lparr>rg_world := w_remove W (rg_world R) (path_join (rg_db_path R) prev_db)\<rparr>)
          else (Returns (), R))"

text \<open>
  The wait for the requests in flight polls every two milliseconds, for as long as it takes. The
  handles held at each poll are given by a list; \<open>None\<close>: the old slot is still held at the last.
\<close>

fun reload_wait :: "nat \<Rightarrow> nat list list \<Rightarrow> ('w, 'r) registry \<Rightarrow> ('w, 'r) registry option" where
  "reload_wait i [] R = None"
| "reload_wait i (hs # rest) R =
     (let R = R\<lparr>rg_handles := hs\<rparr> in if drained i R then Some R else reload_wait i rest R)"

definition ReloadTable ::
  "('w, 'r) world \<Rightarrow> json_ops \<Rightarrow> nat list list \<Rightarrow> string \<Rightarrow> ('w, 'r) registry \<Rightarrow>
   (unit ending \<times> ('w, 'r) registry) option" where
  "ReloadTable W J polls table_name R =
     (case find_head R table_name of
        None \<Rightarrow> Some (reload_hot_open W J table_name R)
      | Some h \<Rightarrow>
          (case th_slot h of
             None \<Rightarrow> Some (Throws (''ReloadTable: empty slot: '' @ table_name), R)
           | Some old_slot \<Rightarrow>
               let live = th_staging_is_live h in
               (case reload_prepare W J table_name live R of
                  (Throws e, R) \<Rightarrow> Some (Throws e, R)
                | (Crashes, R) \<Rightarrow> Some (Crashes, R)
                | (Returns slot, R) \<Rightarrow>
                    (case reload_wait old_slot polls (reload_swap table_name live old_slot slot R) of
                       None \<Rightarrow> None
                     | Some R \<Rightarrow> Some (reload_finish W table_name (prev_key table_name live) old_slot R)))))"

end
