(* ===== verification/RegistrySafety.thy ===== *)
theory RegistrySafety
  imports Registry
begin

text \<open>
  The reload of a table while requests come and go. The phases of \<open>ReloadTable\<close> are the steps of
  a transition system, in which requests acquire and release handles, new tables are loaded and
  reloads of several tables overlap at any point between the phases. The invariant shows that
  no handle ever refers to a closed index.
\<close>

section \<open>What the database and the file system leave alone\<close>

text \<open>Opening or closing one key keeps the index of every other key; links keep them all.\<close>

definition world_ok :: "('w, 'r) world \<Rightarrow> bool" where
  "world_ok W \<longleftrightarrow>
     (\<forall>w k k'. k' \<noteq> k \<longrightarrow> w_kv W (snd (w_open W w k)) k' = w_kv W w k') \<and>
     (\<forall>w k k'. k' \<noteq> k \<longrightarrow> w_kv W (snd (w_close W w k)) k' = w_kv W w k') \<and>
     (\<forall>w p k. w_kv W (w_remove W w p) k = w_kv W w k) \<and>
     (\<forall>w p q k. w_kv W (snd (w_symlink W w p q)) k = w_kv W w k)"

section \<open>The transition system\<close>

datatype 'r phase = Opened bool nat "'r table_slot" | Draining bool nat

type_synonym ('w, 'r) sys = "('w, 'r) registry \<times> (string \<Rightarrow> 'r phase option)"

datatype action =
    Act_acquire string | Act_release nat | Act_load string
  | Act_prepare string | Act_swap string | Act_finish string

text \<open>A table with a phase is under \<open>reload_serial\<close>, so no second reload of it starts.\<close>

inductive reg_step :: "('w, 'r) world \<Rightarrow> json_ops \<Rightarrow> ('w, 'r) sys \<Rightarrow> action \<Rightarrow> ('w, 'r) sys \<Rightarrow> bool"
  for W :: "('w, 'r) world" and J :: json_ops where
  step_acquire: "reg_step W J (R, P) (Act_acquire name) (snd (Acquire name R), P)"
| step_release: "i \<in> set (rg_handles R) \<Longrightarrow> reg_step W J (R, P) (Act_release i) (release i R, P)"
| step_load: "reg_step W J (R, P) (Act_load dir) (snd (LoadTable W J dir R), P)"
| step_prepare:
    "P name = None \<Longrightarrow> find_head R name = Some h \<Longrightarrow> th_slot h = Some old \<Longrightarrow>
     reload_prepare W J name (th_staging_is_live h) R = (Returns slot, R') \<Longrightarrow>
     reg_step W J (R, P) (Act_prepare name) (R', P(name \<mapsto> Opened (th_staging_is_live h) old slot))"
| step_prepare_fails:
    "P name = None \<Longrightarrow> find_head R name = Some h \<Longrightarrow> th_slot h = Some old \<Longrightarrow>
     reload_prepare W J name (th_staging_is_live h) R = (Throws e, R') \<Longrightarrow>
     reg_step W J (R, P) (Act_prepare name) (R', P)"
| step_swap:
    "P name = Some (Opened live old slot) \<Longrightarrow>
     reg_step W J (R, P) (Act_swap name) (reload_swap name live old slot R, P(name \<mapsto> Draining live old))"
| step_finish:
    "P name = Some (Draining live old) \<Longrightarrow> drained old R \<Longrightarrow>
     reload_finish W name (prev_key name live) old R = (res, R') \<Longrightarrow>
     reg_step W J (R, P) (Act_finish name) (R', P(name := None))"

inductive_cases reg_step_acquireE: "reg_step W J s (Act_acquire name) s'"
inductive_cases reg_step_finishE: "reg_step W J s (Act_finish name) s'"

inductive reachable :: "('w, 'r) world \<Rightarrow> json_ops \<Rightarrow> ('w, 'r) sys \<Rightarrow> ('w, 'r) sys \<Rightarrow> bool"
  for W :: "('w, 'r) world" and J :: json_ops and s0 :: "('w, 'r) sys" where
  reach_init: "reachable W J s0 s0"
| reach_step: "reachable W J s0 s \<Longrightarrow> reg_step W J s a s' \<Longrightarrow> reachable W J s0 s'"

section \<open>The invariant\<close>

text \<open>A slot is held under a key as the live slot of a table, or while it drains after a swap.\<close>

definition held :: "('w, 'r) sys \<Rightarrow> nat \<Rightarrow> string \<Rightarrow> bool" where
  "held s i key \<longleftrightarrow>
     (\<exists>n h. find_head (fst s) n = Some h \<and> th_slot h = Some i \<and> key = prev_key n (th_staging_is_live h)) \<or>
     (\<exists>n live. snd s n = Some (Draining live i) \<and> key = prev_key n live)"

lemma held_head:
  "find_head R n = Some h \<Longrightarrow> th_slot h = Some i \<Longrightarrow> held (R, P) i (prev_key n (th_staging_is_live h))"
  by (auto simp: held_def)

lemma held_drain: "P n = Some (Draining live i) \<Longrightarrow> held (R, P) i (prev_key n live)"
  by (auto simp: held_def)

lemma heldE:
  assumes "held (R, P) i key"
  obtains (head) n h where "find_head R n = Some h" "th_slot h = Some i" "key = prev_key n (th_staging_is_live h)"
  | (drain) n live where "P n = Some (Draining live i)" "key = prev_key n live"
  using assms unfolding held_def fst_conv snd_conv by blast

definition phase_ok :: "('w, 'r) world \<Rightarrow> ('w, 'r) registry \<Rightarrow> string \<Rightarrow> 'r phase \<Rightarrow> bool" where
  "phase_ok W R n p =
     (case p of
        Opened live old slot \<Rightarrow>
          find_head R n = Some \<lparr>th_staging_is_live = live, th_slot = Some old\<rparr> \<and>
          w_kv W (rg_world R) (next_key n live) = Some (ts_kv slot)
      | Draining live old \<Rightarrow> (\<exists>i. find_head R n = Some \<lparr>th_staging_is_live = \<not> live, th_slot = Some i\<rparr>))"

definition reg_inv :: "('w, 'r) world \<Rightarrow> ('w, 'r) sys \<Rightarrow> bool" where
  "reg_inv W s \<longleftrightarrow>
     (\<forall>n h. find_head (fst s) n = Some h \<longrightarrow> \<not> IsReservedReloadStagingDirName n \<and> th_slot h \<noteq> None) \<and>
     (\<forall>n p. snd s n = Some p \<longrightarrow> phase_ok W (fst s) n p) \<and>
     (\<forall>i key. held s i key \<longrightarrow> i < rg_next (fst s) \<and>
        (\<exists>sl. find_slot (fst s) i = Some sl \<and> w_kv W (rg_world (fst s)) key = Some (ts_kv sl))) \<and>
     (\<forall>i key key'. held s i key \<longrightarrow> held s i key' \<longrightarrow> key = key') \<and>
     (\<forall>i \<in> set (rg_handles (fst s)). \<exists>key. held s i key)"

lemma reserved_suffix [simp]: "IsReservedReloadStagingDirName (n @ reload_suffix)"
  by (simp add: IsReservedReloadStagingDirName_def)

text \<open>The keys of two tables never clash, nor the two keys of one.\<close>

lemma keys_inject:
  assumes "\<not> IsReservedReloadStagingDirName n" "\<not> IsReservedReloadStagingDirName m"
  shows "prev_key n a = prev_key m b \<longleftrightarrow> n = m \<and> a = b"
  using assms by (auto simp: prev_key_def ReloadStagingDbName_def)

lemma next_key_prev: "next_key n live = prev_key n (\<not> live)"
  by (simp add: next_key_def prev_key_def)

lemma key_not_other_name:
  "\<not> IsReservedReloadStagingDirName m \<Longrightarrow> prev_key n b = m \<Longrightarrow> n = m \<and> \<not> b"
  by (auto simp: prev_key_def ReloadStagingDbName_def split: if_splits)

section \<open>What the operations change\<close>

lemma build_kv:
  "BuildSlotAfterOpen W J R key dir = Returns (Some sl) \<Longrightarrow> w_kv W (rg_world R) key = Some (ts_kv sl)"
  by (auto simp: BuildSlotAfterOpen_def Let_def split: option.splits)

lemma find_slot_stop:
  "find_slot (stop_kafka i R) j =
     map_option (\<lambda>s. if j = i then s\<lparr>ts_kafka := map_option (\<lambda>(c, t). (c, KafkaSource_Stop t)) (ts_kafka s)\<rparr> else s)
       (find_slot R j)"
proof -
  have "map_of (map (\<lambda>(j, s). (j, g j s)) xs) j = map_option (g j) (map_of xs j)" for g xs
    by (induction xs) auto
  then show ?thesis by (simp add: find_slot_def stop_kafka_def)
qed

lemma stop_kafka_simps [simp]:
  "rg_world (stop_kafka i R) = rg_world R" "rg_heads (stop_kafka i R) = rg_heads R"
  "rg_handles (stop_kafka i R) = rg_handles R" "rg_next (stop_kafka i R) = rg_next R"
  "find_head (stop_kafka i R) n = find_head R n"
  by (simp_all add: stop_kafka_def find_head_def)

lemma find_head_update:
  "find_head (update_head name h R) n =
     (if n = name then map_option (\<lambda>_. h) (find_head R n) else find_head R n)"
proof -
  have "map_of (map (\<lambda>(j, s). (j, if j = name then h else s)) xs) n =
      (if n = name then map_option (\<lambda>_. h) (map_of xs n) else map_of xs n)" for xs
    by (induction xs) auto
  then show ?thesis by (simp add: find_head_def update_head_def)
qed

lemma update_head_simps [simp]:
  "rg_world (update_head name h R) = rg_world R" "rg_handles (update_head name h R) = rg_handles R"
  "rg_next (update_head name h R) = rg_next R" "find_slot (update_head name h R) i = find_slot R i"
  by (simp_all add: update_head_def find_slot_def)

lemma world_update_simps [simp]:
  "find_head (R\<lparr>rg_world := w\<rparr>) = find_head R" "find_slot (R\<lparr>rg_world := w\<rparr>) = find_slot R"
  "find_head (R\<lparr>rg_handles := hs\<rparr>) = find_head R" "find_slot (R\<lparr>rg_handles := hs\<rparr>) = find_slot R"
  "find_head (R\<lparr>rg_slots := sl\<rparr>) = find_head R" "find_head (R\<lparr>rg_next := k\<rparr>) = find_head R"
  "find_slot (R\<lparr>rg_heads := hd'\<rparr>) = find_slot R" "find_slot (R\<lparr>rg_next := k\<rparr>) = find_slot R"
  by (rule ext, simp add: find_head_def find_slot_def)+

text \<open>A call that only changes the world, and no key but the given one.\<close>

definition only_world :: "('w, 'r) world \<Rightarrow> string \<Rightarrow> ('w, 'r) registry \<Rightarrow> ('w, 'r) registry \<Rightarrow> bool" where
  "only_world W key R R' \<longleftrightarrow>
     R' = R\<lparr>rg_world := rg_world R'\<rparr> \<and>
     (\<forall>k. k \<noteq> key \<longrightarrow> w_kv W (rg_world R') k = w_kv W (rg_world R) k)"

lemma only_world_refl: "only_world W key R R"
  by (simp add: only_world_def)

lemma only_world_trans:
  "only_world W key R R' \<Longrightarrow> only_world W key R' R'' \<Longrightarrow> only_world W key R R''"
  unfolding only_world_def by (metis registry.surjective registry.update_convs(1))

lemma only_world_upd:
  "\<forall>k. k \<noteq> key \<longrightarrow> w_kv W w k = w_kv W (rg_world R) k \<Longrightarrow> only_world W key R (R\<lparr>rg_world := w\<rparr>)"
  by (simp add: only_world_def)

lemma open_only: "world_ok W \<Longrightarrow> k \<noteq> key \<Longrightarrow> w_kv W (snd (w_open W w key)) k = w_kv W w k"
  by (simp add: world_ok_def)

lemma close_only: "world_ok W \<Longrightarrow> k \<noteq> key \<Longrightarrow> w_kv W (snd (w_close W w key)) k = w_kv W w k"
  by (simp add: world_ok_def)

lemma remove_only: "world_ok W \<Longrightarrow> w_kv W (w_remove W w p) k = w_kv W w k"
  by (simp add: world_ok_def)

lemma symlink_only: "world_ok W \<Longrightarrow> w_kv W (snd (w_symlink W w p q)) k = w_kv W w k"
  by (simp add: world_ok_def)

lemmas world_laws = open_only close_only remove_only symlink_only

lemma close_then_only: "world_ok W \<Longrightarrow> only_world W key R (snd (close_then W key x R))"
  using close_only [of W _ key "rg_world R"]
  by (cases "w_close W (rg_world R) key"; cases "fst (w_close W (rg_world R) key)")
    (simp_all add: close_then_def only_world_upd)

lemma remove_link_only: "world_ok W \<Longrightarrow> only_world W key R (remove_staging_link W name next R)"
  by (auto simp: remove_staging_link_def only_world_refl world_laws intro!: only_world_upd)

lemma reload_open_only:
  assumes "world_ok W"
  shows "only_world W next R (snd (reload_open W J name next dir R))"
    and "reload_open W J name next dir R = (Returns sl, R') \<Longrightarrow> w_kv W (rg_world R') next = Some (ts_kv sl)"
proof -
  obtain c w1 where c: "w_close W (rg_world R) next = (c, w1)" by fastforce
  obtain o' w2 where o': "w_open W w1 next = (o', w2)" by fastforce
  have w1: "only_world W next R (R\<lparr>rg_world := w1\<rparr>)"
    using close_only [OF assms, of _ "next" "rg_world R"] c by (auto intro!: only_world_upd)
  have w2: "only_world W next R (R\<lparr>rg_world := w2\<rparr>)"
    using open_only [OF assms, of _ "next" w1] o' w1 by (auto simp: only_world_def)
  have link: "only_world W next R S \<Longrightarrow> only_world W next R (remove_staging_link W name next S)" for S
    using only_world_trans remove_link_only [OF assms] by blast
  have close: "only_world W next R (snd (close_then W next () (R\<lparr>rg_world := w2\<rparr>)))"
    using only_world_trans [OF w2 close_then_only [OF assms]] .
  show "only_world W next R (snd (reload_open W J name next dir R))"
    using c o' w1 w2 link [OF w1] link [OF w2] close link [OF close]
    by (auto simp: reload_open_def Let_def split: option.splits ending.splits prod.splits)
  show "reload_open W J name next dir R = (Returns sl, R') \<Longrightarrow> w_kv W (rg_world R') next = Some (ts_kv sl)"
    using c o' build_kv [of W J "R\<lparr>rg_world := w2\<rparr>" "next" dir]
    by (auto simp: reload_open_def Let_def split: option.splits ending.splits prod.splits)
qed

lemma reload_prepare_only:
  assumes "world_ok W"
  shows "only_world W (next_key name live) R (snd (reload_prepare W J name live R))"
    and "reload_prepare W J name live R = (Returns sl, R') \<Longrightarrow>
      w_kv W (rg_world R') (next_key name live) = Some (ts_kv sl)"
proof -
  let ?next = "next_key name live"
  let ?link = "path_join (rg_db_path R) ?next"
  have w: "only_world W ?next R (R\<lparr>rg_world := snd (w_symlink W (w_remove W (rg_world R) ?link) dir ?link)\<rparr>)" for dir
    by (rule only_world_upd) (simp add: world_laws assms)
  note w' = only_world_trans [OF w reload_open_only(1) [OF assms]]
  show "only_world W ?next R (snd (reload_prepare W J name live R))"
    using w w' reload_open_only(1) [OF assms, of ?next R J name]
    by (auto simp: reload_prepare_def Let_def only_world_refl split: sum.splits option.splits prod.splits)
      (metis snd_conv)+
  show "reload_prepare W J name live R = (Returns sl, R') \<Longrightarrow>
      w_kv W (rg_world R') ?next = Some (ts_kv sl)"
    using reload_open_only(2) [OF assms]
    by (auto simp: reload_prepare_def Let_def split: sum.splits option.splits prod.splits if_splits)
qed

lemma reload_finish_only:
  assumes "world_ok W" "reload_finish W name prev old R = (res, R')"
  shows "only_world W prev (R\<lparr>rg_slots := filter (\<lambda>(j, s). j \<noteq> old) (rg_slots R)\<rparr>) R'"
proof -
  let ?R = "R\<lparr>rg_slots := filter (\<lambda>(j, s). j \<noteq> old) (rg_slots R)\<rparr>"
  obtain r1 R1 where c: "close_then W prev () ?R = (r1, R1)" by fastforce
  have R1: "only_world W prev ?R R1" using close_then_only [OF assms(1), of prev ?R "()"] c by simp
  have "only_world W prev R1 (R1\<lparr>rg_world := w_remove W (rg_world R1) p\<rparr>)" for p
    by (rule only_world_upd) (simp add: world_laws assms(1))
  with only_world_trans [OF R1] assms(2) c R1 show ?thesis
    by (auto simp: reload_finish_def Let_def split: ending.splits if_splits)
qed

lemma LoadTable_cases:
  assumes "world_ok W" and R'_def: "R' = snd (LoadTable W J dir R)"
  obtains "R' = R"
  | "\<not> IsReservedReloadStagingDirName (path_filename dir)" "find_head R (path_filename dir) = None"
      "only_world W (path_filename dir) R R'"
  | R1 sl where "\<not> IsReservedReloadStagingDirName (path_filename dir)" "find_head R (path_filename dir) = None"
      "only_world W (path_filename dir) R R1" "w_kv W (rg_world R1) (path_filename dir) = Some (ts_kv sl)"
      "R' = R1\<lparr>rg_slots := (rg_next R1, sl) # rg_slots R1, rg_next := rg_next R1 + 1,
             rg_heads := rg_heads R1 @ [(path_filename dir, \<lparr>th_staging_is_live = False, th_slot = Some (rg_next R1)\<rparr>)]\<rparr>"
proof -
  let ?name = "path_filename dir"
  show thesis
  proof (cases "(?name = [] \<or> hd ?name = CHR ''.'') \<or> IsReservedReloadStagingDirName ?name \<or> find_head R ?name \<noteq> None")
    case True
    then have "R' = R" by (auto simp: R'_def LoadTable_def Let_def)
    then show ?thesis by (rule that(1))
  next
    case False
    then have n: "\<not> IsReservedReloadStagingDirName ?name" "find_head R ?name = None" by auto
    obtain e w where o': "w_open W (rg_world R) ?name = (e, w)" by fastforce
    let ?R = "R\<lparr>rg_world := w\<rparr>"
    have R1: "only_world W ?name R ?R"
      using open_only [OF assms(1), of _ ?name "rg_world R"] o' by (auto intro!: only_world_upd)
    have close: "only_world W ?name R (snd (close_then W ?name b ?R))" for b
      using only_world_trans [OF R1 close_then_only [OF assms(1)]] .
    show ?thesis
    proof (cases "e = None \<and> (\<exists>cfg sl. w_canonical W w dir = Inr cfg \<and> BuildSlotAfterOpen W J ?R ?name cfg = Returns (Some sl))")
      case True
      then obtain cfg sl where b: "e = None" "w_canonical W w dir = Inr cfg"
        "BuildSlotAfterOpen W J ?R ?name cfg = Returns (Some sl)" by auto
      show ?thesis
        using n R1 build_kv [OF b(3)] b False o'
        by (intro that(3) [of ?R sl]) (auto simp: R'_def LoadTable_def Let_def add_slot_def)
    next
      case ne: False
      have "only_world W ?name R R'"
      proof (cases e)
        case (Some msg)
        with False o' R1 show ?thesis by (simp add: R'_def LoadTable_def Let_def)
      next
        case None
        then show ?thesis
          using False o' R1 close ne
          by (auto simp: R'_def LoadTable_def Let_def split: sum.split ending.split option.split)
      qed
      with n show ?thesis by (rule that(2))
    qed
  qed
qed

section \<open>The invariant is kept\<close>

lemma reg_inv_D:
  assumes "reg_inv W (R, P)"
  shows "find_head R n = Some h \<Longrightarrow> \<not> IsReservedReloadStagingDirName n"
    and "find_head R n = Some h \<Longrightarrow> th_slot h \<noteq> None"
    and "P n = Some p \<Longrightarrow> phase_ok W R n p"
    and "held (R, P) i key \<Longrightarrow> i < rg_next R"
    and "held (R, P) i key \<Longrightarrow> \<exists>sl. find_slot R i = Some sl \<and> w_kv W (rg_world R) key = Some (ts_kv sl)"
    and "held (R, P) i key \<Longrightarrow> held (R, P) i key' \<Longrightarrow> key = key'"
    and "i \<in> set (rg_handles R) \<Longrightarrow> \<exists>key. held (R, P) i key"
  using assms unfolding reg_inv_def fst_conv snd_conv by blast+

lemma reg_inv_I:
  assumes "\<And>n h. find_head R n = Some h \<Longrightarrow> \<not> IsReservedReloadStagingDirName n \<and> th_slot h \<noteq> None"
    and "\<And>n p. P n = Some p \<Longrightarrow> phase_ok W R n p"
    and "\<And>i key. held (R, P) i key \<Longrightarrow> i < rg_next R \<and>
        (\<exists>sl. find_slot R i = Some sl \<and> w_kv W (rg_world R) key = Some (ts_kv sl))"
    and "\<And>i key key'. held (R, P) i key \<Longrightarrow> held (R, P) i key' \<Longrightarrow> key = key'"
    and "\<And>i. i \<in> set (rg_handles R) \<Longrightarrow> \<exists>key. held (R, P) i key"
  shows "reg_inv W (R, P)"
  unfolding reg_inv_def fst_conv snd_conv using assms by blast

lemma phase_head: "phase_ok W R n p \<Longrightarrow> find_head R n \<noteq> None"
  by (auto simp: phase_ok_def split: phase.splits)

lemma held_name:
  assumes "reg_inv W (R, P)" "held (R, P) i key"
  obtains n b where "key = prev_key n b" "\<not> IsReservedReloadStagingDirName n" "find_head R n \<noteq> None"
    "(\<exists>h. find_head R n = Some h \<and> th_staging_is_live h = b) \<or> P n = Some (Draining b i)"
  using assms(2) unfolding held_def fst_conv snd_conv
proof (elim disjE exE conjE)
  fix n h assume "find_head R n = Some h" "th_slot h = Some i" "key = prev_key n (th_staging_is_live h)"
  then show thesis using reg_inv_D(1) [OF assms(1)] by (intro that [of n "th_staging_is_live h"]) auto
next
  fix n live assume "P n = Some (Draining live i)" "key = prev_key n live"
  moreover from this have "find_head R n \<noteq> None" using reg_inv_D(3) [OF assms(1)] phase_head by blast
  ultimately show thesis using reg_inv_D(1) [OF assms(1)] by (intro that [of n live]) auto
qed

lemma only_world_same:
  "only_world W key R R' \<Longrightarrow> find_head R' = find_head R \<and> find_slot R' = find_slot R \<and>
     rg_handles R' = rg_handles R \<and> rg_next R' = rg_next R \<and> rg_heads R' = rg_heads R \<and> rg_slots R' = rg_slots R"
proof -
  assume "only_world W key R R'"
  then obtain w where R': "R' = R\<lparr>rg_world := w\<rparr>" by (auto simp: only_world_def)
  show ?thesis unfolding R' by simp
qed

lemma held_cong: "find_head R' = find_head R \<Longrightarrow> held (R', P) = held (R, P)"
  by (rule ext)+ (simp add: held_def)

lemma inv_only_world:
  assumes inv: "reg_inv W (R, P)" and ow: "only_world W key R R'"
    and free: "\<And>i. \<not> held (R, P) i key"
    and opened: "\<And>n live old sl. P n = Some (Opened live old sl) \<Longrightarrow> next_key n live \<noteq> key"
  shows "reg_inv W (R', P)"
proof -
  note same = only_world_same [OF ow]
  have held: "held (R', P) = held (R, P)" using same by (intro held_cong) simp
  have kv: "k \<noteq> key \<Longrightarrow> w_kv W (rg_world R') k = w_kv W (rg_world R) k" for k
    using ow by (simp add: only_world_def)
  show ?thesis
  proof (rule reg_inv_I)
    fix n p assume p: "P n = Some p"
    from reg_inv_D(3) [OF inv p] opened [of n] p show "phase_ok W R' n p"
      by (cases p) (simp_all add: phase_ok_def same kv)
  next
    fix i k assume "held (R', P) i k"
    then have h: "held (R, P) i k" by (simp add: held)
    with free have "k \<noteq> key" by auto
    with reg_inv_D(4,5) [OF inv h] same kv
    show "i < rg_next R' \<and> (\<exists>sl. find_slot R' i = Some sl \<and> w_kv W (rg_world R') k = Some (ts_kv sl))" by auto
  qed (use inv same held in \<open>auto dest: reg_inv_D\<close>)
qed

lemma inv_acquire:
  assumes inv: "reg_inv W (R, P)"
  shows "reg_inv W (snd (Acquire name R), P)"
proof (cases "\<exists>h i. find_head R name = Some h \<and> th_slot h = Some i")
  case True
  then obtain h i where h: "find_head R name = Some h" "th_slot h = Some i" by blast
  then have R': "snd (Acquire name R) = R\<lparr>rg_handles := i # rg_handles R\<rparr>" by (simp add: Acquire_def)
  have held: "held (R\<lparr>rg_handles := i # rg_handles R\<rparr>, P) = held (R, P)" by (intro held_cong) simp
  have own: "\<exists>key. held (R, P) i key" using h by (auto simp: held_def)
  have ph: "phase_ok W (R\<lparr>rg_handles := i # rg_handles R\<rparr>) n p = phase_ok W R n p" for n p
    by (simp add: phase_ok_def split: phase.split)
  show ?thesis
    unfolding R' using inv own by (intro reg_inv_I) (auto simp: held ph dest: reg_inv_D)
next
  case False
  then have "snd (Acquire name R) = R" by (auto simp: Acquire_def split: option.split)
  with inv show ?thesis by simp
qed

lemma inv_release:
  assumes inv: "reg_inv W (R, P)"
  shows "reg_inv W (release i R, P)"
proof -
  have held: "held (release i R, P) = held (R, P)" by (intro held_cong) (simp add: release_def)
  have ph: "phase_ok W (release i R) n p = phase_ok W R n p" for n p
    by (simp add: phase_ok_def release_def split: phase.split)
  have hs: "set (rg_handles (release i R)) \<subseteq> set (rg_handles R)" by (simp add: release_def set_remove1_subset)
  have same: "find_head (release i R) = find_head R" "find_slot (release i R) = find_slot R"
    "rg_world (release i R) = rg_world R" "rg_next (release i R) = rg_next R" by (simp_all add: release_def)
  show ?thesis
    using inv hs by (intro reg_inv_I) (auto simp: held ph same dest: reg_inv_D)
qed

lemma name_not_held:
  assumes inv: "reg_inv W (R, P)" and "\<not> IsReservedReloadStagingDirName name" "find_head R name = None"
  shows "\<not> held (R, P) i name"
    and "P n = Some (Opened live old sl) \<Longrightarrow> next_key n live \<noteq> name"
proof -
  show "\<not> held (R, P) i name"
  proof
    assume h: "held (R, P) i name"
    obtain n b where n: "name = prev_key n b" "find_head R n \<noteq> None"
      using held_name [OF inv h] by metis
    have "n = name" using key_not_other_name [OF assms(2) n(1) [symmetric]] by simp
    with n(2) assms(3) show False by simp
  qed
  show "P n = Some (Opened live old sl) \<Longrightarrow> next_key n live \<noteq> name"
  proof
    assume P: "P n = Some (Opened live old sl)" and k: "next_key n live = name"
    have "find_head R n \<noteq> None" using reg_inv_D(3) [OF inv P] phase_head by blast
    with k key_not_other_name [OF assms(2), of n "\<not> live"] assms(3) show False by (simp add: next_key_prev)
  qed
qed

lemma find_head_append: "find_head (R\<lparr>rg_heads := rg_heads R @ [(name, h)]\<rparr>) n =
    (case find_head R n of Some h' \<Rightarrow> Some h' | None \<Rightarrow> if n = name then Some h else None)"
  by (simp add: find_head_def map_add_def split: option.split)

lemma inv_load:
  assumes W: "world_ok W" and inv: "reg_inv W (R, P)"
  shows "reg_inv W (snd (LoadTable W J dir R), P)"
  using W refl
proof (cases rule: LoadTable_cases [where R' = "snd (LoadTable W J dir R)" and J = J and dir = dir and R = R])
  case 1
  with inv show ?thesis by simp
next
  case 2
  with name_not_held [OF inv 2(1,2)] inv show ?thesis by (auto intro: inv_only_world)
next
  case (3 R1 sl)
  let ?name = "path_filename dir" and ?R' = "snd (LoadTable W J dir R)"
  have inv1: "reg_inv W (R1, P)"
    using inv_only_world [OF inv 3(3)] name_not_held [OF inv 3(1,2)] by auto
  have none: "find_head R1 ?name = None" using only_world_same [OF 3(3)] 3(2) by simp
  let ?h = "\<lparr>th_staging_is_live = False, th_slot = Some (rg_next R1)\<rparr>"
  have head: "find_head ?R' n = (if n = ?name then Some ?h else find_head R1 n)" for n
    using none by (simp add: 3(5) find_head_def map_add_def split: option.split)
  have slot: "find_slot ?R' i = (if i = rg_next R1 then Some sl else find_slot R1 i)" for i
    by (simp add: 3(5) find_slot_def)
  have world: "rg_world ?R' = rg_world R1" "rg_handles ?R' = rg_handles R1" "rg_next ?R' = rg_next R1 + 1"
    by (simp_all add: 3(5))
  have held: "held (?R', P) i key \<longleftrightarrow> (i = rg_next R1 \<and> key = ?name) \<or> held (R1, P) i key" for i key
  proof -
    have "(\<exists>n h. find_head ?R' n = Some h \<and> th_slot h = Some i \<and> key = prev_key n (th_staging_is_live h)) \<longleftrightarrow>
        (i = rg_next R1 \<and> key = ?name) \<or>
        (\<exists>n h. find_head R1 n = Some h \<and> th_slot h = Some i \<and> key = prev_key n (th_staging_is_live h))"
      (is "?L \<longleftrightarrow> ?A \<or> ?B")
    proof
      assume ?L
      then obtain n h where n: "find_head ?R' n = Some h" "th_slot h = Some i" "key = prev_key n (th_staging_is_live h)"
        by blast
      show "?A \<or> ?B"
      proof (cases "n = ?name")
        case True
        then have "h = ?h" using n(1) head by simp
        then have ?A using n(2,3) True by (simp add: prev_key_def)
        then show ?thesis ..
      next
        case False
        with n have ?B by (auto simp: head)
        then show ?thesis ..
      qed
    next
      assume "?A \<or> ?B"
      then show ?L
      proof
        assume ?A
        then show ?L by (intro exI [of _ ?name] exI [of _ ?h]) (simp add: head prev_key_def)
      next
        assume ?B
        then obtain n h where "find_head R1 n = Some h" "th_slot h = Some i" "key = prev_key n (th_staging_is_live h)"
          by blast
        moreover from this none have "n \<noteq> ?name" by auto
        ultimately show ?L by (intro exI [of _ n] exI [of _ h]) (simp add: head)
      qed
    qed
    then show ?thesis by (auto simp: held_def)
  qed
  have old: "held (R1, P) i key \<Longrightarrow> i \<noteq> rg_next R1" for i key
    using reg_inv_D(4) [OF inv1] by blast
  have noP: "P ?name = None"
    using reg_inv_D(3) [OF inv1, of ?name] none phase_head [of W R1 ?name] by (cases "P ?name") auto
  have ph: "P n = Some p \<Longrightarrow> phase_ok W ?R' n p" for n p
    using reg_inv_D(3) [OF inv1, of n p] noP
    by (cases p) (auto simp: phase_ok_def head world)
  show ?thesis
  proof (rule reg_inv_I)
    fix n h assume "find_head ?R' n = Some h"
    then show "\<not> IsReservedReloadStagingDirName n \<and> th_slot h \<noteq> None"
      using 3(1) reg_inv_D(1,2) [OF inv1] by (auto simp: head split: if_splits)
  next
    fix i key assume "held (?R', P) i key"
    then show "i < rg_next ?R' \<and> (\<exists>sl. find_slot ?R' i = Some sl \<and> w_kv W (rg_world ?R') key = Some (ts_kv sl))"
      using old reg_inv_D(4,5) [OF inv1] 3(4) by (auto simp: held slot world less_Suc_eq) 
  next
    fix i key key' assume "held (?R', P) i key" "held (?R', P) i key'"
    then show "key = key'" using old reg_inv_D(6) [OF inv1] by (auto simp: held)
  next
    fix i assume "i \<in> set (rg_handles ?R')"
    then show "\<exists>key. held (?R', P) i key" using reg_inv_D(7) [OF inv1] by (auto simp: held world)
  qed (rule ph)
qed

lemma next_key_free:
  assumes inv: "reg_inv W (R, P)" and "P name = None" "find_head R name = Some h"
  shows "\<not> held (R, P) i (next_key name (th_staging_is_live h))"
    and "P n = Some (Opened live old sl) \<Longrightarrow> next_key n live \<noteq> next_key name (th_staging_is_live h)"
proof -
  note un = reg_inv_D(1) [OF inv]
  show "\<not> held (R, P) i (next_key name (th_staging_is_live h))"
  proof
    assume a: "held (R, P) i (next_key name (th_staging_is_live h))"
    obtain n b where n: "next_key name (th_staging_is_live h) = prev_key n b"
      "\<not> IsReservedReloadStagingDirName n"
      "(\<exists>h. find_head R n = Some h \<and> th_staging_is_live h = b) \<or> P n = Some (Draining b i)"
      using held_name [OF inv a] by metis
    then have "name = n \<and> (\<not> th_staging_is_live h) = b"
      using keys_inject [OF un [OF assms(3)] n(2)] by (simp add: next_key_prev)
    with n(3) assms(2,3) show False by auto
  qed
  show "P n = Some (Opened live old sl) \<Longrightarrow> next_key n live \<noteq> next_key name (th_staging_is_live h)"
  proof
    assume P: "P n = Some (Opened live old sl)" and k: "next_key n live = next_key name (th_staging_is_live h)"
    then obtain h' where "find_head R n = Some h'" using reg_inv_D(3) [OF inv P] phase_head by blast
    then have "n = name" using k keys_inject [OF un un [OF assms(3)]] by (simp add: next_key_prev)
    with P assms(2) show False by simp
  qed
qed

lemma held_Opened:
  assumes "P name = None"
  shows "held (R, P(name \<mapsto> Opened live old sl)) = held (R, P)"
proof -
  have "(P(name \<mapsto> Opened live old sl)) n = Some (Draining l i) \<longleftrightarrow> P n = Some (Draining l i)" for n l i
    using assms by auto
  then show ?thesis by (intro ext) (simp only: held_def fst_conv snd_conv)
qed

lemma inv_prepare:
  assumes W: "world_ok W" and inv: "reg_inv W (R, P)"
    and "P name = None" "find_head R name = Some h" "th_slot h = Some old"
    and prep: "reload_prepare W J name (th_staging_is_live h) R = (res, R')"
  shows "reg_inv W (R', P)"
    and "res = Returns sl \<Longrightarrow> reg_inv W (R', P(name \<mapsto> Opened (th_staging_is_live h) old sl))"
proof -
  have ow: "only_world W (next_key name (th_staging_is_live h)) R R'"
    using reload_prepare_only(1) [OF W, of name "th_staging_is_live h" R J] prep by simp
  show inv': "reg_inv W (R', P)"
    by (rule inv_only_world [OF inv ow]) (use next_key_free [OF inv assms(3,4)] in auto)
  have head: "find_head R' name = Some \<lparr>th_staging_is_live = th_staging_is_live h, th_slot = Some old\<rparr>"
    using only_world_same [OF ow] assms(4,5) by (metis table_head.surjective unit.exhaust)
  show "reg_inv W (R', P(name \<mapsto> Opened (th_staging_is_live h) old sl))" if "res = Returns sl"
  proof (rule reg_inv_I)
    fix n p assume "(P(name \<mapsto> Opened (th_staging_is_live h) old sl)) n = Some p"
    then show "phase_ok W R' n p"
      using reg_inv_D(3) [OF inv'] head reload_prepare_only(2) [OF W prep [unfolded that]]
      by (auto simp: phase_ok_def split: if_splits)
  qed (use inv' in \<open>auto simp: held_Opened [of P name, OF assms(3)] dest: reg_inv_D\<close>)
qed

lemma inv_swap:
  assumes inv: "reg_inv W (R, P)" and ph: "P name = Some (Opened live old slot)"
  shows "reg_inv W (reload_swap name live old slot R, P(name \<mapsto> Draining live old))"
proof -
  let ?R' = "reload_swap name live old slot R" and ?P' = "P(name \<mapsto> Draining live old)"
  let ?h = "\<lparr>th_staging_is_live = \<not> live, th_slot = Some (rg_next R)\<rparr>"
  have hd0: "find_head R name = Some \<lparr>th_staging_is_live = live, th_slot = Some old\<rparr>"
    and kv: "w_kv W (rg_world R) (next_key name live) = Some (ts_kv slot)"
    using reg_inv_D(3) [OF inv ph] by (simp_all add: phase_ok_def)
  have head: "find_head ?R' n = (if n = name then Some ?h else find_head R n)" for n
    using hd0 by (simp add: reload_swap_def add_slot_def find_head_update)
  note head_eq = head
  have slot: "\<exists>s. find_slot ?R' i = Some s \<and> ts_kv s = ts_kv sl"
    if "find_slot R i = Some sl" "i \<noteq> rg_next R" for i sl
  proof -
    have "find_slot (R\<lparr>rg_slots := (rg_next R, slot) # rg_slots R, rg_next := rg_next R + 1\<rparr>) i = Some sl"
      using that by (simp add: find_slot_def)
    then show ?thesis by (simp add: reload_swap_def add_slot_def find_slot_stop)
  qed
  have new: "\<exists>s. find_slot ?R' (rg_next R) = Some s \<and> ts_kv s = ts_kv slot"
  proof -
    have "find_slot (R\<lparr>rg_slots := (rg_next R, slot) # rg_slots R, rg_next := rg_next R + 1\<rparr>) (rg_next R) = Some slot"
      by (simp add: find_slot_def)
    then show ?thesis by (simp add: reload_swap_def add_slot_def find_slot_stop)
  qed
  have rest: "rg_world ?R' = rg_world R" "rg_handles ?R' = rg_handles R" "rg_next ?R' = rg_next R + 1"
    by (simp_all add: reload_swap_def add_slot_def)
  have old_held: "held (R, P) old (prev_key name live)"
    unfolding held_def using hd0 by (intro disjI1 exI [of _ name]) simp
  have held: "held (?R', ?P') i key \<longleftrightarrow> (i = rg_next R \<and> key = next_key name live) \<or> held (R, P) i key" for i key
  proof
    assume "held (?R', ?P') i key"
    then show "(i = rg_next R \<and> key = next_key name live) \<or> held (R, P) i key"
    proof (cases rule: heldE)
      case (head n h)
      then show ?thesis
        using head_eq held_head [of R n h i P] by (cases "n = name") (auto simp: next_key_prev)
    next
      case (drain n l)
      then show ?thesis using old_held held_drain [of P n l i R] by (cases "n = name") auto
    qed
  next
    assume "(i = rg_next R \<and> key = next_key name live) \<or> held (R, P) i key"
    then show "held (?R', ?P') i key"
    proof
      assume "i = rg_next R \<and> key = next_key name live"
      then show ?thesis
        using held_head [of ?R' name ?h i ?P'] head by (simp add: next_key_prev)
    next
      assume "held (R, P) i key"
      then show ?thesis
      proof (cases rule: heldE)
        case (head n h)
        then show ?thesis
          using hd0 held_drain [of ?P' name live old ?R'] held_head [of ?R' n h i ?P']
            head_eq
          by (cases "n = name") auto
      next
        case (drain n l)
        with ph have "n \<noteq> name" by auto
        with drain held_drain [of ?P' n l i ?R'] show ?thesis by simp
      qed
    qed
  qed
  have fresh: "held (R, P) i key \<Longrightarrow> i \<noteq> rg_next R" for i key using reg_inv_D(4) [OF inv] by blast
  show ?thesis
  proof (rule reg_inv_I)
    fix n h assume "find_head ?R' n = Some h"
    then show "\<not> IsReservedReloadStagingDirName n \<and> th_slot h \<noteq> None"
      using reg_inv_D(1,2) [OF inv] hd0 by (auto simp: head split: if_splits)
  next
    fix n p assume "?P' n = Some p"
    then show "phase_ok W ?R' n p"
      using reg_inv_D(3) [OF inv, of n p]
      by (cases "n = name"; cases p) (auto simp: phase_ok_def head rest)
  next
    fix i key assume h: "held (?R', ?P') i key"
    show "i < rg_next ?R' \<and> (\<exists>sl. find_slot ?R' i = Some sl \<and> w_kv W (rg_world ?R') key = Some (ts_kv sl))"
    proof (cases "i = rg_next R \<and> key = next_key name live")
      case True
      with new kv show ?thesis by (auto simp: rest)
    next
      case False
      with h have h0: "held (R, P) i key" by (simp add: held)
      from reg_inv_D(4,5) [OF inv h0] slot [OF _ fresh [OF h0]] show ?thesis by (fastforce simp: rest)
    qed
  next
    fix i key key' assume "held (?R', ?P') i key" "held (?R', ?P') i key'"
    then show "key = key'" using fresh reg_inv_D(6) [OF inv] by (auto simp: held)
  next
    fix i assume "i \<in> set (rg_handles ?R')"
    then show "\<exists>key. held (?R', ?P') i key" using reg_inv_D(7) [OF inv] by (auto simp: held rest)
  qed
qed

lemma map_of_filter_key:
  "map_of (filter (\<lambda>(j, s). j \<noteq> k) xs) i = (if i = k then None else map_of xs i)"
  by (induction xs) auto

lemma inv_finish:
  assumes W: "world_ok W" and inv: "reg_inv W (R, P)" and ph: "P name = Some (Draining live old)"
    and dr: "drained old R"
    and fin: "reload_finish W name (prev_key name live) old R = (res, R')"
  shows "reg_inv W (R', P(name := None))"
proof -
  let ?P' = "P(name := None)" and ?key = "prev_key name live"
  let ?R0 = "R\<lparr>rg_slots := filter (\<lambda>(j, s). j \<noteq> old) (rg_slots R)\<rparr>"
  obtain i0 where hd0: "find_head R name = Some \<lparr>th_staging_is_live = \<not> live, th_slot = Some i0\<rparr>"
    using reg_inv_D(3) [OF inv ph] by (auto simp: phase_ok_def)
  note ow = reload_finish_only [OF W fin]
  note same = only_world_same [OF ow]
  have kv: "k \<noteq> ?key \<Longrightarrow> w_kv W (rg_world R') k = w_kv W (rg_world R) k" for k
    using ow by (simp add: only_world_def)
  have head: "find_head R' = find_head R" and nx: "rg_next R' = rg_next R" using same by simp_all
  have slot: "find_slot R' i = (if i = old then None else find_slot R i)" for i
    using same by (simp add: find_slot_def map_of_filter_key)
  have un: "find_head R n = Some h \<Longrightarrow> \<not> IsReservedReloadStagingDirName n" for n h
    using reg_inv_D(1) [OF inv] .
  have old_held: "held (R, P) old ?key" using ph by (auto simp: held_def)
  text \<open>No other holding uses the key that is closed.\<close>
  have held: "held (R, P) i key \<and> key \<noteq> ?key" if "held (R', ?P') i key" for i key
    using that
  proof (cases rule: heldE)
    case (head n h)
    then have n: "find_head R n = Some h" using same by simp
    with head keys_inject [OF un [OF n] un [OF hd0]] hd0 have "key \<noteq> ?key" by auto
    with head n held_head [of R n h i P] show ?thesis by simp
  next
    case (drain n l)
    then have n: "n \<noteq> name" "P n = Some (Draining l i)" by (auto split: if_splits)
    then obtain h where "find_head R n = Some h" using reg_inv_D(3) [OF inv] phase_head by blast
    from keys_inject [OF un [OF this] un [OF hd0]] drain n have "key \<noteq> ?key" by simp
    with drain n held_drain [of P n l i R] show ?thesis by simp
  qed
  have kept: "held (R', ?P') i key" if "held (R, P) i key" "i \<noteq> old" for i key
    using that(1)
  proof (cases rule: heldE)
    case (head n h)
    with same held_head [of R' n h i ?P'] show ?thesis by simp
  next
    case (drain n l)
    with that(2) ph have "n \<noteq> name" by auto
    with drain held_drain [of ?P' n l i R'] show ?thesis by simp
  qed
  have not_old: "held (R', ?P') i key \<Longrightarrow> i \<noteq> old" for i key
    using held [of i key] reg_inv_D(6) [OF inv old_held] by blast
  show ?thesis
  proof (rule reg_inv_I)
    fix n p assume "?P' n = Some p"
    then have n: "P n = Some p" "n \<noteq> name" by (auto split: if_splits)
    have p: "phase_ok W R n p" using reg_inv_D(3) [OF inv n(1)] .
    then obtain h where "find_head R n = Some h" using phase_head by blast
    then have "next_key n l \<noteq> ?key" for l
      using keys_inject [OF un un [OF hd0]] n(2) by (simp add: next_key_prev)
    with p show "phase_ok W R' n p" by (cases p) (simp_all add: phase_ok_def head kv)
  next
    fix i key assume h: "held (R', ?P') i key"
    with held not_old have h': "held (R, P) i key" "key \<noteq> ?key" "i \<noteq> old" by blast+
    then show "i < rg_next R' \<and> (\<exists>sl. find_slot R' i = Some sl \<and> w_kv W (rg_world R') key = Some (ts_kv sl))"
      using reg_inv_D(4,5) [OF inv h'(1)] by (simp add: slot kv nx)
  next
    fix i assume i: "i \<in> set (rg_handles R')"
    then have "i \<in> set (rg_handles R)" using same by simp
    moreover from this dr have "i \<noteq> old" by (auto simp: drained_def)
    ultimately show "\<exists>key. held (R', ?P') i key" using reg_inv_D(7) [OF inv] kept by blast
  qed (use inv held in \<open>auto simp: head dest: reg_inv_D\<close>)
qed

lemma reg_inv_step: "reg_step W J s a s' \<Longrightarrow> world_ok W \<Longrightarrow> reg_inv W s \<Longrightarrow> reg_inv W s'"
proof (induction rule: reg_step.induct)
  case (step_prepare P name R h old slot R')
  then show ?case using inv_prepare(2) by blast
next
  case (step_prepare_fails P name R h old e R')
  then show ?case using inv_prepare(1) by blast
qed (simp_all add: inv_acquire inv_release inv_load inv_swap inv_finish)

lemma reg_inv_reachable: "reachable W J s0 s \<Longrightarrow> world_ok W \<Longrightarrow> reg_inv W s0 \<Longrightarrow> reg_inv W s"
  by (induction rule: reachable.induct) (auto intro: reg_inv_step)

lemma reg_inv_init: "reg_inv W (TableRegistry_init w db_path brokers, \<lambda>n. None)"
  by (rule reg_inv_I) (auto simp: TableRegistry_init_def find_head_def held_def)

section \<open>Safety of the hot reload\<close>

lemma handle_open:
  assumes "reg_inv W (R, P)" "i \<in> set (rg_handles R)"
  shows "\<exists>key sl. find_slot R i = Some sl \<and> w_kv W (rg_world R) key = Some (ts_kv sl)"
  using reg_inv_D(7) [OF assms] reg_inv_D(5) [OF assms(1)] by blast

lemma acquire_live:
  assumes "reg_inv W (R, P)" "find_head R name = Some h"
  shows "\<exists>i sl. fst (Acquire name R) = Some i \<and> find_slot R i = Some sl \<and>
    w_kv W (rg_world R) (prev_key name (th_staging_is_live h)) = Some (ts_kv sl)"
proof -
  obtain i where i: "th_slot h = Some i" using reg_inv_D(2) [OF assms] by blast
  from reg_inv_D(5) [OF assms(1) held_head [OF assms(2) i]] i assms(2) show ?thesis
    by (auto simp: Acquire_def)
qed

text \<open>
  C6: No request ever works on a closed index. In every state reachable from the empty registry
  by any interleaving of requests, first loads and the phases of reloads (of several tables at
  once), the slot of every handle in flight exists and its index is open in the database.
\<close>

theorem no_handle_on_closed_index:
  assumes "world_ok W" and "reachable W J (TableRegistry_init w db_path brokers, \<lambda>n. None) (R, P)"
    and "i \<in> set (rg_handles R)"
  shows "\<exists>key sl. find_slot R i = Some sl \<and> w_kv W (rg_world R) key = Some (ts_kv sl)"
  using handle_open [OF reg_inv_reachable [OF assms(2,1) reg_inv_init] assms(3)] .

text \<open>
  C7: A reload has no window without an index. In every reachable state, also between the phases
  of a reload of that very table, acquiring a registered table succeeds, and the slot it gives
  has an open index.
\<close>

theorem reload_has_no_gap:
  assumes "world_ok W" and "reachable W J (TableRegistry_init w db_path brokers, \<lambda>n. None) (R, P)"
    and "find_head R name = Some h"
  shows "\<exists>i sl. fst (Acquire name R) = Some i \<and> find_slot R i = Some sl \<and>
    w_kv W (rg_world R) (prev_key name (th_staging_is_live h)) = Some (ts_kv sl)"
  using acquire_live [OF reg_inv_reachable [OF assms(2,1) reg_inv_init] assms(3)] .

text \<open>The numbers of the slots are given once: the next one is above them all.\<close>

definition slots_below :: "('w, 'r) registry \<Rightarrow> bool" where
  "slots_below R \<longleftrightarrow> (\<forall>x \<in> set (rg_slots R). fst x < rg_next R)"

lemma slots_below_load: "slots_below R \<Longrightarrow> slots_below (snd (LoadTable W J dir R))"
  by (auto simp: LoadTable_def Let_def close_then_def add_slot_def slots_below_def less_Suc_eq
      split: prod.split option.split sum.split ending.split)

lemma slots_below_step: "reg_step W J s a s' \<Longrightarrow> world_ok W \<Longrightarrow> slots_below (fst s) \<Longrightarrow> slots_below (fst s')"
proof (induction rule: reg_step.induct)
  case (step_acquire R P name)
  then show ?case by (auto simp: Acquire_def slots_below_def split: option.split)
next
  case (step_release i R P)
  then show ?case by (simp add: release_def slots_below_def)
next
  case (step_load R P dir)
  then show ?case by (simp add: slots_below_load)
next
  case (step_prepare P name R h old slot R')
  then show ?case
    using reload_prepare_only(1) [of W name "th_staging_is_live h" R J]
    by (simp add: only_world_def slots_below_def) (metis registry.select_convs(5,6) registry.surjective registry.update_convs(1))
next
  case (step_prepare_fails P name R h old e R')
  then show ?case
    using reload_prepare_only(1) [of W name "th_staging_is_live h" R J]
    by (simp add: only_world_def slots_below_def) (metis registry.select_convs(5,6) registry.surjective registry.update_convs(1))
next
  case (step_swap P name live old slot R)
  then show ?case by (auto simp: reload_swap_def add_slot_def stop_kafka_def update_head_def slots_below_def less_Suc_eq)
next
  case (step_finish P name live old R res R')
  then have ow: "only_world W (prev_key name live) (R\<lparr>rg_slots := filter (\<lambda>(j, s). j \<noteq> old) (rg_slots R)\<rparr>) R'"
    using reload_finish_only by blast
  then have "rg_slots R' = filter (\<lambda>(j, s). j \<noteq> old) (rg_slots R)" "rg_next R' = rg_next R"
    by (metis only_world_def registry.select_convs(5,6) registry.surjective registry.update_convs(1,5))+
  with step_finish show ?case by (simp add: slots_below_def)
qed

lemma slots_below_reachable: "reachable W J s0 s \<Longrightarrow> world_ok W \<Longrightarrow> slots_below (fst s0) \<Longrightarrow> slots_below (fst s)"
  by (induction rule: reachable.induct) (auto intro: slots_below_step)

lemma next_slot_free: "slots_below R \<Longrightarrow> find_slot R (rg_next R) = None"
  by (auto simp: slots_below_def find_slot_def map_of_eq_None_iff)

text \<open>The wait changes the handles only, and ends when none holds the old slot.\<close>

lemma reload_wait_drained:
  "reload_wait old polls R = Some R' \<Longrightarrow> \<exists>hs. R' = R\<lparr>rg_handles := hs\<rparr> \<and> old \<notin> set hs"
  by (induction polls arbitrary: R) (fastforce simp: Let_def drained_def split: if_splits)+

definition close_ok :: "('w, 'r) world \<Rightarrow> bool" where
  "close_ok W \<longleftrightarrow> (\<forall>w k. fst (w_close W w k) = None \<longrightarrow> w_kv W (snd (w_close W w k)) k = None)"

lemma reload_finish_closes:
  assumes "world_ok W" "close_ok W" "reload_finish W name prev old R = (res, R')"
  shows "res = Returns () \<and> w_kv W (rg_world R') prev = None \<or>
    (\<exists>e w. res = Throws e \<and> fst (w_close W w prev) = Some e)"
proof (cases "w_close W (rg_world R) prev")
  case (Pair c w)
  then have w: "c = None \<Longrightarrow> w_kv W w prev = None"
    using assms(2) unfolding close_ok_def by (metis fst_conv snd_conv)
  show ?thesis
  proof (cases c)
    case None
    with assms(3) Pair w remove_only [OF assms(1)] show ?thesis
      by (auto simp: reload_finish_def close_then_def Let_def split: if_splits)
  next
    case (Some e)
    with assms(3) Pair have "res = Throws e" "fst (w_close W (rg_world R) prev) = Some e"
      by (auto simp: reload_finish_def close_then_def Let_def)
    then show ?thesis by blast
  qed
qed

text \<open>
  C8: A reload is all or nothing for the live index. Take any reachable state and a table with a
  live slot, the index of which is open under the live key. When the reload of the table ends,
  there are two cases. Either the swap was made: the head has the slot of a number that no slot
  had, the index of which is open under the other key, and the staging flag is flipped; the old
  slot is gone, no request holds it, and the call returned with the index under the previous key
  closed, or it threw the exception with which that last close failed, which leaves the new slot
  in place. Or the call did not return normally, and the heads, the slots, the requests in flight
  and the index that was live are as they were.
\<close>

theorem reload_all_or_nothing:
  assumes "world_ok W" and "close_ok W"
    and "reachable W J (TableRegistry_init w db_path brokers, \<lambda>n. None) (R, P)"
    and "find_head R name = Some h"
    and "ReloadTable W J polls name R = Some (res, R')"
  shows "\<exists>old sl. th_slot h = Some old \<and> find_slot R old = Some sl \<and>
    w_kv W (rg_world R) (prev_key name (th_staging_is_live h)) = Some (ts_kv sl) \<and>
    ((\<exists>i slot. find_slot R i = None \<and>
        find_head R' name = Some \<lparr>th_staging_is_live = \<not> th_staging_is_live h, th_slot = Some i\<rparr> \<and>
        find_slot R' i = Some slot \<and>
        w_kv W (rg_world R') (next_key name (th_staging_is_live h)) = Some (ts_kv slot) \<and>
        find_slot R' old = None \<and> old \<notin> set (rg_handles R') \<and>
        (res = Returns () \<and> w_kv W (rg_world R') (prev_key name (th_staging_is_live h)) = None \<or>
         (\<exists>e w'. res = Throws e \<and> fst (w_close W w' (prev_key name (th_staging_is_live h))) = Some e))) \<or>
     (res \<noteq> Returns () \<and> rg_heads R' = rg_heads R \<and> rg_slots R' = rg_slots R \<and> rg_handles R' = rg_handles R \<and>
        w_kv W (rg_world R') (prev_key name (th_staging_is_live h)) = Some (ts_kv sl)))"
proof -
  let ?live = "th_staging_is_live h" and ?i = "rg_next R"
  let ?prev = "prev_key name ?live" and ?next = "next_key name ?live"
  note inv = reg_inv_reachable [OF assms(3,1) reg_inv_init]
  have below: "slots_below R"
    using slots_below_reachable [OF assms(3,1)] by (simp add: slots_below_def TableRegistry_init_def)
  obtain old where old: "th_slot h = Some old" using reg_inv_D(2) [OF inv assms(4)] by blast
  from reg_inv_D(4,5) [OF inv held_head [OF assms(4) old]] obtain sl where
    sl: "old < ?i" "find_slot R old = Some sl" "w_kv W (rg_world R) ?prev = Some (ts_kv sl)" by blast
  obtain r1 R1 where prep: "reload_prepare W J name ?live R = (r1, R1)" by fastforce
  have ow: "only_world W ?next R R1"
    using reload_prepare_only(1) [OF assms(1), of name ?live R J] prep by simp
  have ne: "?prev \<noteq> ?next"
    by (simp add: prev_key_def next_key_def ReloadStagingDbName_def reload_suffix_def)
  have same: "rg_heads R1 = rg_heads R" "rg_slots R1 = rg_slots R" "rg_handles R1 = rg_handles R" "rg_next R1 = ?i"
    using ow unfolding only_world_def
    by (metis registry.select_convs(4-7) registry.surjective registry.update_convs(1))+
  show ?thesis
  proof (cases "\<exists>slot. r1 = Returns slot")
    case True
    then obtain slot where r1: "r1 = Returns slot" by blast
    let ?S = "reload_swap name ?live old slot R1"
    from assms(4,5) old prep r1 obtain R2 where R2: "reload_wait old polls ?S = Some R2"
      "reload_finish W name ?prev old R2 = (res, R')"
      by (auto simp: ReloadTable_def Let_def split: option.splits)
    obtain hs where hs: "R2 = ?S\<lparr>rg_handles := hs\<rparr>" "old \<notin> set hs"
      using reload_wait_drained [OF R2(1)] by blast
    define F where "F = R2\<lparr>rg_slots := filter (\<lambda>(j, s). j \<noteq> old) (rg_slots R2)\<rparr>"
    have fin: "only_world W ?prev F R'" using reload_finish_only [OF assms(1) R2(2)] unfolding F_def .
    have F: "rg_heads R' = rg_heads R2" "rg_slots R' = filter (\<lambda>(j, s). j \<noteq> old) (rg_slots R2)" "rg_handles R' = hs"
      using fin hs unfolding only_world_def F_def
      by (metis registry.select_convs(4-7) registry.surjective registry.update_convs(1,5,7))+
    have head: "find_head R' name = Some \<lparr>th_staging_is_live = \<not> ?live, th_slot = Some ?i\<rparr>"
    proof -
      have "find_head ?S name = Some \<lparr>th_staging_is_live = \<not> ?live, th_slot = Some ?i\<rparr>"
        using only_world_same [OF ow] assms(4) by (simp add: reload_swap_def add_slot_def find_head_update same)
      with F(1) hs(1) show ?thesis by (simp add: find_head_def)
    qed
    have slots: "rg_slots ?S = (?i, slot) # rg_slots (stop_kafka old R1)"
      using sl(1) by (simp add: reload_swap_def add_slot_def stop_kafka_def update_head_def same)
    have new: "find_slot R' ?i = Some slot" "find_slot R' old = None"
      using sl(1) by (auto simp: find_slot_def F(2) hs(1) slots map_of_eq_None_iff)
    have "rg_world R2 = rg_world R1" by (simp add: hs(1) reload_swap_def add_slot_def stop_kafka_def update_head_def)
    moreover have "w_kv W (rg_world R') ?next = w_kv W (rg_world R2) ?next"
      using fin ne by (simp add: only_world_def F_def)
    ultimately have kv: "w_kv W (rg_world R') ?next = Some (ts_kv slot)"
      using reload_prepare_only(2) [OF assms(1) prep [unfolded r1]] by simp
    from next_slot_free [OF below] head new kv F(3) hs(2) reload_finish_closes [OF assms(1,2) R2(2)] old sl
    show ?thesis by blast
  next
    case False
    then have "R' = R1" "res \<noteq> Returns ()"
      using assms(4,5) old prep by (cases r1; auto simp: ReloadTable_def Let_def)+
    with same ow ne sl old show ?thesis by (auto simp: only_world_def)
  qed
qed

section \<open>A concrete world\<close>

text \<open>The open keys; an index is known by its key.\<close>

definition ex_world :: "(string list, string) world" where
  "ex_world = \<lparr>w_open = (\<lambda>w k. (None, k # w)), w_close = (\<lambda>w k. (None, removeAll k w)),
     w_kv = (\<lambda>w k. if k \<in> set w then Some k else None), w_schema = (\<lambda>w r. Some (mk_schema ''id'' [])),
     w_is_directory = (\<lambda>w p. True), w_entries = (\<lambda>w p. [(''db/t'', True), (''db/u'', True)]),
     w_canonical = (\<lambda>w p. Inr p), w_remove = (\<lambda>w p. w), w_symlink = (\<lambda>w p q. (None, w)),
     w_files = (\<lambda>w. ex_config_env\<lparr>fe_exists := (\<lambda>p. False)\<rparr>)\<rparr>"

lemma ex_world_ok: "world_ok ex_world"
  by (simp add: world_ok_def ex_world_def)

definition ex_reg0 :: "(string list, string) registry" where
  "ex_reg0 = TableRegistry_init [] ''db'' []"

definition ex_reg1 :: "(string list, string) registry" where
  "ex_reg1 = snd (Acquire ''t'' (snd (LoadTable ex_world ref_json ''db/t'' ex_reg0)))"

fun returned :: "'a ending \<Rightarrow> bool" where
  "returned (Returns x) = True"
| "returned _ = False"

definition ex_reg2 :: "(string list, string) registry" where
  "ex_reg2 = (case reload_prepare ex_world ref_json ''t'' False ex_reg1 of
     (Returns slot, R) \<Rightarrow> reload_swap ''t'' False 0 slot R | (_, R) \<Rightarrow> R)"

lemma ex_reg1_reachable:
  "reachable ex_world ref_json (TableRegistry_init [] ''db'' [], \<lambda>n. None) (ex_reg1, \<lambda>n. None)"
  unfolding ex_reg1_def ex_reg0_def by (rule reach_step [OF reach_step [OF reach_init step_load] step_acquire])

lemma ex_prepared:
  "\<exists>slot R. reload_prepare ex_world ref_json ''t'' False ex_reg1 = (Returns slot, R) \<and>
     ex_reg2 = reload_swap ''t'' False 0 slot R"
proof -
  have "returned (fst (reload_prepare ex_world ref_json ''t'' False ex_reg1))" by code_simp
  then obtain sl where "fst (reload_prepare ex_world ref_json ''t'' False ex_reg1) = Returns sl"
    by (cases "fst (reload_prepare ex_world ref_json ''t'' False ex_reg1)") simp_all
  then obtain R where "reload_prepare ex_world ref_json ''t'' False ex_reg1 = (Returns sl, R)"
    by (metis prod.collapse)
  then show ?thesis by (simp add: ex_reg2_def)
qed

text \<open>The state after the swap, with the request that holds the old slot still in flight.\<close>

lemma ex_reg2_reachable:
  "reachable ex_world ref_json (TableRegistry_init [] ''db'' [], \<lambda>n. None)
     (ex_reg2, (\<lambda>n. None)(''t'' \<mapsto> Draining False 0))"
proof -
  obtain slot R where pr: "reload_prepare ex_world ref_json ''t'' False ex_reg1 = (Returns slot, R)"
    and R: "ex_reg2 = reload_swap ''t'' False 0 slot R"
    using ex_prepared by blast
  have head: "find_head ex_reg1 ''t'' = Some \<lparr>th_staging_is_live = False, th_slot = Some 0\<rparr>"
    by code_simp
  have s1: "reg_step ex_world ref_json (ex_reg1, \<lambda>n. None) (Act_prepare ''t'')
      (R, (\<lambda>n. None)(''t'' \<mapsto> Opened False 0 slot))"
    using step_prepare [of "\<lambda>n. None" "''t''" ex_reg1 _ 0 ex_world ref_json slot R] head pr by force
  have s2: "reg_step ex_world ref_json (R, (\<lambda>n. None)(''t'' \<mapsto> Opened False 0 slot)) (Act_swap ''t'')
      (ex_reg2, (\<lambda>n. None)(''t'' \<mapsto> Opened False 0 slot, ''t'' \<mapsto> Draining False 0))"
    unfolding R by (rule step_swap) simp
  from reach_step [OF reach_step [OF ex_reg1_reachable s1] s2] show ?thesis by simp
qed

theorem no_handle_on_closed_index_witness:
  "\<exists>key sl. find_slot ex_reg2 0 = Some sl \<and> w_kv ex_world (rg_world ex_reg2) key = Some (ts_kv sl)"
proof (rule no_handle_on_closed_index [OF ex_world_ok ex_reg2_reachable])
  show "0 \<in> set (rg_handles ex_reg2)" by code_simp
qed

theorem reload_has_no_gap_witness:
  "\<exists>i sl. fst (Acquire ''t'' ex_reg2) = Some i \<and> find_slot ex_reg2 i = Some sl \<and>
    w_kv ex_world (rg_world ex_reg2) (prev_key ''t'' True) = Some (ts_kv sl)"
proof -
  have "find_head ex_reg2 ''t'' = Some \<lparr>th_staging_is_live = True, th_slot = Some 1\<rparr>" by code_simp
  from reload_has_no_gap [OF ex_world_ok ex_reg2_reachable this] show ?thesis by simp
qed

definition ex_reload :: "unit ending \<times> (string list, string) registry" where
  "ex_reload = the (ReloadTable ex_world ref_json [[0], [0], []] ''t'' ex_reg1)"

theorem reload_all_or_nothing_witness:
  "fst ex_reload = Returns () \<and> w_kv ex_world (rg_world (snd ex_reload)) ''t'' = None \<and>
   (\<exists>i slot. find_head (snd ex_reload) ''t'' = Some \<lparr>th_staging_is_live = True, th_slot = Some i\<rparr> \<and>
     find_slot (snd ex_reload) i = Some slot)"
proof -
  have head: "find_head ex_reg1 ''t'' = Some \<lparr>th_staging_is_live = False, th_slot = Some 0\<rparr>"
    by code_simp
  have run: "ReloadTable ex_world ref_json [[0], [0], []] ''t'' ex_reg1 \<noteq> None" by code_simp
  have ret: "fst ex_reload = Returns ()" by code_simp
  have close: "close_ok ex_world" by (simp add: close_ok_def ex_world_def)
  have key: "prev_key ''t'' False = ''t''" by (simp add: prev_key_def)
  have "ReloadTable ex_world ref_json [[0], [0], []] ''t'' ex_reg1 = Some (fst ex_reload, snd ex_reload)"
    using run by (auto simp: ex_reload_def)
  from reload_all_or_nothing [OF ex_world_ok close ex_reg1_reachable head this] ret show ?thesis
    by (auto simp: key)
qed

end
