(* ===== verification/Wire.thy ===== *)
theory Wire
  imports Engine
begin

text \<open>
  The FlatBuffers tables of the RPC contract, as \<open>gen/yikv_server_generated.h\<close> has them. A
  table is the record of the slots its vtable may hold: \<open>None\<close> is a slot that is not stored.
  An accessor reads a slot with its default (\<open>GetField\<close>, \<open>GetPointer\<close>); a \<open>Create\<close> function
  stores a scalar only when it differs from the default (\<open>AddElement\<close>) and an offset only when
  it is not null (\<open>AddOffset\<close>). The byte layout of a finished buffer belongs to the vendored
  FlatBuffers library and is not modelled.
\<close>

section \<open>\<open>ValueType\<close>\<close>

text \<open>\<open>vtype()\<close> casts a byte to the enum without a check, so a byte outside it is a value too.\<close>

datatype value_type =
    ValueType_NONE | ValueType_BOOL | ValueType_I32 | ValueType_I64 | ValueType_F32 | ValueType_F64
  | ValueType_STRING | ValueType_BYTES | ValueType_ARR_I32 | ValueType_ARR_I64 | ValueType_ARR_F32
  | ValueType_ARR_F64 | ValueType_ARR_STRING | ValueType_other u8

definition value_types :: "value_type list" where
  "value_types =
     [ValueType_NONE, ValueType_BOOL, ValueType_I32, ValueType_I64, ValueType_F32, ValueType_F64,
      ValueType_STRING, ValueType_BYTES, ValueType_ARR_I32, ValueType_ARR_I64, ValueType_ARR_F32,
      ValueType_ARR_F64, ValueType_ARR_STRING]"

definition value_type_of_byte :: "u8 \<Rightarrow> value_type" where
  "value_type_of_byte b = (if unat b < 13 then value_types ! unat b else ValueType_other b)"

fun byte_of_value_type :: "value_type \<Rightarrow> u8" where
  "byte_of_value_type ValueType_NONE = 0"
| "byte_of_value_type ValueType_BOOL = 1"
| "byte_of_value_type ValueType_I32 = 2"
| "byte_of_value_type ValueType_I64 = 3"
| "byte_of_value_type ValueType_F32 = 4"
| "byte_of_value_type ValueType_F64 = 5"
| "byte_of_value_type ValueType_STRING = 6"
| "byte_of_value_type ValueType_BYTES = 7"
| "byte_of_value_type ValueType_ARR_I32 = 8"
| "byte_of_value_type ValueType_ARR_I64 = 9"
| "byte_of_value_type ValueType_ARR_F32 = 10"
| "byte_of_value_type ValueType_ARR_F64 = 11"
| "byte_of_value_type ValueType_ARR_STRING = 12"
| "byte_of_value_type (ValueType_other b) = b"

section \<open>Slots: \<open>GetField\<close>, \<open>GetPointer\<close>, \<open>AddElement\<close>, \<open>AddOffset\<close>\<close>

definition get_field :: "'a \<Rightarrow> 'a option \<Rightarrow> 'a" where
  "get_field dflt slot = (case slot of None \<Rightarrow> dflt | Some v \<Rightarrow> v)"

definition add_element :: "'a \<Rightarrow> 'a \<Rightarrow> 'a option" where
  "add_element v dflt = (if v = dflt then None else Some v)"

text \<open>
  For floating point numbers \<open>AddElement\<close> compares with IEEE equality, under which a negative
  zero equals the default 0.
\<close>

fun add_element_f32 :: "f32 \<Rightarrow> f32 option" where
  "add_element_f32 (F32 w) = (if w = 0 \<or> w = 2 ^ 31 then None else Some (F32 w))"

fun add_element_f64 :: "f64 \<Rightarrow> f64 option" where
  "add_element_f64 (F64 w) = (if w = 0 \<or> w = 2 ^ 63 then None else Some (F64 w))"

lemma get_add_element [simp]: "get_field dflt (add_element v dflt) = v"
  by (simp add: get_field_def add_element_def)

text \<open>What a float reads back as: itself, but for the sign of a zero.\<close>

fun canon_f32 :: "f32 \<Rightarrow> f32" where
  "canon_f32 (F32 w) = (if w = 2 ^ 31 then F32 0 else F32 w)"

fun canon_f64 :: "f64 \<Rightarrow> f64" where
  "canon_f64 (F64 w) = (if w = 2 ^ 63 then F64 0 else F64 w)"

lemma get_add_f32 [simp]: "get_field (F32 0) (add_element_f32 v) = canon_f32 v"
  by (cases v) (simp add: get_field_def)

lemma get_add_f64 [simp]: "get_field (F64 0) (add_element_f64 v) = canon_f64 v"
  by (cases v) (simp add: get_field_def)

section \<open>\<open>FieldValue\<close> and \<open>Row\<close>\<close>

record field_value =
  fvs_field_id :: "u16 option"
  fvs_vtype :: "u8 option"
  fvs_i32 :: "i32 option"
  fvs_i64 :: "i64 option"
  fvs_f32 :: "f32 option"
  fvs_f64 :: "f64 option"
  fvs_s :: "string option"
  fvs_raw :: "string option"
  fvs_ai32 :: "i32 list option"
  fvs_ai64 :: "i64 list option"
  fvs_af32 :: "f32 list option"
  fvs_af64 :: "f64 list option"
  fvs_as :: "string option list option"

definition fv_field_id :: "field_value \<Rightarrow> u16" where "fv_field_id t = get_field 0 (fvs_field_id t)"
definition fv_vtype :: "field_value \<Rightarrow> value_type" where
  "fv_vtype t = value_type_of_byte (get_field 0 (fvs_vtype t))"
definition fv_i32 :: "field_value \<Rightarrow> i32" where "fv_i32 t = get_field 0 (fvs_i32 t)"
definition fv_i64 :: "field_value \<Rightarrow> i64" where "fv_i64 t = get_field 0 (fvs_i64 t)"
definition fv_f32 :: "field_value \<Rightarrow> f32" where "fv_f32 t = get_field (F32 0) (fvs_f32 t)"
definition fv_f64 :: "field_value \<Rightarrow> f64" where "fv_f64 t = get_field (F64 0) (fvs_f64 t)"
definition fv_s :: "field_value \<Rightarrow> string option" where "fv_s t = fvs_s t"
definition fv_raw :: "field_value \<Rightarrow> string option" where "fv_raw t = fvs_raw t"
definition fv_ai32 :: "field_value \<Rightarrow> i32 list option" where "fv_ai32 t = fvs_ai32 t"
definition fv_ai64 :: "field_value \<Rightarrow> i64 list option" where "fv_ai64 t = fvs_ai64 t"
definition fv_af32 :: "field_value \<Rightarrow> f32 list option" where "fv_af32 t = fvs_af32 t"
definition fv_af64 :: "field_value \<Rightarrow> f64 list option" where "fv_af64 t = fvs_af64 t"
definition fv_as :: "field_value \<Rightarrow> string option list option" where "fv_as t = fvs_as t"

definition CreateFieldValue ::
  "u16 \<Rightarrow> value_type \<Rightarrow> i32 \<Rightarrow> i64 \<Rightarrow> f32 \<Rightarrow> f64 \<Rightarrow> string option \<Rightarrow> string option \<Rightarrow>
   i32 list option \<Rightarrow> i64 list option \<Rightarrow> f32 list option \<Rightarrow> f64 list option \<Rightarrow>
   string option list option \<Rightarrow> field_value" where
  "CreateFieldValue fid vt i32 i64 f f' s raw ai32 ai64 af32 af64 as' =
     \<lparr>fvs_field_id = add_element fid 0,
      fvs_vtype = add_element (byte_of_value_type vt) 0,
      fvs_i32 = add_element i32 0,
      fvs_i64 = add_element i64 0,
      fvs_f32 = add_element_f32 f,
      fvs_f64 = add_element_f64 f',
      fvs_s = s, fvs_raw = raw,
      fvs_ai32 = ai32, fvs_ai64 = ai64, fvs_af32 = af32, fvs_af64 = af64, fvs_as = as'\<rparr>"

record row = rows_fields :: "field_value option list option"

definition row_fields :: "row \<Rightarrow> field_value option list option" where "row_fields t = rows_fields t"

definition CreateRow :: "field_value option list option \<Rightarrow> row" where
  "CreateRow fs = \<lparr>rows_fields = fs\<rparr>"

section \<open>Requests and responses\<close>

record get_request =
  gqs_pk :: "string option"
  gqs_table_name :: "string option"

record get_response =
  grs_found :: "u8 option"
  grs_err :: "string option"
  grs_row :: "row option"
  grs_index_get_ns :: "u64 option"

record put_request =
  pqs_row :: "row option"
  pqs_table_name :: "string option"

record put_response =
  prs_ok :: "u8 option"
  prs_err :: "string option"

record batch_get_request =
  bqs_pks :: "string option list option"
  bqs_table_name :: "string option"

record batch_get_response =
  brs_rows :: "row list option"
  brs_err :: "string option"

record put_batch_request =
  pbqs_rows :: "row option list option"
  pbqs_table_name :: "string option"

record put_batch_response =
  pbrs_ok :: "u8 option"
  pbrs_err :: "string option"

definition u8_of_bool :: "bool \<Rightarrow> u8" where "u8_of_bool b = (if b then 1 else 0)"

definition get_req_pk :: "get_request \<Rightarrow> string option" where "get_req_pk t = gqs_pk t"
definition get_req_table :: "get_request \<Rightarrow> string option" where "get_req_table t = gqs_table_name t"
definition CreateGetRequest :: "string option \<Rightarrow> string option \<Rightarrow> get_request" where
  "CreateGetRequest pk tname = \<lparr>gqs_pk = pk, gqs_table_name = tname\<rparr>"

definition get_resp_found :: "get_response \<Rightarrow> bool" where "get_resp_found t = (get_field 0 (grs_found t) \<noteq> 0)"
definition get_resp_err :: "get_response \<Rightarrow> string option" where "get_resp_err t = grs_err t"
definition get_resp_row :: "get_response \<Rightarrow> row option" where "get_resp_row t = grs_row t"
definition get_resp_ns :: "get_response \<Rightarrow> u64" where "get_resp_ns t = get_field 0 (grs_index_get_ns t)"
definition CreateGetResponse :: "bool \<Rightarrow> string option \<Rightarrow> row option \<Rightarrow> u64 \<Rightarrow> get_response" where
  "CreateGetResponse found err r ns =
     \<lparr>grs_found = add_element (u8_of_bool found) 0, grs_err = err, grs_row = r,
      grs_index_get_ns = add_element ns 0\<rparr>"

definition put_req_row :: "put_request \<Rightarrow> row option" where "put_req_row t = pqs_row t"
definition put_req_table :: "put_request \<Rightarrow> string option" where "put_req_table t = pqs_table_name t"

definition put_resp_ok :: "put_response \<Rightarrow> bool" where "put_resp_ok t = (get_field 0 (prs_ok t) \<noteq> 0)"
definition put_resp_err :: "put_response \<Rightarrow> string option" where "put_resp_err t = prs_err t"
definition CreatePutResponse :: "bool \<Rightarrow> string option \<Rightarrow> put_response" where
  "CreatePutResponse ok err = \<lparr>prs_ok = add_element (u8_of_bool ok) 0, prs_err = err\<rparr>"

definition batch_get_req_pks :: "batch_get_request \<Rightarrow> string option list option" where
  "batch_get_req_pks t = bqs_pks t"
definition batch_get_req_table :: "batch_get_request \<Rightarrow> string option" where
  "batch_get_req_table t = bqs_table_name t"

definition batch_get_resp_rows :: "batch_get_response \<Rightarrow> row list option" where
  "batch_get_resp_rows t = brs_rows t"
definition batch_get_resp_err :: "batch_get_response \<Rightarrow> string option" where
  "batch_get_resp_err t = brs_err t"
definition CreateBatchGetResponse :: "row list option \<Rightarrow> string option \<Rightarrow> batch_get_response" where
  "CreateBatchGetResponse rs err = \<lparr>brs_rows = rs, brs_err = err\<rparr>"

definition put_batch_req_rows :: "put_batch_request \<Rightarrow> row option list option" where
  "put_batch_req_rows t = pbqs_rows t"
definition put_batch_req_table :: "put_batch_request \<Rightarrow> string option" where
  "put_batch_req_table t = pbqs_table_name t"

definition put_batch_resp_ok :: "put_batch_response \<Rightarrow> bool" where
  "put_batch_resp_ok t = (get_field 0 (pbrs_ok t) \<noteq> 0)"
definition put_batch_resp_err :: "put_batch_response \<Rightarrow> string option" where
  "put_batch_resp_err t = pbrs_err t"
definition CreatePutBatchResponse :: "bool \<Rightarrow> string option \<Rightarrow> put_batch_response" where
  "CreatePutBatchResponse ok err = \<lparr>pbrs_ok = add_element (u8_of_bool ok) 0, pbrs_err = err\<rparr>"

section \<open>Reading back what was created\<close>

lemma value_type_of_byte_of [simp]:
  "(\<forall>b. vt \<noteq> ValueType_other b) \<Longrightarrow> value_type_of_byte (byte_of_value_type vt) = vt"
  by (cases vt) (simp_all add: value_type_of_byte_def value_types_def)

text \<open>The only enumerator-sized bytes the enum leaves out are the ones from 13 on.\<close>

lemma value_type_of_byte_other: "value_type_of_byte b = ValueType_other c \<Longrightarrow> b = c \<and> 13 \<le> unat b"
proof -
  assume a: "value_type_of_byte b = ValueType_other c"
  have "\<forall>x \<in> set value_types. x \<noteq> ValueType_other c" by (simp add: value_types_def)
  moreover have "length value_types = 13" by (simp add: value_types_def)
  ultimately have "\<not> unat b < 13"
    using a nth_mem [of "unat b" value_types] by (auto simp: value_type_of_byte_def)
  with a show ?thesis by (simp add: value_type_of_byte_def)
qed

lemma field_value_access:
  "fv_field_id (CreateFieldValue fid vt a b c d s raw l1 l2 l3 l4 l5) = fid"
  "fv_i32 (CreateFieldValue fid vt a b c d s raw l1 l2 l3 l4 l5) = a"
  "fv_i64 (CreateFieldValue fid vt a b c d s raw l1 l2 l3 l4 l5) = b"
  "fv_f32 (CreateFieldValue fid vt a b c d s raw l1 l2 l3 l4 l5) = canon_f32 c"
  "fv_f64 (CreateFieldValue fid vt a b c d s raw l1 l2 l3 l4 l5) = canon_f64 d"
  "fv_s (CreateFieldValue fid vt a b c d s raw l1 l2 l3 l4 l5) = s"
  "fv_raw (CreateFieldValue fid vt a b c d s raw l1 l2 l3 l4 l5) = raw"
  "fv_ai32 (CreateFieldValue fid vt a b c d s raw l1 l2 l3 l4 l5) = l1"
  "fv_ai64 (CreateFieldValue fid vt a b c d s raw l1 l2 l3 l4 l5) = l2"
  "fv_af32 (CreateFieldValue fid vt a b c d s raw l1 l2 l3 l4 l5) = l3"
  "fv_af64 (CreateFieldValue fid vt a b c d s raw l1 l2 l3 l4 l5) = l4"
  "fv_as (CreateFieldValue fid vt a b c d s raw l1 l2 l3 l4 l5) = l5"
  by (simp_all add: CreateFieldValue_def fv_field_id_def fv_i32_def fv_i64_def fv_f32_def fv_f64_def
      fv_s_def fv_raw_def fv_ai32_def fv_ai64_def fv_af32_def fv_af64_def fv_as_def)

lemma field_value_vtype:
  "(\<forall>x. vt \<noteq> ValueType_other x) \<Longrightarrow>
   fv_vtype (CreateFieldValue fid vt a b c d s raw l1 l2 l3 l4 l5) = vt"
  by (simp add: CreateFieldValue_def fv_vtype_def)

lemmas created_access [simp] = field_value_access field_value_vtype

lemma response_access [simp]:
  "get_resp_found (CreateGetResponse found err r ns) = found"
  "get_resp_err (CreateGetResponse found err r ns) = err"
  "get_resp_row (CreateGetResponse found err r ns) = r"
  "get_resp_ns (CreateGetResponse found err r ns) = ns"
  "put_resp_ok (CreatePutResponse found err) = found"
  "put_resp_err (CreatePutResponse found err) = err"
  "batch_get_resp_rows (CreateBatchGetResponse rs err) = rs"
  "batch_get_resp_err (CreateBatchGetResponse rs err) = err"
  "put_batch_resp_ok (CreatePutBatchResponse found err) = found"
  "put_batch_resp_err (CreatePutBatchResponse found err) = err"
  "row_fields (CreateRow fs) = fs"
  "get_req_pk (CreateGetRequest p q) = p"
  "get_req_table (CreateGetRequest p q) = q"
  by (simp_all add: CreateGetResponse_def CreatePutResponse_def CreateBatchGetResponse_def
      CreatePutBatchResponse_def CreateRow_def CreateGetRequest_def get_resp_found_def get_resp_err_def
      get_resp_row_def get_resp_ns_def put_resp_ok_def put_resp_err_def batch_get_resp_rows_def
      batch_get_resp_err_def put_batch_resp_ok_def put_batch_resp_err_def row_fields_def
      get_req_pk_def get_req_table_def u8_of_bool_def)

lemma CreateRow_inject [simp]: "CreateRow a = CreateRow b \<longleftrightarrow> a = b"
  by (simp add: CreateRow_def)

end
