(* ===== verification/Handlers.thy ===== *)
theory Handlers
  imports Wire Registry RefEngine
begin

text \<open>
  \<open>db/handlers.cc\<close>: the four RPC handlers. A handler decodes a request, acquires the table,
  works on its index and builds the response. The state is the registry with the contents of
  the indexes it refers to. The locks a handler takes make its body one step; the handle it
  acquires is released when it returns.
\<close>

record handler_status =
  hs_ok :: bool
  hs_err :: string

definition HandlerStatus_Ok :: handler_status where
  "HandlerStatus_Ok = \<lparr>hs_ok = True, hs_err = []\<rparr>"

definition HandlerStatus_Fail :: "string \<Rightarrow> handler_status" where
  "HandlerStatus_Fail e = \<lparr>hs_ok = False, hs_err = e\<rparr>"

lemma hs_simps [simp]:
  "hs_ok HandlerStatus_Ok" "\<not> hs_ok (HandlerStatus_Fail e)" "hs_err (HandlerStatus_Fail e) = e"
  "HandlerStatus_Ok \<noteq> HandlerStatus_Fail e"
  by (simp_all add: HandlerStatus_Ok_def HandlerStatus_Fail_def)

section \<open>From a row to a document\<close>

definition FieldTypeMismatch :: "('d, 'k) engine \<Rightarrow> field_def \<Rightarrow> string" where
  "FieldTypeMismatch E def =
     ''field_id '' @ to_string_u (fd_id def) @ '' type mismatch for schema '' @ data_type_name E (fd_type def)"

definition FieldValueMatchesSchema :: "field_def \<Rightarrow> value_type \<Rightarrow> bool" where
  "FieldValueMatchesSchema def vt =
     (if fd_array def then
        (case fd_type def of
           DT_Int32 \<Rightarrow> vt = ValueType_ARR_I32
         | DT_Int64 \<Rightarrow> vt = ValueType_ARR_I64
         | DT_Float32 \<Rightarrow> vt = ValueType_ARR_F32
         | DT_Float64 \<Rightarrow> vt = ValueType_ARR_F64
         | DT_String \<Rightarrow> vt = ValueType_ARR_STRING
         | _ \<Rightarrow> False)
      else
        (case fd_type def of
           DT_Bool \<Rightarrow> vt = ValueType_BOOL
         | DT_Int32 \<Rightarrow> vt = ValueType_I32
         | DT_Int64 \<Rightarrow> vt = ValueType_I64
         | DT_Float32 \<Rightarrow> vt = ValueType_F32
         | DT_Float64 \<Rightarrow> vt = ValueType_F64
         | DT_String \<Rightarrow> vt = ValueType_STRING
         | DT_Bytes \<Rightarrow> vt = ValueType_BYTES))"

text \<open>A null pointer where a string is expected reads as the empty string.\<close>

definition str_or_empty :: "string option \<Rightarrow> string" where
  "str_or_empty s = (case s of None \<Rightarrow> [] | Some t \<Rightarrow> t)"

definition apply_value ::
  "('d, 'k) engine \<Rightarrow> u32 \<Rightarrow> field_value \<Rightarrow> 'd \<Rightarrow> handler_status \<times> 'd" where
  "apply_value E fid fv doc =
     (case fv_vtype fv of
        ValueType_BOOL \<Rightarrow> (HandlerStatus_Ok, put_int32 E doc fid (if fv_i32 fv \<noteq> 0 then 1 else 0))
      | ValueType_I32 \<Rightarrow> (HandlerStatus_Ok, put_int32 E doc fid (fv_i32 fv))
      | ValueType_I64 \<Rightarrow> (HandlerStatus_Ok, put_int64 E doc fid (fv_i64 fv))
      | ValueType_F32 \<Rightarrow> (HandlerStatus_Ok, put_float E doc fid (fv_f32 fv))
      | ValueType_F64 \<Rightarrow> (HandlerStatus_Ok, put_double E doc fid (fv_f64 fv))
      | ValueType_STRING \<Rightarrow> (HandlerStatus_Ok, put_string E doc fid (str_or_empty (fv_s fv)))
      | ValueType_BYTES \<Rightarrow>
          (HandlerStatus_Ok,
           (case fv_raw fv of Some b \<Rightarrow> put_string E doc fid b | None \<Rightarrow> put_string E doc fid []))
      | ValueType_ARR_I32 \<Rightarrow>
          (HandlerStatus_Ok, (case fv_ai32 fv of Some v \<Rightarrow> array_put_int32 E doc fid v | None \<Rightarrow> doc))
      | ValueType_ARR_I64 \<Rightarrow>
          (HandlerStatus_Ok, (case fv_ai64 fv of Some v \<Rightarrow> array_put_int64 E doc fid v | None \<Rightarrow> doc))
      | ValueType_ARR_F32 \<Rightarrow>
          (HandlerStatus_Ok, (case fv_af32 fv of Some v \<Rightarrow> array_put_float E doc fid v | None \<Rightarrow> doc))
      | ValueType_ARR_F64 \<Rightarrow>
          (HandlerStatus_Ok, (case fv_af64 fv of Some v \<Rightarrow> array_put_double E doc fid v | None \<Rightarrow> doc))
      | ValueType_ARR_STRING \<Rightarrow>
          (HandlerStatus_Ok,
           (case fv_as fv of Some v \<Rightarrow> array_put_string E doc fid (map str_or_empty v) | None \<Rightarrow> doc))
      | _ \<Rightarrow>
          (HandlerStatus_Fail (''unsupported ValueType for field_id '' @ to_string_u (fv_field_id fv)), doc))"

fun apply_fields ::
  "('d, 'k) engine \<Rightarrow> schema \<Rightarrow> field_value option list \<Rightarrow> 'd \<Rightarrow> handler_status \<times> 'd" where
  "apply_fields E S [] doc = (HandlerStatus_Ok, doc)"
| "apply_fields E S (None # fvs) doc = apply_fields E S fvs doc"
| "apply_fields E S (Some fv # fvs) doc =
     (case sc_find_id S (fv_field_id fv) of
        None \<Rightarrow> (HandlerStatus_Fail (''unknown field_id '' @ to_string_u (fv_field_id fv)), doc)
      | Some def \<Rightarrow>
          if \<not> FieldValueMatchesSchema def (fv_vtype fv) then
            (HandlerStatus_Fail (FieldTypeMismatch E def), doc)
          else (case apply_value E (fd_id def) fv doc of
                  (st, doc') \<Rightarrow> if hs_ok st then apply_fields E S fvs doc' else (st, doc')))"

definition ApplyRowToDoc ::
  "('d, 'k) engine \<Rightarrow> schema \<Rightarrow> row option \<Rightarrow> 'd \<Rightarrow> handler_status \<times> 'd" where
  "ApplyRowToDoc E S r doc =
     (case r of None \<Rightarrow> (HandlerStatus_Ok, doc)
      | Some r \<Rightarrow>
          (case row_fields r of None \<Rightarrow> (HandlerStatus_Ok, doc) | Some fvs \<Rightarrow> apply_fields E S fvs doc))"

definition db_ExtractPkString :: "('d, 'k) engine \<Rightarrow> schema \<Rightarrow> 'd \<Rightarrow> string" where
  "db_ExtractPkString E S doc =
     (case sc_find S (sc_pk S) of
        None \<Rightarrow> []
      | Some pk \<Rightarrow>
          (case fd_type pk of
             DT_Bool \<Rightarrow> to_string_i32 (get_int32 E doc (fd_id pk))
           | DT_Int32 \<Rightarrow> to_string_i32 (get_int32 E doc (fd_id pk))
           | DT_Int64 \<Rightarrow> to_string_i64 (get_int64 E doc (fd_id pk))
           | DT_String \<Rightarrow> get_string E doc (fd_id pk)
           | _ \<Rightarrow> []))"

section \<open>From a document to a row\<close>

text \<open>An empty array is sent as an absent vector.\<close>

definition vector_or_null :: "'a list \<Rightarrow> 'a list option" where
  "vector_or_null v = (if v = [] then None else Some v)"

definition BuildFieldValue :: "('d, 'k) engine \<Rightarrow> 'd \<Rightarrow> field_def \<Rightarrow> field_value" where
  "BuildFieldValue E doc def =
     (let fid = fd_id def; id = ucast fid :: u16; z = F32 0; z' = F64 0 in
      if fd_array def then
        (case fd_type def of
           DT_Int32 \<Rightarrow> CreateFieldValue id ValueType_ARR_I32 0 0 z z' None None
             (vector_or_null (array_view_int32 E doc fid)) None None None None
         | DT_Int64 \<Rightarrow> CreateFieldValue id ValueType_ARR_I64 0 0 z z' None None
             None (vector_or_null (array_view_int64 E doc fid)) None None None
         | DT_Float32 \<Rightarrow> CreateFieldValue id ValueType_ARR_F32 0 0 z z' None None
             None None (vector_or_null (array_view_float E doc fid)) None None
         | DT_Float64 \<Rightarrow> CreateFieldValue id ValueType_ARR_F64 0 0 z z' None None
             None None None (vector_or_null (array_view_double E doc fid)) None
         | DT_String \<Rightarrow> CreateFieldValue id ValueType_ARR_STRING 0 0 z z' None None
             None None None None
             (vector_or_null (map (\<lambda>i. Some (array_get_string E doc fid i)) [0..<array_size E doc fid]))
         | _ \<Rightarrow> CreateFieldValue id ValueType_NONE 0 0 z z' None None None None None None None)
      else
        (case fd_type def of
           DT_Bool \<Rightarrow> CreateFieldValue id ValueType_BOOL (if get_int32 E doc fid \<noteq> 0 then 1 else 0) 0 z z'
             None None None None None None None
         | DT_Int32 \<Rightarrow> CreateFieldValue id ValueType_I32 (get_int32 E doc fid) 0 z z'
             None None None None None None None
         | DT_Int64 \<Rightarrow> CreateFieldValue id ValueType_I64 0 (get_int64 E doc fid) z z'
             None None None None None None None
         | DT_Float32 \<Rightarrow> CreateFieldValue id ValueType_F32 0 0 (get_float E doc fid) z'
             None None None None None None None
         | DT_Float64 \<Rightarrow> CreateFieldValue id ValueType_F64 0 0 z (get_double E doc fid)
             None None None None None None None
         | DT_String \<Rightarrow> CreateFieldValue id ValueType_STRING 0 0 z z'
             (Some (get_string E doc fid)) None None None None None None
         | DT_Bytes \<Rightarrow> CreateFieldValue id ValueType_BYTES 0 0 z z'
             None (Some (get_string E doc fid)) None None None None None))"

definition BuildRow :: "('d, 'k) engine \<Rightarrow> 'd \<Rightarrow> schema \<Rightarrow> row" where
  "BuildRow E doc S = CreateRow (Some (map (\<lambda>def. Some (BuildFieldValue E doc def)) (sc_fields S)))"

section \<open>The handlers\<close>

record ('w, 'r, 'k) server =
  sr_registry :: "('w, 'r) registry"
  sr_index :: "'r \<Rightarrow> 'k"

text \<open>
  Left: the error to answer with. Right: the handle, with the slot it refers to. (A handle always
  refers to a slot: the last case is excluded by the invariant of \<open>RegistrySafety\<close>.)
\<close>

definition AcquireOrError ::
  "string option \<Rightarrow> ('w, 'r) registry \<Rightarrow> (string + nat \<times> 'r table_slot) \<times> ('w, 'r) registry" where
  "AcquireOrError tname R =
     (case tname of
        None \<Rightarrow> (Inl ''missing table_name in request'', R)
      | Some t \<Rightarrow>
          if t = [] then (Inl ''missing table_name in request'', R)
          else (case Acquire t R of
            (None, R') \<Rightarrow> (Inl (''unknown table: '' @ t), R')
          | (Some i, R') \<Rightarrow>
              (case find_slot R' i of
                 None \<Rightarrow> (Inl (''unknown table: '' @ t), R)
               | Some slot \<Rightarrow> (Inr (i, slot), R'))))"

text \<open>The index of a slot, and the release of the handle at the end of the request.\<close>

definition slot_index :: "('w, 'r, 'k) server \<Rightarrow> 'r table_slot \<Rightarrow> 'k" where
  "slot_index s slot = sr_index s (ts_kv slot)"

definition finish_read :: "nat \<Rightarrow> ('w, 'r) registry \<Rightarrow> ('w, 'r, 'k) server \<Rightarrow> ('w, 'r, 'k) server" where
  "finish_read i R s = s\<lparr>sr_registry := release i R\<rparr>"

definition finish_write ::
  "nat \<Rightarrow> ('w, 'r) registry \<Rightarrow> 'r \<Rightarrow> 'k \<Rightarrow> ('w, 'r, 'k) server \<Rightarrow> ('w, 'r, 'k) server" where
  "finish_write i R kv idx s = s\<lparr>sr_registry := release i R, sr_index := (sr_index s)(kv := idx)\<rparr>"

text \<open>\<open>ns\<close> is the measured duration of the lookup.\<close>

definition HandleGet ::
  "('d, 'k) engine \<Rightarrow> u64 \<Rightarrow> get_request \<Rightarrow> ('w, 'r, 'k) server \<Rightarrow> get_response \<times> ('w, 'r, 'k) server" where
  "HandleGet E ns req s =
     (let error_resp = (\<lambda>msg. CreateGetResponse False (Some msg) None 0) in
      case get_req_pk req of
        None \<Rightarrow> (error_resp ''missing pk'', s)
      | Some pk \<Rightarrow>
          (case AcquireOrError (get_req_table req) (sr_registry s) of
             (Inl msg, R) \<Rightarrow> (error_resp msg, s\<lparr>sr_registry := R\<rparr>)
           | (Inr (i, slot), R) \<Rightarrow>
               (case kv_get E (slot_index s slot) pk of
                  None \<Rightarrow> (CreateGetResponse False (Some []) None ns, finish_read i R s)
                | Some doc \<Rightarrow>
                    (CreateGetResponse True (Some []) (Some (BuildRow E doc (ts_schema slot))) ns,
                     finish_read i R s))))"

definition HandlePut ::
  "('d, 'k) engine \<Rightarrow> put_request \<Rightarrow> ('w, 'r, 'k) server \<Rightarrow> put_response \<times> ('w, 'r, 'k) server" where
  "HandlePut E req s =
     (let error_resp = (\<lambda>msg. CreatePutResponse False (Some msg)) in
      case put_req_row req of
        None \<Rightarrow> (error_resp ''missing row'', s)
      | Some r \<Rightarrow>
          (case AcquireOrError (put_req_table req) (sr_registry s) of
             (Inl msg, R) \<Rightarrow> (error_resp msg, s\<lparr>sr_registry := R\<rparr>)
           | (Inr (i, slot), R) \<Rightarrow>
               let idx = slot_index s slot;
                   (st, doc) = ApplyRowToDoc E (ts_schema slot) (Some r) (new_doc E idx)
               in if \<not> hs_ok st then (error_resp (hs_err st), finish_read i R s)
                  else if db_ExtractPkString E (ts_schema slot) doc = [] then
                    (error_resp ''cannot derive pk (check pk field type in schema)'', finish_read i R s)
                  else (CreatePutResponse True (Some []),
                        finish_write i R (ts_kv slot) (kv_upsert E idx doc) s)))"

text \<open>The rows are staged in order; the first that fails gives the error.\<close>

fun stage_rows ::
  "('d, 'k) engine \<Rightarrow> schema \<Rightarrow> 'k \<Rightarrow> row option list \<Rightarrow> string + 'd list" where
  "stage_rows E S idx [] = Inr []"
| "stage_rows E S idx (None # rows) = Inl ''null row in batch''"
| "stage_rows E S idx (Some r # rows) =
     (case ApplyRowToDoc E S (Some r) (new_doc E idx) of
        (st, doc) \<Rightarrow>
          if \<not> hs_ok st then Inl (hs_err st)
          else if db_ExtractPkString E S doc = [] then Inl ''cannot derive pk''
          else (case stage_rows E S idx rows of Inl e \<Rightarrow> Inl e | Inr docs \<Rightarrow> Inr (doc # docs)))"

definition HandlePutBatch ::
  "('d, 'k) engine \<Rightarrow> put_batch_request \<Rightarrow> ('w, 'r, 'k) server \<Rightarrow> put_batch_response \<times> ('w, 'r, 'k) server" where
  "HandlePutBatch E req s =
     (let error_resp = (\<lambda>msg. CreatePutBatchResponse False (Some msg)) in
      case put_batch_req_rows req of
        None \<Rightarrow> (error_resp ''missing rows'', s)
      | Some rows \<Rightarrow>
          (case AcquireOrError (put_batch_req_table req) (sr_registry s) of
             (Inl msg, R) \<Rightarrow> (error_resp msg, s\<lparr>sr_registry := R\<rparr>)
           | (Inr (i, slot), R) \<Rightarrow>
               if rows = [] then (error_resp ''empty batch'', finish_read i R s)
               else let idx = slot_index s slot in
                 (case stage_rows E (ts_schema slot) idx rows of
                    Inl msg \<Rightarrow> (error_resp msg, finish_read i R s)
                  | Inr staged \<Rightarrow>
                      (CreatePutBatchResponse True (Some []),
                       finish_write i R (ts_kv slot) (kv_batch_upsert E idx staged) s))))"

definition HandleBatchGet ::
  "('d, 'k) engine \<Rightarrow> batch_get_request \<Rightarrow> ('w, 'r, 'k) server \<Rightarrow> batch_get_response \<times> ('w, 'r, 'k) server" where
  "HandleBatchGet E req s =
     (let error_resp = (\<lambda>msg. CreateBatchGetResponse None (Some msg)) in
      case batch_get_req_pks req of
        None \<Rightarrow> (error_resp ''missing pks'', s)
      | Some pks \<Rightarrow>
          (case AcquireOrError (batch_get_req_table req) (sr_registry s) of
             (Inl msg, R) \<Rightarrow> (error_resp msg, s\<lparr>sr_registry := R\<rparr>)
           | (Inr (i, slot), R) \<Rightarrow>
               (CreateBatchGetResponse
                  (Some (map (\<lambda>pk.
                     case pk of None \<Rightarrow> CreateRow None
                     | Some p \<Rightarrow>
                         (case kv_get E (slot_index s slot) p of
                            None \<Rightarrow> CreateRow None
                          | Some doc \<Rightarrow> BuildRow E doc (ts_schema slot))) pks))
                  (Some []),
                finish_read i R s)))"

end
