(* ===== verification/HandlersSpec.thy ===== *)
theory HandlersSpec
  imports Handlers RegistrySafety
begin

text \<open>
  What the handlers promise, over the rows of \<open>StreamSpec\<close>: a put replaces the row of its key by
  the normal form of the row sent, a batch does so for its rows in order or not at all, a get
  sends back the row that is stored. The handlers refine these operations.
\<close>

section \<open>The value a field of a row carries\<close>

definition wire_cval :: "field_value \<Rightarrow> cval option" where
  "wire_cval fv =
     (case fv_vtype fv of
        ValueType_BOOL \<Rightarrow> Some (V_I32 (if fv_i32 fv \<noteq> 0 then 1 else 0))
      | ValueType_I32 \<Rightarrow> Some (V_I32 (fv_i32 fv))
      | ValueType_I64 \<Rightarrow> Some (V_I64 (fv_i64 fv))
      | ValueType_F32 \<Rightarrow> Some (V_F32 (fv_f32 fv))
      | ValueType_F64 \<Rightarrow> Some (V_F64 (fv_f64 fv))
      | ValueType_STRING \<Rightarrow> Some (V_Str (str_or_empty (fv_s fv)))
      | ValueType_BYTES \<Rightarrow> Some (V_Str (str_or_empty (fv_raw fv)))
      | ValueType_ARR_I32 \<Rightarrow> map_option V_AI32 (fv_ai32 fv)
      | ValueType_ARR_I64 \<Rightarrow> map_option V_AI64 (fv_ai64 fv)
      | ValueType_ARR_F32 \<Rightarrow> map_option V_AF32 (fv_af32 fv)
      | ValueType_ARR_F64 \<Rightarrow> map_option V_AF64 (fv_af64 fv)
      | ValueType_ARR_STRING \<Rightarrow> map_option (\<lambda>v. V_AStr (map str_or_empty v)) (fv_as fv)
      | _ \<Rightarrow> None)"

lemma matches_value_type:
  "FieldValueMatchesSchema def vt \<Longrightarrow> vt \<notin> {ValueType_NONE} \<union> range ValueType_other"
  by (auto simp: FieldValueMatchesSchema_def split: if_splits data_type.splits)

lemma apply_value_eq:
  assumes "FieldValueMatchesSchema def (fv_vtype fv)"
  shows "apply_value E fid fv doc = (HandlerStatus_Ok, write_opt E fid (wire_cval fv) doc)"
  using matches_value_type [OF assms]
  by (cases "fv_vtype fv")
    (auto simp: apply_value_def wire_cval_def write_opt_def str_or_empty_def split: option.split)

lemma wire_cval_kind:
  "FieldValueMatchesSchema def (fv_vtype fv) \<Longrightarrow> wire_cval fv = Some v \<Longrightarrow> kind_of_def def = Some (kind_of_val v)"
  by (auto simp: FieldValueMatchesSchema_def wire_cval_def kind_of_def_def split: if_splits data_type.splits)

section \<open>Applying a row\<close>

text \<open>Whether a row is accepted does not depend on the document.\<close>

fun row_check :: "('d, 'k) engine \<Rightarrow> schema \<Rightarrow> field_value option list \<Rightarrow> handler_status" where
  "row_check E S [] = HandlerStatus_Ok"
| "row_check E S (None # fvs) = row_check E S fvs"
| "row_check E S (Some fv # fvs) =
     (case sc_find_id S (fv_field_id fv) of
        None \<Rightarrow> HandlerStatus_Fail (''unknown field_id '' @ to_string_u (fv_field_id fv))
      | Some def \<Rightarrow>
          if FieldValueMatchesSchema def (fv_vtype fv) then row_check E S fvs
          else HandlerStatus_Fail (FieldTypeMismatch E def))"

text \<open>The value a field has after the row: the last one written to it, else the one it had.\<close>

fun row_val :: "field_value option list \<Rightarrow> field_def \<Rightarrow> cval \<Rightarrow> cval" where
  "row_val [] def c = c"
| "row_val (None # fvs) def c = row_val fvs def c"
| "row_val (Some fv # fvs) def c =
     row_val fvs def
       (if ucast (fv_field_id fv) = fd_id def then (case wire_cval fv of None \<Rightarrow> c | Some v \<Rightarrow> v) else c)"

lemma apply_fields_status: "fst (apply_fields E S fvs doc) = row_check E S fvs"
  by (induction E S fvs doc rule: apply_fields.induct)
    (auto simp: apply_value_eq split: option.split)

lemma read_apply_fields:
  assumes "doc_ok E" "schema_ok S" "def \<in> set (sc_fields S)" "kind_of_def def = Some j"
  shows "hs_ok (row_check E S fvs) \<Longrightarrow>
    read_at E (snd (apply_fields E S fvs doc)) (fd_id def) j = row_val fvs def (read_at E doc (fd_id def) j)"
proof (induction fvs arbitrary: doc)
  case Nil
  then show ?case by simp
next
  case (Cons x fvs)
  show ?case
  proof (cases x)
    case None
    with Cons show ?thesis by simp
  next
    case (Some fv)
    with Cons.prems obtain d where d: "sc_find_id S (fv_field_id fv) = Some d"
      and m: "FieldValueMatchesSchema d (fv_vtype fv)" and ok: "hs_ok (row_check E S fvs)"
      by (auto split: option.splits if_splits)
    have dm: "d \<in> set (sc_fields S)" "fd_id d = ucast (fv_field_id fv)"
      using schema_find_id_mem [OF assms(2) d] by simp_all
    have "read_at E (write_opt E (fd_id d) (wire_cval fv) doc) (fd_id def) j =
        (if ucast (fv_field_id fv) = fd_id def then (case wire_cval fv of None \<Rightarrow> read_at E doc (fd_id def) j | Some v \<Rightarrow> v)
         else read_at E doc (fd_id def) j)"
      using read_write_opt [OF assms(1,2) dm(1) assms(3,4)] wire_cval_kind [OF m] dm(2) by auto
    with Some d m Cons.IH [OF ok] show ?thesis by (simp add: apply_value_eq)
  qed
qed

section \<open>Rows and keys\<close>

text \<open>The fields of a row message; an absent vector has none.\<close>

definition row_fvs :: "row \<Rightarrow> field_value option list" where
  "row_fvs r = (case row_fields r of None \<Rightarrow> [] | Some fvs \<Rightarrow> fvs)"

lemma ApplyRowToDoc_eq: "ApplyRowToDoc E S (Some r) doc = apply_fields E S (row_fvs r) doc"
  by (simp add: ApplyRowToDoc_def row_fvs_def split: option.split)

text \<open>The row that is stored for a row message: its values over the defaults.\<close>

definition stored_row :: "schema \<Rightarrow> row \<Rightarrow> row_view" where
  "stored_row S r = map (\<lambda>(def, j). (def, row_val (row_fvs r) def (default_val j))) (stored_fields S)"

text \<open>The key of a row; empty when the type of the primary key has none in this interface.\<close>

definition view_pk :: "schema \<Rightarrow> row_view \<Rightarrow> string" where
  "view_pk S r =
     (case sc_find S (sc_pk S) of None \<Rightarrow> []
      | Some p \<Rightarrow>
          if fd_type p \<in> {DT_Bool, DT_Int32, DT_Int64, DT_String} then
            (case map_of r p of None \<Rightarrow> [] | Some c \<Rightarrow> cval_text c)
          else [])"

lemma db_pk_view:
  assumes "schema_ok S" "pk_ok S"
  shows "db_ExtractPkString E S doc = view_pk S (row_view E S doc)"
proof (cases "sc_find S (sc_pk S)")
  case None
  then show ?thesis by (simp add: db_ExtractPkString_def view_pk_def)
next
  case (Some p)
  have mem: "p \<in> set (sc_fields S)" using schema_find_mem [OF assms(1) Some] by simp
  have "\<not> fd_array p" using assms(2) Some by (simp add: pk_ok_def)
  with Some map_of_row_view [OF assms(1) mem, of _ E doc] show ?thesis
    by (cases "fd_type p") (auto simp: db_ExtractPkString_def view_pk_def kind_of_def_def)
qed

lemma kv_key_db_pk:
  assumes "key_ok E S" "db_ExtractPkString E S doc \<noteq> []"
  shows "kv_key E k doc = db_ExtractPkString E S doc"
proof -
  have "doc_key E S doc = Some (db_ExtractPkString E S doc)"
    using assms(2) by (auto simp: doc_key_def db_ExtractPkString_def split: option.splits data_type.splits)
  with assms(1) show ?thesis by (simp add: key_ok_def)
qed

lemma row_view_applied:
  assumes "doc_ok E" "schema_ok S" "hs_ok (row_check E S (row_fvs r))"
  shows "row_view E S (snd (ApplyRowToDoc E S (Some r) (new_doc E k))) = stored_row S r"
  unfolding ApplyRowToDoc_eq row_view_def stored_row_def
  by (rule map_cong [OF refl])
    (auto simp: stored_fields_mem read_apply_fields [OF assms(1,2) _ _ assms(3)] read_new [OF assms(1)])

section \<open>Building a row\<close>

text \<open>The field value sent for a stored value.\<close>

definition wire_of :: "field_def \<Rightarrow> cval \<Rightarrow> field_value" where
  "wire_of def c =
     (let id = ucast (fd_id def) :: u16; z = F32 0; z' = F64 0 in
      case (fd_type def, c) of
        (DT_Bool, V_I32 w) \<Rightarrow> CreateFieldValue id ValueType_BOOL (if w \<noteq> 0 then 1 else 0) 0 z z'
          None None None None None None None
      | (DT_Int32, V_I32 w) \<Rightarrow> CreateFieldValue id ValueType_I32 w 0 z z' None None None None None None None
      | (DT_Int64, V_I64 w) \<Rightarrow> CreateFieldValue id ValueType_I64 0 w z z' None None None None None None None
      | (DT_Float32, V_F32 f) \<Rightarrow> CreateFieldValue id ValueType_F32 0 0 f z' None None None None None None None
      | (DT_Float64, V_F64 f) \<Rightarrow> CreateFieldValue id ValueType_F64 0 0 z f None None None None None None None
      | (DT_String, V_Str t) \<Rightarrow> CreateFieldValue id ValueType_STRING 0 0 z z' (Some t) None None None None None None
      | (DT_Bytes, V_Str t) \<Rightarrow> CreateFieldValue id ValueType_BYTES 0 0 z z' None (Some t) None None None None None
      | (DT_Int32, V_AI32 v) \<Rightarrow> CreateFieldValue id ValueType_ARR_I32 0 0 z z' None None
          (vector_or_null v) None None None None
      | (DT_Int64, V_AI64 v) \<Rightarrow> CreateFieldValue id ValueType_ARR_I64 0 0 z z' None None
          None (vector_or_null v) None None None
      | (DT_Float32, V_AF32 v) \<Rightarrow> CreateFieldValue id ValueType_ARR_F32 0 0 z z' None None
          None None (vector_or_null v) None None
      | (DT_Float64, V_AF64 v) \<Rightarrow> CreateFieldValue id ValueType_ARR_F64 0 0 z z' None None
          None None None (vector_or_null v) None
      | (DT_String, V_AStr v) \<Rightarrow> CreateFieldValue id ValueType_ARR_STRING 0 0 z z' None None
          None None None None (vector_or_null (map Some v))
      | _ \<Rightarrow> CreateFieldValue id ValueType_NONE 0 0 z z' None None None None None None None)"

lemma BuildFieldValue_wire:
  "kind_of_def def = Some j \<Longrightarrow> BuildFieldValue E doc def = wire_of def (read_at E doc (fd_id def) j)"
  by (cases "fd_type def"; cases "fd_array def")
    (auto simp: BuildFieldValue_def wire_of_def kind_of_def_def Let_def array_strings_def comp_def)

text \<open>The row sent for a stored row: one field value per field of the schema, in order.\<close>

definition sent_row :: "schema \<Rightarrow> row_view \<Rightarrow> row" where
  "sent_row S r =
     CreateRow (Some (map (\<lambda>def. Some (case map_of r def of None \<Rightarrow>
         CreateFieldValue (ucast (fd_id def)) ValueType_NONE 0 0 (F32 0) (F64 0) None None None None None None None
       | Some c \<Rightarrow> wire_of def c)) (sc_fields S)))"

lemma map_of_row_view_None:
  "kind_of_def def = None \<Longrightarrow> map_of (row_view E S doc) def = None"
  by (auto simp: row_view_def map_of_eq_None_iff stored_fields_def List.map_filter_def)

lemma kind_none_array: "kind_of_def def = None \<Longrightarrow> fd_array def \<and> fd_type def = DT_Bool"
  by (auto simp: kind_of_def_def split: if_splits data_type.splits)

lemma BuildRow_sent:
  assumes "schema_ok S"
  shows "BuildRow E doc S = sent_row S (row_view E S doc)"
proof -
  have "BuildFieldValue E doc def = (case map_of (row_view E S doc) def of None \<Rightarrow>
         CreateFieldValue (ucast (fd_id def)) ValueType_NONE 0 0 (F32 0) (F64 0) None None None None None None None
       | Some c \<Rightarrow> wire_of def c)" if "def \<in> set (sc_fields S)" for def
  proof (cases "kind_of_def def")
    case None
    with kind_none_array [OF None] show ?thesis
      by (simp add: map_of_row_view_None BuildFieldValue_def Let_def)
  next
    case (Some j)
    with map_of_row_view [OF assms that Some, of E doc] show ?thesis by (simp add: BuildFieldValue_wire)
  qed
  then show ?thesis by (simp add: BuildRow_def sent_row_def)
qed

section \<open>The table of a request\<close>

definition table_of :: "('w, 'r, 'k) server \<Rightarrow> string \<Rightarrow> 'r table_slot option" where
  "table_of s t =
     (if t = [] then None
      else Option.bind (live_slot (sr_registry s) t) (find_slot (sr_registry s)))"

definition rows_of :: "('d, 'k) engine \<Rightarrow> ('w, 'r, 'k) server \<Rightarrow> 'r table_slot \<Rightarrow> table_view" where
  "rows_of E s slot = table_view E (ts_schema slot) (slot_index s slot)"

lemma AcquireOrError_served:
  assumes "table_of s t = Some slot"
  shows "\<exists>i. AcquireOrError (Some t) (sr_registry s) =
      (Inr (i, slot), (sr_registry s)\<lparr>rg_handles := i # rg_handles (sr_registry s)\<rparr>)"
proof -
  from assms obtain i where i: "live_slot (sr_registry s) t = Some i" "find_slot (sr_registry s) i = Some slot" "t \<noteq> []"
    by (auto simp: table_of_def bind_eq_Some_conv split: if_splits)
  from i(1) obtain h where "find_head (sr_registry s) t = Some h" "th_slot h = Some i"
    by (auto simp: live_slot_def bind_eq_Some_conv)
  with i show ?thesis by (simp add: AcquireOrError_def Acquire_def)
qed

lemma AcquireOrError_not_served:
  assumes "t = None \<or> table_of s (the t) = None"
  shows "\<exists>msg R. AcquireOrError t (sr_registry s) = (Inl msg, R) \<and> msg \<noteq> []"
  using assms
  by (auto simp: AcquireOrError_def Acquire_def table_of_def live_slot_def split: option.splits if_splits)

lemma release_acquired [simp]: "release i (R\<lparr>rg_handles := i # rg_handles R\<rparr>) = R"
  by (simp add: release_def)

lemma server_registry_id [simp]: "s\<lparr>sr_registry := sr_registry s\<rparr> = s"
  by simp

section \<open>The operations, over rows\<close>

text \<open>\<open>None\<close> is success, \<open>Some\<close> the error answered.\<close>

definition put_spec ::
  "('d, 'k) engine \<Rightarrow> schema \<Rightarrow> row \<Rightarrow> table_view \<Rightarrow> string option \<times> table_view" where
  "put_spec E S r T =
     (let st = row_check E S (row_fvs r); pk = view_pk S (stored_row S r)
      in if \<not> hs_ok st then (Some (hs_err st), T)
         else if pk = [] then (Some ''cannot derive pk (check pk field type in schema)'', T)
         else (None, T(pk := Some (stored_row S r))))"

definition get_spec :: "schema \<Rightarrow> string \<Rightarrow> table_view \<Rightarrow> row option" where
  "get_spec S pk T = map_option (sent_row S) (T pk)"

definition put_result :: "put_response \<Rightarrow> string option" where
  "put_result resp = (if put_resp_ok resp then None else put_resp_err resp)"

lemma put_step:
  assumes "ingest_ok E S" and a_def: "a = ApplyRowToDoc E S (Some r) (new_doc E idx)"
  shows "hs_ok (fst a) = hs_ok (row_check E S (row_fvs r))"
    and "hs_err (fst a) = hs_err (row_check E S (row_fvs r))"
    and "hs_ok (fst a) \<Longrightarrow> db_ExtractPkString E S (snd a) = view_pk S (stored_row S r)"
    and "hs_ok (fst a) \<Longrightarrow> row_view E S (snd a) = stored_row S r"
    and "hs_ok (fst a) \<Longrightarrow> view_pk S (stored_row S r) \<noteq> [] \<Longrightarrow> kv_key E k (snd a) = view_pk S (stored_row S r)"
proof -
  note ok = assms(1) [unfolded ingest_ok_def]
  show st: "hs_ok (fst a) = hs_ok (row_check E S (row_fvs r))"
    "hs_err (fst a) = hs_err (row_check E S (row_fvs r))"
    by (simp_all add: a_def ApplyRowToDoc_eq apply_fields_status)
  show v: "hs_ok (fst a) \<Longrightarrow> row_view E S (snd a) = stored_row S r"
    using row_view_applied [of E S r idx] ok st by (simp add: a_def)
  show pk: "hs_ok (fst a) \<Longrightarrow> db_ExtractPkString E S (snd a) = view_pk S (stored_row S r)"
    using db_pk_view [of S E "snd a"] ok v by simp
  show "hs_ok (fst a) \<Longrightarrow> view_pk S (stored_row S r) \<noteq> [] \<Longrightarrow> kv_key E k (snd a) = view_pk S (stored_row S r)"
    using kv_key_db_pk [of E S "snd a" k] pk ok by simp
qed

lemma HandlePut_refines:
  assumes "ingest_ok E (ts_schema slot)" "table_of s t = Some slot"
    and "HandlePut E \<lparr>pqs_row = Some r, pqs_table_name = Some t\<rparr> s = (resp, s')"
  shows "(put_result resp, rows_of E s' slot) = put_spec E (ts_schema slot) r (rows_of E s slot)"
    and "sr_registry s' = sr_registry s"
    and "kv \<noteq> ts_kv slot \<Longrightarrow> sr_index s' kv = sr_index s kv"
    and "\<not> put_resp_ok resp \<Longrightarrow> s' = s"
proof -
  let ?S = "ts_schema slot" and ?R = "sr_registry s" and ?idx = "slot_index s slot"
  obtain i where acq: "AcquireOrError (Some t) ?R = (Inr (i, slot), ?R\<lparr>rg_handles := i # rg_handles ?R\<rparr>)"
    using AcquireOrError_served [OF assms(2)] by blast
  define a where "a = ApplyRowToDoc E ?S (Some r) (new_doc E ?idx)"
  note st = put_step [OF assms(1) a_def]
  have kv: "kv_ok E" using assms(1) by (simp add: ingest_ok_def)
  have run: "HandlePut E \<lparr>pqs_row = Some r, pqs_table_name = Some t\<rparr> s =
      (if \<not> hs_ok (fst a) then (CreatePutResponse False (Some (hs_err (fst a))), s)
       else if db_ExtractPkString E ?S (snd a) = [] then
         (CreatePutResponse False (Some ''cannot derive pk (check pk field type in schema)''), s)
       else (CreatePutResponse True (Some []), s\<lparr>sr_index := (sr_index s)(ts_kv slot := kv_upsert E ?idx (snd a))\<rparr>))"
    by (simp add: HandlePut_def put_req_row_def put_req_table_def acq Let_def a_def case_prod_beta
        finish_read_def finish_write_def)
  show "(put_result resp, rows_of E s' slot) = put_spec E ?S r (rows_of E s slot)"
    using assms(3) run st kv
    by (auto simp: put_spec_def put_result_def rows_of_def slot_index_def Let_def table_view_upsert split: if_splits)
  show "sr_registry s' = sr_registry s"
    and "kv \<noteq> ts_kv slot \<Longrightarrow> sr_index s' kv = sr_index s kv"
    and "\<not> put_resp_ok resp \<Longrightarrow> s' = s"
    using assms(3) run by (auto split: if_splits)
qed

lemma HandleGet_refines:
  assumes "ingest_ok E (ts_schema slot)" "table_of s t = Some slot"
  shows "HandleGet E ns (CreateGetRequest (Some pk) (Some t)) s =
    ((case get_spec (ts_schema slot) pk (rows_of E s slot) of
        None \<Rightarrow> CreateGetResponse False (Some []) None ns
      | Some r \<Rightarrow> CreateGetResponse True (Some []) (Some r) ns), s)"
proof -
  let ?R = "sr_registry s"
  obtain i where acq: "AcquireOrError (Some t) ?R = (Inr (i, slot), ?R\<lparr>rg_handles := i # rg_handles ?R\<rparr>)"
    using AcquireOrError_served [OF assms(2)] by blast
  have "schema_ok (ts_schema slot)" using assms(1) by (simp add: ingest_ok_def)
  then show ?thesis
    by (simp add: HandleGet_def acq get_spec_def rows_of_def table_view_def finish_read_def
        BuildRow_sent split: option.split)
qed

text \<open>A batch: every row must be acceptable, then all are put, in order.\<close>

definition row_ok :: "('d, 'k) engine \<Rightarrow> schema \<Rightarrow> row \<Rightarrow> bool" where
  "row_ok E S r \<longleftrightarrow> hs_ok (row_check E S (row_fvs r)) \<and> view_pk S (stored_row S r) \<noteq> []"

definition batch_ok :: "('d, 'k) engine \<Rightarrow> schema \<Rightarrow> row option list \<Rightarrow> bool" where
  "batch_ok E S rows \<longleftrightarrow> rows \<noteq> [] \<and> list_all (\<lambda>x. case x of None \<Rightarrow> False | Some r \<Rightarrow> row_ok E S r) rows"

definition put_all :: "schema \<Rightarrow> row list \<Rightarrow> table_view \<Rightarrow> table_view" where
  "put_all S rows = fold (\<lambda>r T. T(view_pk S (stored_row S r) := Some (stored_row S r))) rows"

lemma put_spec_ok: "row_ok E S r \<Longrightarrow> put_spec E S r T = (None, T(view_pk S (stored_row S r) := Some (stored_row S r)))"
  by (simp add: put_spec_def row_ok_def Let_def)

lemma put_spec_bad: "\<not> row_ok E S r \<Longrightarrow> \<exists>e. put_spec E S r T = (Some e, T)"
  by (auto simp: put_spec_def row_ok_def Let_def)

lemma stage_rows_ok:
  assumes "ingest_ok E S"
  shows "(\<exists>docs. stage_rows E S idx rows = Inr docs) \<longleftrightarrow>
    list_all (\<lambda>x. case x of None \<Rightarrow> False | Some r \<Rightarrow> row_ok E S r) rows"
proof (induction rows)
  case (Cons x rows)
  show ?case
  proof (cases x)
    case (Some r)
    note st = put_step [OF assms refl, of r idx]
    from Some Cons st show ?thesis
      by (cases "hs_ok (row_check E S (row_fvs r))"; cases "view_pk S (stored_row S r) = []";
          cases "stage_rows E S idx rows")
        (auto simp: row_ok_def case_prod_beta)
  qed simp
qed simp

lemma stage_rows_view:
  assumes "ingest_ok E S"
  shows "stage_rows E S idx rows = Inr docs \<Longrightarrow>
    table_view E S (foldl (kv_upsert E) k docs) = put_all S (map the rows) (table_view E S k)"
proof (induction rows arbitrary: docs k)
  case Nil
  then show ?case by (simp add: put_all_def)
next
  case (Cons x rows)
  have kv: "kv_ok E" using assms by (simp add: ingest_ok_def)
  show ?case
  proof (cases x)
    case None
    with Cons.prems show ?thesis by simp
  next
    case (Some r)
    define a where "a = ApplyRowToDoc E S (Some r) (new_doc E idx)"
    from Cons.prems Some obtain docs' where ok: "hs_ok (fst a)" "db_ExtractPkString E S (snd a) \<noteq> []"
      and rest: "stage_rows E S idx rows = Inr docs'" "docs = snd a # docs'"
      by (auto simp: a_def case_prod_beta split: if_splits sum.splits)
    note st = put_step [OF assms a_def]
    have upd: "table_view E S (kv_upsert E k (snd a)) =
        (table_view E S k)(view_pk S (stored_row S r) := Some (stored_row S r))"
      unfolding table_view_upsert [OF kv] using st ok by simp
    show ?thesis
      unfolding rest(2) Some foldl.simps Cons.IH [OF rest(1)] upd by (simp add: put_all_def)
  qed
qed

lemma table_view_batch: "kv_ok E \<Longrightarrow> table_view E S (kv_batch_upsert E k ds) = table_view E S (foldl (kv_upsert E) k ds)"
  by (rule ext) (simp add: table_view_def kv_get_batch_upsert)

lemma HandlePutBatch_refines:
  assumes "ingest_ok E (ts_schema slot)" "table_of s t = Some slot"
    and "HandlePutBatch E \<lparr>pbqs_rows = Some rows, pbqs_table_name = Some t\<rparr> s = (resp, s')"
  shows "put_batch_resp_ok resp \<longleftrightarrow> batch_ok E (ts_schema slot) rows"
    and "put_batch_resp_ok resp \<Longrightarrow>
      rows_of E s' slot = put_all (ts_schema slot) (map the rows) (rows_of E s slot)"
    and "\<not> put_batch_resp_ok resp \<Longrightarrow> s' = s"
    and "sr_registry s' = sr_registry s"
proof -
  let ?S = "ts_schema slot" and ?R = "sr_registry s" and ?idx = "slot_index s slot"
  obtain i where acq: "AcquireOrError (Some t) ?R = (Inr (i, slot), ?R\<lparr>rg_handles := i # rg_handles ?R\<rparr>)"
    using AcquireOrError_served [OF assms(2)] by blast
  have kv: "kv_ok E" using assms(1) by (simp add: ingest_ok_def)
  have run: "HandlePutBatch E \<lparr>pbqs_rows = Some rows, pbqs_table_name = Some t\<rparr> s =
      (if rows = [] then (CreatePutBatchResponse False (Some ''empty batch''), s)
       else case stage_rows E ?S ?idx rows of
         Inl msg \<Rightarrow> (CreatePutBatchResponse False (Some msg), s)
       | Inr docs \<Rightarrow> (CreatePutBatchResponse True (Some []),
           s\<lparr>sr_index := (sr_index s)(ts_kv slot := kv_batch_upsert E ?idx docs)\<rparr>))"
    by (simp add: HandlePutBatch_def put_batch_req_rows_def put_batch_req_table_def acq Let_def
        finish_read_def finish_write_def split: sum.split)
  note so = stage_rows_ok [OF assms(1), of ?idx rows]
  show "put_batch_resp_ok resp \<longleftrightarrow> batch_ok E ?S rows"
    using assms(3) run so by (cases "stage_rows E ?S ?idx rows") (auto simp: batch_ok_def split: if_splits)
  show "put_batch_resp_ok resp \<Longrightarrow> rows_of E s' slot = put_all ?S (map the rows) (rows_of E s slot)"
    using assms(3) run stage_rows_view [OF assms(1), of ?idx rows _ ?idx] kv
    by (cases "stage_rows E ?S ?idx rows")
      (auto simp: rows_of_def slot_index_def table_view_batch split: if_splits)
  show "\<not> put_batch_resp_ok resp \<Longrightarrow> s' = s" and "sr_registry s' = sr_registry s"
    using assms(3) run by (cases "stage_rows E ?S ?idx rows"; auto split: if_splits)+
qed

section \<open>Writes that fail\<close>

text \<open>A write handler: an answer that is not ok leaves the server as it was.\<close>

locale write_handler =
  fixes handle :: "'q \<Rightarrow> 's \<Rightarrow> 'p \<times> 's" and ok :: "'p \<Rightarrow> bool"
  assumes failure_unchanged: "\<not> ok (fst (handle q s)) \<Longrightarrow> snd (handle q s) = s"
begin

fun run :: "'q list \<Rightarrow> 's \<Rightarrow> 's" where
  "run [] s = s"
| "run (q # qs) s = run qs (snd (handle q s))"

text \<open>The requests of a sequence that were answered ok.\<close>

fun accepted :: "'q list \<Rightarrow> 's \<Rightarrow> 'q list" where
  "accepted [] s = []"
| "accepted (q # qs) s =
     (if ok (fst (handle q s)) then q # accepted qs (snd (handle q s)) else accepted qs s)"

lemma run_accepted: "run (accepted qs s) s = run qs s"
  by (induction qs arbitrary: s) (simp_all add: failure_unchanged)

end

lemma AcquireOrError_cases:
  obtains (error) msg where "AcquireOrError t R = (Inl msg, R)"
  | (handle) i slot where "AcquireOrError t R = (Inr (i, slot), R\<lparr>rg_handles := i # rg_handles R\<rparr>)"
proof -
  have "(\<exists>msg. AcquireOrError t R = (Inl msg, R)) \<or>
      (\<exists>i slot. AcquireOrError t R = (Inr (i, slot), R\<lparr>rg_handles := i # rg_handles R\<rparr>))"
    by (simp add: AcquireOrError_def Acquire_def split: option.split)
  then show thesis using that by blast
qed

lemma put_failure_unchanged: "\<not> put_resp_ok (fst (HandlePut E q s)) \<Longrightarrow> snd (HandlePut E q s) = s"
  by (cases "put_req_table q" "sr_registry s" rule: AcquireOrError_cases; cases "put_req_row q")
    (auto simp: HandlePut_def Let_def finish_read_def case_prod_beta split: if_splits)

lemma put_batch_failure_unchanged:
  "\<not> put_batch_resp_ok (fst (HandlePutBatch E q s)) \<Longrightarrow> snd (HandlePutBatch E q s) = s"
  by (cases "put_batch_req_table q" "sr_registry s" rule: AcquireOrError_cases; cases "put_batch_req_rows q")
    (auto simp: HandlePutBatch_def Let_def finish_read_def split: if_splits sum.splits)

interpretation put: write_handler "HandlePut E" put_resp_ok
  by unfold_locales (rule put_failure_unchanged)

interpretation put_batch: write_handler "HandlePutBatch E" put_batch_resp_ok
  by unfold_locales (rule put_batch_failure_unchanged)

lemma HandleGet_unchanged: "snd (HandleGet E ns q s) = s"
  by (cases "get_req_table q" "sr_registry s" rule: AcquireOrError_cases; cases "get_req_pk q")
    (auto simp: HandleGet_def Let_def finish_read_def split: option.split)

lemma HandleBatchGet_unchanged: "snd (HandleBatchGet E q s) = s"
  by (cases "batch_get_req_table q" "sr_registry s" rule: AcquireOrError_cases; cases "batch_get_req_pks q")
    (auto simp: HandleBatchGet_def Let_def finish_read_def)

end
