(* ===== verification/HandlersProps.thy ===== *)
theory HandlersProps
  imports HandlersSpec
begin

text \<open>
  The properties of the RPC handlers: what a client sees of its writes, the atomicity of a batch,
  failures, and the echo of a row that was read. They rest on the refinements of
  \<open>HandlersSpec\<close>.
\<close>

section \<open>The value a sent field is stored as\<close>

text \<open>The fields whose type has a value in the protocol: all but arrays of Bool and of Bytes.\<close>

definition wireable :: "field_def \<Rightarrow> bool" where
  "wireable def \<longleftrightarrow> \<not> (fd_array def \<and> fd_type def \<in> {DT_Bool, DT_Bytes})"

definition typed_row :: "schema \<Rightarrow> row_view \<Rightarrow> bool" where
  "typed_row S v \<longleftrightarrow> map (\<lambda>(def, c). (def, kind_of_val c)) v = stored_fields S"

lemma typed_row_view: "typed_row S (row_view E S doc)"
  by (simp add: typed_row_def row_view_def case_prod_beta comp_def)

lemma add_canon [simp]: "add_element_f32 (canon_f32 f) = add_element_f32 f" "add_element_f64 (canon_f64 g) = add_element_f64 g"
  by (cases f; simp)(cases g; simp)

lemma create_canon [simp]:
  "CreateFieldValue i vt a b (canon_f32 f) g s r l1 l2 l3 l4 l5 = CreateFieldValue i vt a b f g s r l1 l2 l3 l4 l5"
  "CreateFieldValue i vt a b f (canon_f64 g) s r l1 l2 l3 l4 l5 = CreateFieldValue i vt a b f g s r l1 l2 l3 l4 l5"
  by (simp_all add: CreateFieldValue_def)

lemma wire_of_matches:
  assumes "kind_of_def def = Some (kind_of_val c)" "wireable def"
  shows "FieldValueMatchesSchema def (fv_vtype (wire_of def c))"
    and "fv_field_id (wire_of def c) = ucast (fd_id def)"
  using assms by (cases "fd_type def"; cases c; auto simp: wire_of_def Let_def FieldValueMatchesSchema_def kind_of_def_def wireable_def split: if_splits)+

definition sent_val :: "field_def \<Rightarrow> cval \<Rightarrow> cval" where
  "sent_val def c = (case wire_cval (wire_of def c) of None \<Rightarrow> default_val (kind_of_val c) | Some v \<Rightarrow> v)"

lemma wire_of_sent:
  assumes "kind_of_def def = Some (kind_of_val c)" "wireable def"
  shows "wire_of def (sent_val def c) = wire_of def c"
  using assms by (cases "fd_type def"; cases c; auto simp: sent_val_def wire_of_def wire_cval_def Let_def FieldValueMatchesSchema_def kind_of_def_def wireable_def vector_or_null_def str_or_empty_def comp_def
      split: if_splits)
text \<open>Sending a row back: every field is written once, by its own field value.\<close>

lemma row_check_sent:
  assumes "schema_ok S"
    and "\<And>def. def \<in> set ds \<Longrightarrow> def \<in> set (sc_fields S) \<and> FieldValueMatchesSchema def (fv_vtype (f def)) \<and>
      fv_field_id (f def) = ucast (fd_id def)"
  shows "row_check E S (map (\<lambda>def. Some (f def)) ds) = HandlerStatus_Ok"
  using assms(2) by (induction ds) (auto simp: schema_find_id_of [OF assms(1)])

lemma row_val_other:
  "list_all (\<lambda>x. case x of None \<Rightarrow> True | Some fv \<Rightarrow> ucast (fv_field_id fv) \<noteq> fd_id def) fvs \<Longrightarrow>
   row_val fvs def c = c"
  by (induction fvs def c rule: row_val.induct) auto

lemma row_val_sent:
  assumes "schema_ok S" "def \<in> set ds" "set ds \<subseteq> set (sc_fields S)" "distinct ds"
    and id: "\<And>d. d \<in> set ds \<Longrightarrow> fv_field_id (f d) = ucast (fd_id d)"
  shows "row_val (map (\<lambda>d. Some (f d)) ds) def c = (case wire_cval (f def) of None \<Rightarrow> c | Some v \<Rightarrow> v)"
  using assms(2-5)
proof (induction ds arbitrary: c)
  case (Cons d ds)
  have wid: "ucast (fv_field_id (f e)) = fd_id e" if "e \<in> set (d # ds)" for e
    using Cons.prems that assms(1) ucast_u16_u32_back [of "fd_id e"] by (auto simp: schema_ok_def)
  show ?case
  proof (cases "d = def")
    case True
    have "fd_id e \<noteq> fd_id def" if "e \<in> set ds" for e
      using schema_id_inj [OF assms(1), of e def] Cons.prems that True by auto
    then have "list_all (\<lambda>x. case x of None \<Rightarrow> True | Some fv \<Rightarrow> ucast (fv_field_id fv) \<noteq> fd_id def)
        (map (\<lambda>d. Some (f d)) ds)"
      using wid by (auto simp: list_all_iff)
    from row_val_other [OF this] wid [of d] True show ?thesis by simp
  next
    case False
    with Cons.prems schema_id_inj [OF assms(1), of d def] have "fd_id d \<noteq> fd_id def" by auto
    with False Cons wid [of d] show ?thesis by simp
  qed
qed simp

lemma typed_row_field:
  assumes "schema_ok S" "typed_row S v" "def \<in> set (sc_fields S)" "wireable def"
  obtains c where "map_of v def = Some c" "kind_of_def def = Some (kind_of_val c)"
proof -
  obtain j where j: "kind_of_def def = Some j"
    using assms(4) kind_none_array [of def] by (cases "kind_of_def def") (auto simp: wireable_def)
  have keys: "map fst v = map fst (stored_fields S)"
    using arg_cong [OF assms(2) [unfolded typed_row_def], of "map fst"] by (simp add: comp_def case_prod_beta)
  have "(def, j) \<in> set (stored_fields S)" using assms(3) j by (simp add: stored_fields_mem)
  then have "(def, j) \<in> set (map (\<lambda>(def, c). (def, kind_of_val c)) v)"
    by (simp only: assms(2) [unfolded typed_row_def])
  then obtain c where c: "(def, c) \<in> set v" "kind_of_val c = j" by auto
  have "map_of v def = Some c"
    by (rule map_of_is_SomeI) (use c keys stored_fields_distinct [OF assms(1)] in auto)
  with c j that show thesis by simp
qed

lemma echo_lemma:
  assumes S: "schema_ok S" and w: "list_all wireable (sc_fields S)" and v: "typed_row S v"
  shows "row_check E S (row_fvs (sent_row S v)) = HandlerStatus_Ok"
    and "sent_row S (stored_row S (sent_row S v)) = sent_row S v"
proof -
  define f where "f def = (case map_of v def of None \<Rightarrow>
         CreateFieldValue (ucast (fd_id def)) ValueType_NONE 0 0 (F32 0) (F64 0) None None None None None None None
       | Some c \<Rightarrow> wire_of def c)" for def
  have fvs: "row_fvs (sent_row S v) = map (\<lambda>def. Some (f def)) (sc_fields S)"
    by (simp add: row_fvs_def sent_row_def f_def)
  have field: "\<exists>c. f def = wire_of def c \<and> kind_of_def def = Some (kind_of_val c) \<and> wireable def"
    if "def \<in> set (sc_fields S)" for def
  proof -
    note mem = that
    have wd: "wireable def" using w mem by (simp add: list_all_iff)
    obtain c where "map_of v def = Some c" "kind_of_def def = Some (kind_of_val c)"
      using typed_row_field [OF S v mem wd] .
    with wd show ?thesis by (intro exI [of _ c]) (simp add: f_def)
  qed
  have id: "fv_field_id (f def) = ucast (fd_id def)" if "def \<in> set (sc_fields S)" for def
    using field [OF that] wire_of_matches(2) by auto
  show "row_check E S (row_fvs (sent_row S v)) = HandlerStatus_Ok"
    unfolding fvs by (rule row_check_sent [OF S]) (use field id wire_of_matches(1) in force)
  have dist: "distinct (sc_fields S)" using S by (auto simp: schema_ok_def distinct_map)
  have "(case map_of (stored_row S (sent_row S v)) def of None \<Rightarrow>
         CreateFieldValue (ucast (fd_id def)) ValueType_NONE 0 0 (F32 0) (F64 0) None None None None None None None
       | Some c \<Rightarrow> wire_of def c) = f def" if def: "def \<in> set (sc_fields S)" for def
  proof -
    obtain c where c: "f def = wire_of def c" "kind_of_def def = Some (kind_of_val c)" "wireable def"
      using field [OF def] by blast
    have "map_of (stored_row S (sent_row S v)) def
        = Some (row_val (row_fvs (sent_row S v)) def (default_val (kind_of_val c)))"
      unfolding stored_row_def by (rule map_of_stored [OF S def c(2)])
    also have "\<dots> = Some (sent_val def c)"
      using row_val_sent [OF S def subset_refl dist, of f] id unfolding fvs by (simp add: c(1) sent_val_def)
    finally show ?thesis by (simp add: c(1) wire_of_sent [OF c(2,3)])
  qed
  then show "sent_row S (stored_row S (sent_row S v)) = sent_row S v"
    by (simp add: sent_row_def f_def)
qed

section \<open>A concrete server\<close>

definition ex_slot :: "string table_slot" where
  "ex_slot = \<lparr>ts_kv = ''t'', ts_schema = ex_schema, ts_kafka = None\<rparr>"

definition ex_server :: "(unit, string, ref_index) server" where
  "ex_server = \<lparr>sr_registry = \<lparr>rg_world = (), rg_db_path = ''db'', rg_default_brokers = [],
       rg_heads = [(''t'', \<lparr>th_staging_is_live = False, th_slot = Some 0\<rparr>)],
       rg_slots = [(0, ex_slot)], rg_next = 1, rg_handles = []\<rparr>,
     sr_index = (\<lambda>r. ex_index)\<rparr>"

abbreviation ex_E :: "(ref_doc, ref_index) engine" where
  "ex_E \<equiv> ref_engine ex_schema"

definition i64_field :: "u16 \<Rightarrow> i64 \<Rightarrow> field_value" where
  "i64_field i w = CreateFieldValue i ValueType_I64 0 w (F32 0) (F64 0) None None None None None None None"

definition str_field :: "u16 \<Rightarrow> string \<Rightarrow> field_value" where
  "str_field i s = CreateFieldValue i ValueType_STRING 0 0 (F32 0) (F64 0) (Some s) None None None None None None"

definition ex_row :: row where
  "ex_row = CreateRow (Some [Some (i64_field 1 8), None, Some (str_field 2 ''a''), Some (str_field 2 ''b'')])"

definition ex_row_bad :: row where
  "ex_row_bad = CreateRow (Some [Some (str_field 1 ''8'')])"

lemma ex_slot_schema [simp]: "ts_schema ex_slot = ex_schema"
  by (simp add: ex_slot_def)

lemma ex_table: "table_of ex_server ''t'' = Some ex_slot"
  by (simp add: table_of_def ex_server_def live_slot_def find_head_def find_slot_def)

lemma ex_slot_ok: "ingest_ok ex_E (ts_schema ex_slot)"
  by (simp add: ex_ingest_ok)

section \<open>Properties\<close>

text \<open>
  C9: A put does to the rows of its table what the abstract put does: it is refused, with that
  error, when a field id is unknown, a value does not fit the type of its field or the row has no
  key; else the row under its key becomes the normal form of the row sent (the last value written
  to each field, defaults elsewhere). Every other key and every other index is left alone.
\<close>

theorem put_refines:
  assumes "ingest_ok E (ts_schema slot)" "table_of s t = Some slot"
    and "HandlePut E \<lparr>pqs_row = Some r, pqs_table_name = Some t\<rparr> s = (resp, s')"
  shows "(put_result resp, rows_of E s' slot) = put_spec E (ts_schema slot) r (rows_of E s slot) \<and>
    sr_registry s' = sr_registry s \<and> (\<forall>kv. kv = ts_kv slot \<or> sr_index s' kv = sr_index s kv)"
  using HandlePut_refines [OF assms] by blast

theorem put_refines_witness:
  "(put_result (fst (HandlePut ex_E \<lparr>pqs_row = Some ex_row_bad, pqs_table_name = Some ''t''\<rparr> ex_server)),
    rows_of ex_E (snd (HandlePut ex_E \<lparr>pqs_row = Some ex_row_bad, pqs_table_name = Some ''t''\<rparr> ex_server)) ex_slot)
   = put_spec ex_E ex_schema ex_row_bad (rows_of ex_E ex_server ex_slot)"
  using put_refines [OF ex_slot_ok ex_table prod.collapse [symmetric], of ex_row_bad] by simp

text \<open>
  C10: Read your writes. After a put that was answered ok, a get of the key of the row finds it and
  returns its normal form, one value per field of the schema in order, and a get of any other key
  of the table answers as it did before the put.
\<close>

theorem put_then_get:
  assumes "ingest_ok E (ts_schema slot)" "table_of s t = Some slot"
    and "HandlePut E \<lparr>pqs_row = Some r, pqs_table_name = Some t\<rparr> s = (resp, s')" "put_resp_ok resp"
  shows "fst (HandleGet E ns (CreateGetRequest (Some (view_pk (ts_schema slot) (stored_row (ts_schema slot) r))) (Some t)) s')
      = CreateGetResponse True (Some []) (Some (sent_row (ts_schema slot) (stored_row (ts_schema slot) r))) ns \<and>
    (q \<noteq> view_pk (ts_schema slot) (stored_row (ts_schema slot) r) \<longrightarrow>
      fst (HandleGet E ns (CreateGetRequest (Some q) (Some t)) s')
      = fst (HandleGet E ns (CreateGetRequest (Some q) (Some t)) s))"
proof -
  let ?S = "ts_schema slot"
  note ref = HandlePut_refines [OF assms(1-3)]
  have rows: "rows_of E s' slot = (rows_of E s slot)(view_pk ?S (stored_row ?S r) := Some (stored_row ?S r))"
    using ref(1) assms(4) by (auto simp: put_spec_def put_result_def Let_def split: if_splits)
  have "table_of s' t = Some slot" using assms(2) ref(2) by (simp add: table_of_def split: if_splits)
  from HandleGet_refines [OF assms(1) this] HandleGet_refines [OF assms(1,2)] rows show ?thesis
    by (simp add: get_spec_def)
qed

theorem put_then_get_witness:
  "fst (HandleGet ex_E 5 (CreateGetRequest (Some ''8'') (Some ''t''))
      (snd (HandlePut ex_E \<lparr>pqs_row = Some ex_row, pqs_table_name = Some ''t''\<rparr> ex_server)))
    = CreateGetResponse True (Some []) (Some (sent_row ex_schema (stored_row ex_schema ex_row))) 5"
proof -
  have ok: "put_resp_ok (fst (HandlePut ex_E \<lparr>pqs_row = Some ex_row, pqs_table_name = Some ''t''\<rparr> ex_server))"
    by code_simp
  have "view_pk ex_schema (stored_row ex_schema ex_row) = ''8''" by code_simp
  with put_then_get [OF ex_slot_ok ex_table prod.collapse [symmetric] ok, of 5] show ?thesis by simp
qed

text \<open>
  C13: A batch is atomic and equals its single puts. It is answered ok exactly when it is not empty
  and every row is present, well typed and has a key; then the rows of the table are those that
  result from putting its rows one after the other; otherwise the server is left as it was.
\<close>

theorem put_batch_atomic:
  assumes "ingest_ok E (ts_schema slot)" "table_of s t = Some slot"
    and "HandlePutBatch E \<lparr>pbqs_rows = Some rows, pbqs_table_name = Some t\<rparr> s = (resp, s')"
  shows "(put_batch_resp_ok resp \<longleftrightarrow> batch_ok E (ts_schema slot) rows) \<and>
    (if put_batch_resp_ok resp
     then rows_of E s' slot = fold (\<lambda>r T. snd (put_spec E (ts_schema slot) r T)) (map the rows) (rows_of E s slot)
     else s' = s)"
proof -
  note ref = HandlePutBatch_refines [OF assms]
  have "put_all S rs T = fold (\<lambda>r T. snd (put_spec E S r T)) rs T" if "list_all (row_ok E S) rs" for S rs T
    using that by (induction rs arbitrary: T) (simp_all add: put_all_def put_spec_ok)
  moreover have "list_all (row_ok E (ts_schema slot)) (map the rows)" if "put_batch_resp_ok resp"
    using ref(1) that by (auto simp: batch_ok_def list_all_iff split: option.splits)
  ultimately show ?thesis using ref by auto
qed

theorem put_batch_atomic_witness:
  "\<not> put_batch_resp_ok (fst (HandlePutBatch ex_E
      \<lparr>pbqs_rows = Some [Some ex_row, Some ex_row_bad], pbqs_table_name = Some ''t''\<rparr> ex_server)) \<and>
   snd (HandlePutBatch ex_E
      \<lparr>pbqs_rows = Some [Some ex_row, Some ex_row_bad], pbqs_table_name = Some ''t''\<rparr> ex_server) = ex_server"
proof -
  have bad: "\<not> put_batch_resp_ok (fst (HandlePutBatch ex_E
      \<lparr>pbqs_rows = Some [Some ex_row, Some ex_row_bad], pbqs_table_name = Some ''t''\<rparr> ex_server))"
    by code_simp
  with put_batch_atomic [OF ex_slot_ok ex_table prod.collapse [symmetric], of "[Some ex_row, Some ex_row_bad]"]
  show ?thesis by simp
qed

text \<open>
  C19: A batch get is its single gets: the answer has one row per key, in order, which is the row a
  get of that key returns, and an empty row where the get finds none (or the key is null).
\<close>

theorem batch_get_pointwise:
  assumes "ingest_ok E (ts_schema slot)" "table_of s t = Some slot"
  shows "fst (HandleBatchGet E \<lparr>bqs_pks = Some pks, bqs_table_name = Some t\<rparr> s) =
    CreateBatchGetResponse (Some (map (\<lambda>pk. case pk of None \<Rightarrow> CreateRow None
      | Some p \<Rightarrow> (case get_resp_row (fst (HandleGet E ns (CreateGetRequest (Some p) (Some t)) s)) of
                    None \<Rightarrow> CreateRow None | Some r \<Rightarrow> r)) pks)) (Some [])"
proof -
  let ?R = "sr_registry s"
  obtain i where acq: "AcquireOrError (Some t) ?R = (Inr (i, slot), ?R\<lparr>rg_handles := i # rg_handles ?R\<rparr>)"
    using AcquireOrError_served [OF assms(2)] by blast
  have "schema_ok (ts_schema slot)" using assms(1) by (simp add: ingest_ok_def)
  then show ?thesis
    unfolding HandleGet_refines [OF assms]
    by (auto simp: HandleBatchGet_def batch_get_req_pks_def batch_get_req_table_def acq get_spec_def rows_of_def
        table_view_def BuildRow_sent intro!: arg_cong2 [where f = CreateBatchGetResponse] split: option.split)
qed

theorem batch_get_pointwise_witness:
  "fst (HandleBatchGet ex_E \<lparr>bqs_pks = Some [Some ''7'', None, Some ''9''], bqs_table_name = Some ''t''\<rparr> ex_server) =
    CreateBatchGetResponse (Some (map (\<lambda>pk. case pk of None \<Rightarrow> CreateRow None
      | Some p \<Rightarrow> (case get_resp_row (fst (HandleGet ex_E 0 (CreateGetRequest (Some p) (Some ''t'')) ex_server)) of
                    None \<Rightarrow> CreateRow None | Some r \<Rightarrow> r)) [Some ''7'', None, Some ''9''])) (Some [])"
  by (rule batch_get_pointwise [OF ex_slot_ok ex_table])

text \<open>
  C20: A row that was read can be written back and reads the same: for a schema without Bool or
  Bytes arrays, the row a get returns is accepted by the type check of a put, and its normal form
  is sent as the very same message (floats but for the sign of zero, Bool as 0 or 1, an empty
  array as an absent vector).
\<close>

theorem echo_row:
  assumes "schema_ok S" "list_all wireable (sc_fields S)"
  shows "row_check E S (row_fvs (BuildRow E doc S)) = HandlerStatus_Ok \<and>
    sent_row S (stored_row S (BuildRow E doc S)) = BuildRow E doc S"
  using echo_lemma [OF assms typed_row_view] BuildRow_sent [OF assms(1)] by metis

theorem echo_row_witness:
  "row_check ex_E ex_schema (row_fvs (BuildRow ex_E (snd (hd ex_index)) ex_schema)) = HandlerStatus_Ok"
proof -
  have "list_all wireable (sc_fields ex_schema)" by code_simp
  then show ?thesis by (rule echo_row [OF ex_schema_ok, THEN conjunct1])
qed

text \<open>
  C21: A failed write changes nothing: whatever the request (missing parts, unknown table, wrong
  types, no key, empty batch), an answer of put or put-batch that is not ok leaves the registry and
  every index as they were; and reads never change anything.
\<close>

theorem failed_write_unchanged:
  "(put_resp_ok (fst (HandlePut E p s)) \<or> snd (HandlePut E p s) = s) \<and>
   (put_batch_resp_ok (fst (HandlePutBatch E b s)) \<or> snd (HandlePutBatch E b s) = s) \<and>
   snd (HandleGet E ns g s) = s \<and> snd (HandleBatchGet E m s) = s"
  using put.failure_unchanged [of E p s] put_batch.failure_unchanged [of E b s]
  by (auto simp: HandleGet_unchanged HandleBatchGet_unchanged)

end
