(* ===== verification/Server.thy ===== *)
theory Server
  imports HandlersSpec
begin

text \<open>
  The edges of the server: the two RPC services (\<open>rpc/\<close>), which route a request to its handler,
  the admin socket (\<open>admin_unix_socket.cc\<close>), which reads one command per connection, and
  \<open>main.cc\<close>. The conversion between bytes and tables is the FlatBuffers library's and is the
  parameter \<open>codec\<close>; the socket calls either succeed or fail (\<open>admin_env\<close>).
\<close>

section \<open>The RPC services\<close>

record codec =
  de_get :: "string \<Rightarrow> get_request"
  de_put :: "string \<Rightarrow> put_request"
  de_put_batch :: "string \<Rightarrow> put_batch_request"
  de_batch_get :: "string \<Rightarrow> batch_get_request"
  en_get :: "get_response \<Rightarrow> string"
  en_put :: "put_response \<Rightarrow> string"
  en_put_batch :: "put_batch_response \<Rightarrow> string"
  en_batch_get :: "batch_get_response \<Rightarrow> string"

definition kServiceFullName :: string where "kServiceFullName = ''yikv.db.YikvDb''"
definition kMethodGet :: string where "kMethodGet = ''Get''"
definition kMethodPut :: string where "kMethodPut = ''Put''"
definition kMethodPutBatch :: string where "kMethodPutBatch = ''PutBatch''"
definition kMethodBatchGet :: string where "kMethodBatchGet = ''BatchGet''"

definition Grpc_Get ::
  "('d, 'k) engine \<Rightarrow> codec \<Rightarrow> u64 \<Rightarrow> string \<Rightarrow> ('w, 'r, 'k) server \<Rightarrow> string \<times> ('w, 'r, 'k) server" where
  "Grpc_Get E C ns pl s = map_prod (en_get C) id (HandleGet E ns (de_get C pl) s)"

definition Grpc_Put ::
  "('d, 'k) engine \<Rightarrow> codec \<Rightarrow> string \<Rightarrow> ('w, 'r, 'k) server \<Rightarrow> string \<times> ('w, 'r, 'k) server" where
  "Grpc_Put E C pl s = map_prod (en_put C) id (HandlePut E (de_put C pl) s)"

definition Grpc_PutBatch ::
  "('d, 'k) engine \<Rightarrow> codec \<Rightarrow> string \<Rightarrow> ('w, 'r, 'k) server \<Rightarrow> string \<times> ('w, 'r, 'k) server" where
  "Grpc_PutBatch E C pl s = map_prod (en_put_batch C) id (HandlePutBatch E (de_put_batch C pl) s)"

definition Grpc_BatchGet ::
  "('d, 'k) engine \<Rightarrow> codec \<Rightarrow> string \<Rightarrow> ('w, 'r, 'k) server \<Rightarrow> string \<times> ('w, 'r, 'k) server" where
  "Grpc_BatchGet E C pl s = map_prod (en_batch_get C) id (HandleBatchGet E (de_batch_get C pl) s)"

datatype rpc_error = EREQUEST | ENOSERVICE | ENOMETHOD

text \<open>The meta of a request is its service and method name; it may be missing.\<close>

definition ProcessRpcRequest ::
  "('d, 'k) engine \<Rightarrow> codec \<Rightarrow> u64 \<Rightarrow> (string \<times> string) option \<Rightarrow> string \<Rightarrow> ('w, 'r, 'k) server \<Rightarrow>
   (rpc_error + string) \<times> ('w, 'r, 'k) server" where
  "ProcessRpcRequest E C ns meta body s =
     (case meta of
        None \<Rightarrow> (Inl EREQUEST, s)
      | Some (service_name, method_name) \<Rightarrow>
          if service_name \<noteq> kServiceFullName then (Inl ENOSERVICE, s)
          else let req_ptr = (if body = [] then [] else body) in
          if method_name = kMethodGet then
            map_prod (\<lambda>r. Inr (en_get C r)) id (HandleGet E ns (de_get C req_ptr) s)
          else if method_name = kMethodPut then
            map_prod (\<lambda>r. Inr (en_put C r)) id (HandlePut E (de_put C req_ptr) s)
          else if method_name = kMethodPutBatch then
            map_prod (\<lambda>r. Inr (en_put_batch C r)) id (HandlePutBatch E (de_put_batch C req_ptr) s)
          else if method_name = kMethodBatchGet then
            map_prod (\<lambda>r. Inr (en_batch_get C r)) id (HandleBatchGet E (de_batch_get C req_ptr) s)
          else (Inl ENOMETHOD, s))"

section \<open>The admin socket\<close>

definition TrimCrlf :: "string \<Rightarrow> string" where
  "TrimCrlf s = rtrim (\<lambda>c. c = CHR 0x0A \<or> c = CHR 0x0D) s"

text \<open>One \<open>read\<close> of at most 1023 bytes; as a C string it ends at the first NUL.\<close>

definition admin_line :: "string option \<Rightarrow> string" where
  "admin_line input =
     TrimCrlf (case input of None \<Rightarrow> [] | Some bytes \<Rightarrow> takeWhile (\<lambda>c. c \<noteq> nul) (take 1023 bytes))"

datatype admin_command = Admin_empty | Admin_no_table | Admin_unknown | Admin_reload string

definition admin_parse :: "string \<Rightarrow> admin_command" where
  "admin_parse line =
     (if starts_with ''reload '' line then
        (let table = TrimCrlf (dropWhile (\<lambda>c. c = CHR '' '') (drop 7 line))
         in if table = [] then Admin_no_table else Admin_reload table)
      else if line \<noteq> [] then Admin_unknown else Admin_empty)"

text \<open>\<open>None\<close>: the reload waits for ever, or the process has crashed.\<close>

definition admin_connection ::
  "('w, 'r) world \<Rightarrow> json_ops \<Rightarrow> nat list list \<Rightarrow> string option \<Rightarrow> ('w, 'r) registry \<Rightarrow>
   (string \<times> ('w, 'r) registry) option" where
  "admin_connection W J polls input R =
     (case admin_parse (admin_line input) of
        Admin_empty \<Rightarrow> Some (''err: empty command'' @ [CHR 0x0A], R)
      | Admin_no_table \<Rightarrow> Some (''err: missing table name'' @ [CHR 0x0A], R)
      | Admin_unknown \<Rightarrow> Some (''err: expected '' @ [CHR 0x27] @ ''reload <table>'' @ [CHR 0x27, CHR 0x0A], R)
      | Admin_reload table \<Rightarrow>
          (case ReloadTable W J polls table R of
             None \<Rightarrow> None
           | Some (Returns _, R') \<Rightarrow> Some (''ok'' @ [CHR 0x0A], R')
           | Some (Throws e, R') \<Rightarrow> Some (''err: '' @ e @ [CHR 0x0A], R')
           | Some (Crashes, R') \<Rightarrow> None))"

record admin_env =
  ae_unlink_ok :: bool
  ae_socket_ok :: bool
  ae_bind_ok :: bool
  ae_listen_ok :: bool

definition sun_path_size :: nat where "sun_path_size = 108"

text \<open>Whether the loop gets to accept connections.\<close>

definition AdminLoop_listens :: "admin_env \<Rightarrow> string \<Rightarrow> bool" where
  "AdminLoop_listens A path =
     (if \<not> ae_unlink_ok A then False
      else if \<not> ae_socket_ok A then False
      else if length path \<ge> sun_path_size then False
      else if \<not> ae_bind_ok A then False
      else if \<not> ae_listen_ok A then False
      else True)"

text \<open>The loop: one connection after the other.\<close>

fun AdminLoop ::
  "('w, 'r) world \<Rightarrow> json_ops \<Rightarrow> (string option \<times> nat list list) list \<Rightarrow> ('w, 'r) registry \<Rightarrow>
   (string list \<times> ('w, 'r) registry) option" where
  "AdminLoop W J [] R = Some ([], R)"
| "AdminLoop W J ((input, polls) # conns) R =
     (case admin_connection W J polls input R of
        None \<Rightarrow> None
      | Some (resp, R') \<Rightarrow> map_option (map_prod (\<lambda>rs. resp # rs) id) (AdminLoop W J conns R'))"

definition StartAdminUnixSocket :: "admin_env \<Rightarrow> string \<Rightarrow> bool" where
  "StartAdminUnixSocket A path = (if path = [] then False else AdminLoop_listens A path)"

section \<open>\<open>main\<close>\<close>

text \<open>
  The exit code, from what the calls of \<open>main\<close> give; once the tables are loaded, with whether the
  admin socket listens, which is set up before the scan so that it can be probed meanwhile, and
  with the registry. (The allocator mode of the server is a constant and left out.)
\<close>

record main_env =
  me_add_service_ok :: bool
  me_start_ok :: "string \<Rightarrow> bool"

definition server_main ::
  "main_env \<Rightarrow> config_env \<Rightarrow> json_ops \<Rightarrow> (db_options \<Rightarrow> 'w) \<Rightarrow> admin_env \<Rightarrow> ('w, 'r) world \<Rightarrow> string list \<Rightarrow>
   (i32 \<times> (bool \<times> ('w, 'r) registry) option) ending" where
  "server_main M F J db_init A W argv =
     (if length argv < 2 then Returns (2, None)
      else case LoadServerConfig F J (argv ! 1) of
        Inl e \<Rightarrow> Returns (2, None)
      | Inr cfg \<Rightarrow>
          let reg = TableRegistry_init (db_init (main_db_options cfg)) (sv_db_path cfg) (sv_kafka_default_brokers cfg);
              admin = StartAdminUnixSocket A (sv_admin_unix_socket cfg)
          in (case ScanAndLoad W J reg of
             (Throws e, R) \<Rightarrow> Throws e
           | (Crashes, R) \<Rightarrow> Crashes
           | (Returns _, R) \<Rightarrow>
               if \<not> me_add_service_ok M then Returns (1, Some (admin, R))
               else if \<not> me_start_ok M (sv_listen cfg) then Returns (1, Some (admin, R))
               else Returns (0, Some (admin, R))))"

section \<open>Properties\<close>

text \<open>
  C40: The two RPC services are interchangeable: for every payload and state, a call of a method of
  the service over baidu_std gives the response bytes and the state that the gRPC method gives;
  a request with missing meta, another service or an unknown method is an error that changes nothing.
\<close>

theorem rpc_services_agree:
  "ProcessRpcRequest E C ns (Some (kServiceFullName, kMethodGet)) pl s = map_prod Inr id (Grpc_Get E C ns pl s) \<and>
   ProcessRpcRequest E C ns (Some (kServiceFullName, kMethodPut)) pl s = map_prod Inr id (Grpc_Put E C pl s) \<and>
   ProcessRpcRequest E C ns (Some (kServiceFullName, kMethodPutBatch)) pl s = map_prod Inr id (Grpc_PutBatch E C pl s) \<and>
   ProcessRpcRequest E C ns (Some (kServiceFullName, kMethodBatchGet)) pl s = map_prod Inr id (Grpc_BatchGet E C pl s) \<and>
   (case fst (ProcessRpcRequest E C ns meta pl s) of Inl e \<Rightarrow> snd (ProcessRpcRequest E C ns meta pl s) = s | Inr r \<Rightarrow> True)"
proof -
  have methods: "kMethodPut \<noteq> kMethodGet" "kMethodPutBatch \<noteq> kMethodGet" "kMethodPutBatch \<noteq> kMethodPut"
    "kMethodBatchGet \<noteq> kMethodGet" "kMethodBatchGet \<noteq> kMethodPut" "kMethodBatchGet \<noteq> kMethodPutBatch"
    by (simp_all add: kMethodGet_def kMethodPut_def kMethodPutBatch_def kMethodBatchGet_def)
  show ?thesis
    by (simp add: ProcessRpcRequest_def methods Grpc_Get_def Grpc_Put_def Grpc_PutBatch_def Grpc_BatchGet_def
        map_prod_def case_prod_beta split: option.split)
qed

lemma TrimCrlf_append_newline: "TrimCrlf (s @ [CHR 0x0A]) = TrimCrlf s"
  unfolding TrimCrlf_def by (rule rtrim_append_all) simp

lemma TrimCrlf_id: "s \<noteq> [] \<Longrightarrow> last s \<noteq> CHR 0x0A \<Longrightarrow> last s \<noteq> CHR 0x0D \<Longrightarrow> TrimCrlf s = s"
  unfolding TrimCrlf_def by (rule rtrim_id) simp

lemma nul_eq: "nul = CHR 0x00"
  by code_simp

text \<open>
  The reload command reaches the table it names. A line "reload NAME" and a newline, for a name
  of at most 1015 bytes with no NUL byte that neither starts with a space nor ends with a CR or
  LF, is understood as the reload of exactly NAME, however many spaces stand before the name.
\<close>

theorem admin_reload_parsed:
  assumes "name \<noteq> []" "hd name \<noteq> CHR '' ''" "last name \<noteq> CHR 0x0A" "last name \<noteq> CHR 0x0D" "nul \<notin> set name"
    and "7 + n + length name < 1023"
  shows "admin_parse (admin_line (Some (''reload '' @ replicate n CHR '' '' @ name @ [CHR 0x0A]))) = Admin_reload name"
proof -
  let ?cmd = "''reload '' @ replicate n CHR '' '' @ name"
  have tk: "take 1023 (?cmd @ [CHR 0x0A]) = ?cmd @ [CHR 0x0A]" using assms(6) by simp
  have "nul \<notin> set (?cmd @ [CHR 0x0A])" using assms(5) by (auto simp: nul_eq)
  then have tw: "takeWhile (\<lambda>c. c \<noteq> nul) (?cmd @ [CHR 0x0A]) = ?cmd @ [CHR 0x0A]"
    by (intro takeWhile_eq_all_conv [THEN iffD2]) blast
  have line: "admin_line (Some (?cmd @ [CHR 0x0A])) = ?cmd"
    unfolding admin_line_def option.case tk tw TrimCrlf_append_newline
    by (rule TrimCrlf_id) (use assms in simp_all)
  have sp: "dropWhile (\<lambda>c. c = CHR '' '') (replicate n CHR '' '' @ name) = name"
    using assms(1,2) by (induction n) (cases name; simp)+
  have "admin_parse ?cmd = Admin_reload name"
    using TrimCrlf_id [OF assms(1,3,4)] assms(1) sp
    by (simp add: admin_parse_def starts_with_def Let_def del: append_Cons)
  with line show ?thesis by simp
qed

theorem admin_reload_parsed_witness:
  "admin_parse (admin_line (Some (''reload '' @ replicate 2 CHR '' '' @ ''orders'' @ [CHR 0x0A]))) = Admin_reload ''orders''"
  by (rule admin_reload_parsed) (simp_all add: nul_eq)

end
