(* ===== verification/Arrow.thy ===== *)
theory Arrow
  imports Engine
begin

text \<open>
  The interface of Apache Arrow as the import uses it. Arrays and record batches are values of
  parameter types; the accessors the code calls on them are the fields of a record. An accessor
  reached through a \<open>static_cast\<close> to one array class is that field whatever the array really
  is; \<open>arrow_ok\<close> states what it returns for an array of its own class only. Row numbers are
  non-negative throughout, so they are naturals.
\<close>

text \<open>\<open>arrow::Type::type\<close>: the ones the code distinguishes, and the rest.\<close>

datatype arrow_type = AT_BOOL | AT_INT8 | AT_INT16 | AT_INT32 | AT_INT64 | AT_UINT8 | AT_UINT16
  | AT_UINT32 | AT_UINT64 | AT_FLOAT | AT_DOUBLE | AT_STRING | AT_BINARY | AT_LIST | AT_LARGE_LIST
  | AT_other nat

text \<open>\<open>arrow::Status\<close>: the codes the code produces, and those that come from Arrow itself.\<close>

datatype status = Status_OK | Invalid string | NotImplemented string | OutOfMemory string
  | Arrow_error string

definition st_ok :: "status \<Rightarrow> bool" where
  "st_ok st \<longleftrightarrow> st = Status_OK"

lemma st_ok_simps [simp]: "st_ok Status_OK" "\<not> st_ok (Invalid m)" "\<not> st_ok (NotImplemented m)"
    "\<not> st_ok (OutOfMemory m)" "\<not> st_ok (Arrow_error m)"
  by (simp_all add: st_ok_def)

record ('a, 'b) arrow =
  type_id :: "'a \<Rightarrow> arrow_type"
  is_null_at :: "'a \<Rightarrow> nat \<Rightarrow> bool"
  bool_value :: "'a \<Rightarrow> nat \<Rightarrow> bool"
  int8_value :: "'a \<Rightarrow> nat \<Rightarrow> 8 word"
  int16_value :: "'a \<Rightarrow> nat \<Rightarrow> 16 word"
  int32_value :: "'a \<Rightarrow> nat \<Rightarrow> i32"
  int64_value :: "'a \<Rightarrow> nat \<Rightarrow> i64"
  uint8_value :: "'a \<Rightarrow> nat \<Rightarrow> u8"
  uint16_value :: "'a \<Rightarrow> nat \<Rightarrow> u16"
  uint32_value :: "'a \<Rightarrow> nat \<Rightarrow> u32"
  uint64_value :: "'a \<Rightarrow> nat \<Rightarrow> u64"
  float_value :: "'a \<Rightarrow> nat \<Rightarrow> f32"
  double_value :: "'a \<Rightarrow> nat \<Rightarrow> f64"
  string_view :: "'a \<Rightarrow> nat \<Rightarrow> string"
  binary_view :: "'a \<Rightarrow> nat \<Rightarrow> string"
  value_offset :: "'a \<Rightarrow> nat \<Rightarrow> nat"
  value_length :: "'a \<Rightarrow> nat \<Rightarrow> nat"
  list_values :: "'a \<Rightarrow> 'a"
  num_rows :: "'b \<Rightarrow> nat"
  column_by_name :: "'b \<Rightarrow> string \<Rightarrow> 'a option"

text \<open>
  A row of a column as a value: null, an integer (mathematical, whatever its width and sign), a
  floating point number, a string, or a list of such. \<open>None\<close>: a type the code does not know.
\<close>

datatype cell = C_null | C_bool bool | C_int int | C_f32 f32 | C_f64 f64 | C_str string
  | C_list arrow_type "cell list"

definition scalar_cell :: "('a, 'b) arrow \<Rightarrow> 'a \<Rightarrow> nat \<Rightarrow> cell option" where
  "scalar_cell A c r =
     (case type_id A c of
        AT_BOOL \<Rightarrow> Some (C_bool (bool_value A c r))
      | AT_INT8 \<Rightarrow> Some (C_int (sint (int8_value A c r)))
      | AT_INT16 \<Rightarrow> Some (C_int (sint (int16_value A c r)))
      | AT_INT32 \<Rightarrow> Some (C_int (sint (int32_value A c r)))
      | AT_INT64 \<Rightarrow> Some (C_int (sint (int64_value A c r)))
      | AT_UINT8 \<Rightarrow> Some (C_int (uint (uint8_value A c r)))
      | AT_UINT16 \<Rightarrow> Some (C_int (uint (uint16_value A c r)))
      | AT_UINT32 \<Rightarrow> Some (C_int (uint (uint32_value A c r)))
      | AT_UINT64 \<Rightarrow> Some (C_int (uint (uint64_value A c r)))
      | AT_FLOAT \<Rightarrow> Some (C_f32 (float_value A c r))
      | AT_DOUBLE \<Rightarrow> Some (C_f64 (double_value A c r))
      | AT_STRING \<Rightarrow> Some (C_str (string_view A c r))
      | AT_BINARY \<Rightarrow> Some (C_str (binary_view A c r))
      | _ \<Rightarrow> None)"

section \<open>A concrete Arrow, for the witnesses\<close>

text \<open>
  Arrays whose elements carry their own bits; a read through the wrong class reinterprets them,
  here as 0 or the empty string.
\<close>

datatype ref_array = Ref_array arrow_type "cell list" | Ref_list "nat list" "nat list" ref_array

fun ref_cells :: "ref_array \<Rightarrow> cell list" where
  "ref_cells (Ref_array t cs) = cs"
| "ref_cells (Ref_list offs lens vs) = map (\<lambda>i. C_list AT_LIST []) offs"

definition ref_cell :: "ref_array \<Rightarrow> nat \<Rightarrow> cell" where
  "ref_cell c r = (if r < length (ref_cells c) then ref_cells c ! r else C_null)"

definition ref_int :: "ref_array \<Rightarrow> nat \<Rightarrow> int" where
  "ref_int c r = (case ref_cell c r of C_int i \<Rightarrow> i | _ \<Rightarrow> 0)"

definition ref_string :: "ref_array \<Rightarrow> nat \<Rightarrow> string" where
  "ref_string c r = (case ref_cell c r of C_str s \<Rightarrow> s | _ \<Rightarrow> [])"

record ref_batch =
  rb_rows :: nat
  rb_columns :: "(string \<times> ref_array) list"

definition ref_arrow :: "(ref_array, ref_batch) arrow" where
  "ref_arrow = \<lparr>
     type_id = (\<lambda>c. case c of Ref_array t cs \<Rightarrow> t | Ref_list _ _ _ \<Rightarrow> AT_LIST),
     is_null_at = (\<lambda>c r. ref_cell c r = C_null),
     bool_value = (\<lambda>c r. ref_cell c r = C_bool True),
     int8_value = (\<lambda>c r. word_of_int (ref_int c r)),
     int16_value = (\<lambda>c r. word_of_int (ref_int c r)),
     int32_value = (\<lambda>c r. word_of_int (ref_int c r)),
     int64_value = (\<lambda>c r. word_of_int (ref_int c r)),
     uint8_value = (\<lambda>c r. word_of_int (ref_int c r)),
     uint16_value = (\<lambda>c r. word_of_int (ref_int c r)),
     uint32_value = (\<lambda>c r. word_of_int (ref_int c r)),
     uint64_value = (\<lambda>c r. word_of_int (ref_int c r)),
     float_value = (\<lambda>c r. case ref_cell c r of C_f32 x \<Rightarrow> x | _ \<Rightarrow> F32 0),
     double_value = (\<lambda>c r. case ref_cell c r of C_f64 x \<Rightarrow> x | _ \<Rightarrow> F64 0),
     string_view = ref_string,
     binary_view = ref_string,
     value_offset = (\<lambda>c r. case c of Ref_list offs lens vs \<Rightarrow> offs ! r | _ \<Rightarrow> 0),
     value_length = (\<lambda>c r. case c of Ref_list offs lens vs \<Rightarrow> lens ! r | _ \<Rightarrow> 0),
     list_values = (\<lambda>c. case c of Ref_list offs lens vs \<Rightarrow> vs | _ \<Rightarrow> c),
     num_rows = rb_rows,
     column_by_name = (\<lambda>b n. map_of (rb_columns b) n)\<rparr>"

end
