(* ===== verification/ArrowDoc.thy ===== *)
theory ArrowDoc
  imports Arrow RefEngine
begin

text \<open>
  \<open>import/arrow_doc_helpers.cc\<close>: one cell of an Arrow column into one field of a document. The
  functions return the status and the document as they leave it.
\<close>

definition INT32_MAX :: "'a::len word" where "INT32_MAX = word_of_int int32_max"
definition INT64_MAX :: u64 where "INT64_MAX = word_of_int int64_max"

definition ArrowCellIsNull :: "('a, 'b) arrow \<Rightarrow> 'a \<Rightarrow> nat \<Rightarrow> bool" where
  "ArrowCellIsNull A col r = is_null_at A col r"

text \<open>The integer conversions of the two integer field types.\<close>

definition int32_of_cell :: "('a, 'b) arrow \<Rightarrow> field_def \<Rightarrow> 'a \<Rightarrow> nat \<Rightarrow> status + i32" where
  "int32_of_cell A def col r =
     (let invalid = (\<lambda>m. Inl (Invalid (''field '' @ fd_name def @ m))) in
      case type_id A col of
        AT_INT8 \<Rightarrow> Inr (scast (int8_value A col r))
      | AT_INT16 \<Rightarrow> Inr (scast (int16_value A col r))
      | AT_INT32 \<Rightarrow> Inr (int32_value A col r)
      | AT_UINT8 \<Rightarrow> Inr (ucast (uint8_value A col r))
      | AT_UINT16 \<Rightarrow> Inr (ucast (uint16_value A col r))
      | AT_UINT32 \<Rightarrow>
          (let u = uint32_value A col r in
           if u > INT32_MAX then invalid '': uint32 too large for int32'' else Inr u)
      | AT_INT64 \<Rightarrow>
          (let x = int64_value A col r in
           if sint x > int32_max \<or> sint x < int32_min then invalid '': int64 out of int32 range''
           else Inr (ucast x))
      | AT_UINT64 \<Rightarrow>
          (let u = uint64_value A col r in
           if u > INT32_MAX then invalid '': uint64 too large for int32'' else Inr (ucast u))
      | _ \<Rightarrow> invalid '': unsupported Arrow type for int32'')"

definition int64_of_cell :: "('a, 'b) arrow \<Rightarrow> field_def \<Rightarrow> 'a \<Rightarrow> nat \<Rightarrow> status + i64" where
  "int64_of_cell A def col r =
     (let invalid = (\<lambda>m. Inl (Invalid (''field '' @ fd_name def @ m))) in
      case type_id A col of
        AT_INT64 \<Rightarrow> Inr (int64_value A col r)
      | AT_INT32 \<Rightarrow> Inr (scast (int32_value A col r))
      | AT_UINT32 \<Rightarrow> Inr (ucast (uint32_value A col r))
      | AT_UINT64 \<Rightarrow>
          (let u = uint64_value A col r in
           if u > INT64_MAX then invalid '': uint64 too large for int64'' else Inr u)
      | _ \<Rightarrow> invalid '': unsupported type for int64'')"

definition ApplyScalar ::
  "('d, 'k) engine \<Rightarrow> ('a, 'b) arrow \<Rightarrow> field_def \<Rightarrow> 'a \<Rightarrow> nat \<Rightarrow> 'd \<Rightarrow> status \<times> 'd" where
  "ApplyScalar E A def col r doc =
     (if ArrowCellIsNull A col r then (Status_OK, doc)
      else
        let fid = fd_id def; invalid = (\<lambda>m. Invalid (''field '' @ fd_name def @ m)) in
        case fd_type def of
          DT_Bool \<Rightarrow>
            if type_id A col \<noteq> AT_BOOL then (invalid '': expected bool column'', doc)
            else (Status_OK, put_int32 E doc fid (if bool_value A col r then 1 else 0))
        | DT_Int32 \<Rightarrow>
            (case int32_of_cell A def col r of
               Inl st \<Rightarrow> (st, doc) | Inr v \<Rightarrow> (Status_OK, put_int32 E doc fid v))
        | DT_Int64 \<Rightarrow>
            (case int64_of_cell A def col r of
               Inl st \<Rightarrow> (st, doc) | Inr v \<Rightarrow> (Status_OK, put_int64 E doc fid v))
        | DT_Float32 \<Rightarrow>
            if type_id A col \<noteq> AT_FLOAT then (invalid '': expected float'', doc)
            else (Status_OK, put_float E doc fid (float_value A col r))
        | DT_Float64 \<Rightarrow>
            if type_id A col \<noteq> AT_DOUBLE then (invalid '': expected double'', doc)
            else (Status_OK, put_double E doc fid (double_value A col r))
        | _ \<Rightarrow>
            if type_id A col = AT_STRING then (Status_OK, put_string E doc fid (string_view A col r))
            else if type_id A col = AT_BINARY then (Status_OK, put_string E doc fid (binary_view A col r))
            else (invalid '': expected string/binary'', doc))"

text \<open>
  The elements \<open>off\<close>, \<dots>, \<open>off + len - 1\<close> of the child array, through the accessor of the class it
  is cast to. The code does not look at the type of the child for the numeric lists; it hands the
  length on as a \<open>uint32_t\<close>.
\<close>

definition slice :: "(nat \<Rightarrow> 'v) \<Rightarrow> nat \<Rightarrow> nat \<Rightarrow> 'v list" where
  "slice f off len = map (\<lambda>i. f (off + i)) [0..<unat (of_nat len :: u32)]"

definition ApplyListFixed ::
  "('d, 'k) engine \<Rightarrow> ('a, 'b) arrow \<Rightarrow> field_def \<Rightarrow> 'a \<Rightarrow> nat \<Rightarrow> data_type \<Rightarrow> 'd \<Rightarrow> status \<times> 'd" where
  "ApplyListFixed E A def list_arr r elem_dt doc =
     (if is_null_at A list_arr r then (Status_OK, doc)
      else
        let off = value_offset A list_arr r; len = value_length A list_arr r; fid = fd_id def in
        if len = 0 then
          (Status_OK,
           case elem_dt of
             DT_Int32 \<Rightarrow> array_put_int32 E doc fid []
           | DT_Int64 \<Rightarrow> array_put_int64 E doc fid []
           | DT_Float32 \<Rightarrow> array_put_float E doc fid []
           | DT_Float64 \<Rightarrow> array_put_double E doc fid []
           | DT_String \<Rightarrow> array_put_string E doc fid []
           | _ \<Rightarrow> doc)
        else
          let vs = list_values A list_arr in
          case elem_dt of
            DT_Int32 \<Rightarrow> (Status_OK, array_put_int32 E doc fid (slice (int32_value A vs) off len))
          | DT_Int64 \<Rightarrow> (Status_OK, array_put_int64 E doc fid (slice (int64_value A vs) off len))
          | DT_Float32 \<Rightarrow> (Status_OK, array_put_float E doc fid (slice (float_value A vs) off len))
          | DT_Float64 \<Rightarrow> (Status_OK, array_put_double E doc fid (slice (double_value A vs) off len))
          | DT_String \<Rightarrow>
              if type_id A vs \<noteq> AT_STRING then
                (Invalid (''field '' @ fd_name def @ '': list<string> expected STRING values''), doc)
              else (Status_OK, array_put_string E doc fid (slice (string_view A vs) off len))
          | _ \<Rightarrow> (Invalid ''unsupported list element type'', doc))"

definition ApplyField ::
  "('d, 'k) engine \<Rightarrow> ('a, 'b) arrow \<Rightarrow> field_def \<Rightarrow> 'a \<Rightarrow> nat \<Rightarrow> 'd \<Rightarrow> status \<times> 'd" where
  "ApplyField E A def col r doc =
     (if \<not> fd_array def then ApplyScalar E A def col r doc
      else case type_id A col of
        AT_LIST \<Rightarrow> ApplyListFixed E A def col r (fd_type def) doc
      | AT_LARGE_LIST \<Rightarrow> ApplyListFixed E A def col r (fd_type def) doc
      | _ \<Rightarrow> (Invalid (''field '' @ fd_name def @ '': expected list column for is_array''), doc))"

section \<open>What a cell means for a field\<close>

text \<open>
  The value a cell denotes for a field: \<open>None\<close> if the import refuses it, \<open>Some None\<close> if it leaves
  the field as it is (null), \<open>Some (Some v)\<close> if it stores \<open>v\<close>. Integers are read as numbers: a cell
  is accepted when its value fits the field, whatever the width of the column.
\<close>

definition int64_columns :: "arrow_type list" where
  "int64_columns = [AT_INT32, AT_INT64, AT_UINT32, AT_UINT64]"

definition scalar_meaning :: "('a, 'b) arrow \<Rightarrow> field_def \<Rightarrow> 'a \<Rightarrow> nat \<Rightarrow> cval option" where
  "scalar_meaning A def col r =
     (case (fd_type def, scalar_cell A col r) of
        (DT_Bool, Some (C_bool b)) \<Rightarrow> Some (V_I32 (if b then 1 else 0))
      | (DT_Int32, Some (C_int i)) \<Rightarrow>
          if int32_min \<le> i \<and> i \<le> int32_max then Some (V_I32 (word_of_int i)) else None
      | (DT_Int64, Some (C_int i)) \<Rightarrow>
          if type_id A col \<in> set int64_columns \<and> i \<le> int64_max then Some (V_I64 (word_of_int i)) else None
      | (DT_Float32, Some (C_f32 x)) \<Rightarrow> Some (V_F32 x)
      | (DT_Float64, Some (C_f64 x)) \<Rightarrow> Some (V_F64 x)
      | (DT_String, Some (C_str s)) \<Rightarrow> Some (V_Str s)
      | (DT_Bytes, Some (C_str s)) \<Rightarrow> Some (V_Str s)
      | _ \<Rightarrow> None)"

definition list_meaning :: "('a, 'b) arrow \<Rightarrow> field_def \<Rightarrow> 'a \<Rightarrow> nat \<Rightarrow> cval option option" where
  "list_meaning A def col r =
     (let off = value_offset A col r; len = value_length A col r; vs = list_values A col in
      case fd_type def of
        DT_Int32 \<Rightarrow> Some (Some (V_AI32 (slice (int32_value A vs) off len)))
      | DT_Int64 \<Rightarrow> Some (Some (V_AI64 (slice (int64_value A vs) off len)))
      | DT_Float32 \<Rightarrow> Some (Some (V_AF32 (slice (float_value A vs) off len)))
      | DT_Float64 \<Rightarrow> Some (Some (V_AF64 (slice (double_value A vs) off len)))
      | DT_String \<Rightarrow>
          if len \<noteq> 0 \<and> type_id A vs \<noteq> AT_STRING then None
          else Some (Some (V_AStr (slice (string_view A vs) off len)))
      | _ \<Rightarrow> if len = 0 then Some None else None)"

definition field_meaning :: "('a, 'b) arrow \<Rightarrow> field_def \<Rightarrow> 'a \<Rightarrow> nat \<Rightarrow> cval option option" where
  "field_meaning A def col r =
     (if \<not> fd_array def then
        (if is_null_at A col r then Some None else map_option Some (scalar_meaning A def col r))
      else if type_id A col \<notin> {AT_LIST, AT_LARGE_LIST} then None
      else if is_null_at A col r then Some None else list_meaning A def col r)"

section \<open>The code computes that meaning\<close>

lemma word_of_int_range_32:
  "uint (w :: u32) \<le> int32_max \<longleftrightarrow> w \<le> INT32_MAX"
  by (simp add: INT32_MAX_def int32_max_def word_le_def uint_word_of_int)

lemma word_of_int_range_64:
  "uint (w :: u64) \<le> int32_max \<longleftrightarrow> w \<le> INT32_MAX" "uint (w :: u64) \<le> int64_max \<longleftrightarrow> w \<le> INT64_MAX"
  by (simp_all add: INT32_MAX_def INT64_MAX_def int32_max_def int64_max_def word_le_def uint_word_of_int)

lemma sint_range_8: "- 128 \<le> sint (w :: 8 word) \<and> sint w \<le> 127"
  using sint_ge [of w] sint_lt [of w] by simp

lemma sint_range_16: "- 32768 \<le> sint (w :: 16 word) \<and> sint w \<le> 32767"
  using sint_ge [of w] sint_lt [of w] by simp

lemma uint_range_8: "0 \<le> uint (w :: u8) \<and> uint w \<le> 255"
  using uint_lt2p [of w] by simp

lemma uint_range_16: "0 \<le> uint (w :: u16) \<and> uint w \<le> 65535"
  using uint_lt2p [of w] by simp

lemma uint_range_32: "0 \<le> uint (w :: u32) \<and> uint w \<le> 4294967295"
  using uint_lt2p [of w] by simp

lemma ucast_eq_sint: "(ucast (w :: 'a::len word) :: 'b::len word) = word_of_int (sint w)"
  if "LENGTH('b) \<le> LENGTH('a)"
proof (rule bit_word_eqI)
  fix n assume "n < LENGTH('b)"
  with that have "LENGTH('a) - Suc 0 \<le> n \<Longrightarrow> n = LENGTH('a) - Suc 0" by simp
  with that \<open>n < LENGTH('b)\<close> show "bit (ucast w :: 'b word) n = bit (word_of_int (sint w) :: 'b word) n"
    by (auto simp: bit_simps min_def)
qed

lemma ranges_32:
  "int32_min \<le> sint (a :: 8 word)" "sint a \<le> int32_max" "int32_min \<le> sint (b :: 16 word)" "sint b \<le> int32_max"
  "int32_min \<le> sint (c :: 32 word)" "sint c \<le> int32_max" "int32_min \<le> uint (d :: 'x::len word)"
  "uint (e :: u8) \<le> int32_max" "uint (f :: u16) \<le> int32_max"
  using sint_range_8 [of a] sint_range_16 [of b] sint_i32_bounds [of c] uint_ge_0 [of d] uint_range_8 [of e]
    uint_range_16 [of f]
  by (simp_all add: int32_min_def int32_max_def order_trans [OF _ uint_ge_0])

lemma ranges_64:
  "sint (c :: 32 word) \<le> int64_max" "sint (w :: 64 word) \<le> int64_max" "uint (d :: u32) \<le> int64_max"
  using sint_i32_bounds [of c] sint_i64_bounds [of w] uint_range_32 [of d]
  by (simp_all add: int32_max_def int64_max_def)

lemma int32_of_cell_meaning:
  assumes "fd_type def = DT_Int32"
  shows "scalar_meaning A def col r =
    (case int32_of_cell A def col r of Inl _ \<Rightarrow> None | Inr v \<Rightarrow> Some (V_I32 v))"
  using assms
  by (cases "type_id A col")
    (simp_all add: scalar_meaning_def scalar_cell_def int32_of_cell_def Let_def ranges_32 ucast_eq_sint not_le [symmetric]
      word_of_int_range_32 word_of_int_range_64)

lemma int64_of_cell_meaning:
  assumes "fd_type def = DT_Int64"
  shows "scalar_meaning A def col r =
    (case int64_of_cell A def col r of Inl _ \<Rightarrow> None | Inr v \<Rightarrow> Some (V_I64 v))"
  using assms
  by (cases "type_id A col")
    (simp_all add: scalar_meaning_def scalar_cell_def int64_of_cell_def int64_columns_def Let_def ranges_64 not_le [symmetric]
      word_of_int_range_64)

text \<open>A result that agrees with a meaning.\<close>

definition field_result ::
  "('d, 'k) engine \<Rightarrow> field_def \<Rightarrow> 'd \<Rightarrow> cval option option \<Rightarrow> status \<times> 'd \<Rightarrow> bool" where
  "field_result E def doc m res =
     (case m of None \<Rightarrow> \<not> st_ok (fst res) \<and> snd res = doc
      | Some v \<Rightarrow> res = (Status_OK, write_opt E (fd_id def) v doc))"

lemma int_of_cell_fails:
  "int32_of_cell A def col r = Inl st \<Longrightarrow> \<not> st_ok st" "int64_of_cell A def col r = Inl st \<Longrightarrow> \<not> st_ok st"
  by (auto simp: int32_of_cell_def int64_of_cell_def Let_def split: arrow_type.splits if_splits)

lemma ApplyScalar_meaning:
  assumes "\<not> fd_array def"
  shows "field_result E def doc (field_meaning A def col r) (ApplyScalar E A def col r doc)"
proof (cases "is_null_at A col r")
  case True
  with assms show ?thesis
    by (simp add: field_result_def field_meaning_def ApplyScalar_def ArrowCellIsNull_def write_opt_def)
next
  case False
  show ?thesis
  proof (cases "fd_type def")
    case DT_Int32
    with assms False show ?thesis
      by (auto simp: field_result_def field_meaning_def ApplyScalar_def ArrowCellIsNull_def write_opt_def Let_def
          int32_of_cell_meaning int_of_cell_fails split: sum.split)
  next
    case DT_Int64
    with assms False show ?thesis
      by (auto simp: field_result_def field_meaning_def ApplyScalar_def ArrowCellIsNull_def write_opt_def Let_def
          int64_of_cell_meaning int_of_cell_fails split: sum.split)
  qed (use assms False in \<open>cases "type_id A col"; simp add: field_result_def field_meaning_def
      ApplyScalar_def ArrowCellIsNull_def write_opt_def Let_def scalar_meaning_def scalar_cell_def\<close>)+
qed

lemma slice_Nil [simp]: "slice f off 0 = []"
  by (simp add: slice_def)

lemma ApplyListFixed_meaning:
  assumes "fd_array def" "type_id A col \<in> {AT_LIST, AT_LARGE_LIST}"
  shows "field_result E def doc (field_meaning A def col r) (ApplyListFixed E A def col r (fd_type def) doc)"
  using assms
  by (cases "fd_type def")
    (auto simp: field_result_def field_meaning_def list_meaning_def ApplyListFixed_def write_opt_def Let_def)

lemma ApplyField_meaning: "field_result E def doc (field_meaning A def col r) (ApplyField E A def col r doc)"
proof (cases "fd_array def")
  case False
  then show ?thesis using ApplyScalar_meaning [OF False] by (simp add: ApplyField_def)
next
  case True
  show ?thesis
  proof (cases "type_id A col \<in> {AT_LIST, AT_LARGE_LIST}")
    case in_list: True
    from ApplyListFixed_meaning [OF True in_list] in_list True show ?thesis by (auto simp: ApplyField_def)
  next
    case False
    with True show ?thesis
      by (cases "type_id A col") (auto simp: ApplyField_def field_meaning_def field_result_def)
  qed
qed

lemma field_meaning_kind:
  "field_meaning A def col r = Some (Some v) \<Longrightarrow> kind_of_def def = Some (kind_of_val v)"
  by (auto simp: field_meaning_def scalar_meaning_def list_meaning_def kind_of_def_def Let_def
      split: if_splits data_type.splits option.splits cell.splits prod.splits)

section \<open>Integers are imported as numbers\<close>

lemma int64_column_min:
  "scalar_cell A col r = Some (C_int i) \<Longrightarrow> type_id A col \<in> set int64_columns \<Longrightarrow> int64_min \<le> i"
  using sint_i32_bounds [of "int32_value A col r"] sint_i64_bounds [of "int64_value A col r"]
  by (auto simp: scalar_cell_def int64_columns_def int32_min_def int64_min_def order_trans [OF _ uint_ge_0])

text \<open>
  C17: An integer cell is never stored as another number. Whatever the width and sign of its
  column, a 32-bit field accepts exactly the values of its range, a 64-bit field those of its
  range in a column of 32 or 64 bits, and then holds that number; every other cell is refused
  with an error and leaves the document alone.
\<close>

theorem int_cells_exact:
  assumes "doc_ok E" "\<not> fd_array def" "\<not> is_null_at A col r" "scalar_cell A col r = Some (C_int i)"
    and res: "(st, doc') = ApplyField E A def col r doc"
  shows "(fd_type def = DT_Int32 \<longrightarrow>
      (if int32_min \<le> i \<and> i \<le> int32_max then st = Status_OK \<and> sint (get_int32 E doc' (fd_id def)) = i
       else st \<noteq> Status_OK \<and> doc' = doc)) \<and>
    (fd_type def = DT_Int64 \<longrightarrow>
      (if type_id A col \<in> set int64_columns \<and> i \<le> int64_max
       then st = Status_OK \<and> sint (get_int64 E doc' (fd_id def)) = i
       else st \<noteq> Status_OK \<and> doc' = doc))"
proof -
  have m: "field_result E def doc (field_meaning A def col r) (st, doc')"
    unfolding res by (rule ApplyField_meaning)
  have rd: "read_at E (write_val E doc f v) f (kind_of_val v) = v" for f v
    using read_write_same [OF assms(1) refl] .
  show ?thesis
    using m assms(2-4) rd [of "fd_id def" "V_I32 (word_of_int i)"] rd [of "fd_id def" "V_I64 (word_of_int i)"]
      int64_column_min [OF assms(4)]
    by (auto simp: field_result_def field_meaning_def scalar_meaning_def write_opt_def st_ok_def
        sint_of_int_i32 sint_of_int_i64)
qed

definition ex_u32_column :: ref_array where
  "ex_u32_column = Ref_array AT_UINT32 [C_int 7, C_int 3000000000]"

definition ex_int32_field :: field_def where
  "ex_int32_field = \<lparr>fd_name = ''n'', fd_id = 2, fd_type = DT_Int32, fd_array = False\<rparr>"

theorem int_cells_exact_witness:
  "fst (ApplyField (ref_engine ex_schema) ref_arrow ex_int32_field ex_u32_column 1 []) \<noteq> Status_OK"
proof -
  have c: "scalar_cell ref_arrow ex_u32_column 1 = Some (C_int 3000000000)" by code_simp
  have n: "\<not> is_null_at ref_arrow ex_u32_column 1" by code_simp
  have f: "\<not> fd_array ex_int32_field" "fd_type ex_int32_field = DT_Int32" by (simp_all add: ex_int32_field_def)
  from int_cells_exact [OF ref_doc_ok f(1) n c prod.collapse] f(2)
  show ?thesis by (simp add: int32_max_def)
qed

end
