(* ===== verification/WriteWorker.thy ===== *)
theory WriteWorker
  imports ArrowDoc StreamSpec
begin

text \<open>
  \<open>indexer/worker/kv_write_worker.cc\<close>: the rows of a parsed batch into the index, in chunks of
  16384. The counters are 64-bit unsigned; the times of the progress log only go to the log line
  and are left out, its milestones are kept.
\<close>

definition kProgressLogEveryRows :: u64 where "kProgressLogEveryRows = 10000"
definition kImportChunkRows :: nat where "kImportChunkRows = 16 * 1024"

definition ValidateBatchColumns :: "('a, 'b) arrow \<Rightarrow> 'b \<Rightarrow> schema \<Rightarrow> status" where
  "ValidateBatchColumns A batch S =
     (case find (\<lambda>def. column_by_name A batch (fd_name def) = None) (sc_fields S) of
        None \<Rightarrow> Status_OK
      | Some def \<Rightarrow> Invalid (''parquet missing column: '' @ fd_name def))"

record import_progress =
  ip_rows_at_last_log :: u64
  ip_next_milestone :: u64

definition ImportProgress_init :: import_progress where
  "ImportProgress_init = \<lparr>ip_rows_at_last_log = 0, ip_next_milestone = 10000\<rparr>"

definition LogImportMilestone :: "u64 \<Rightarrow> import_progress \<Rightarrow> import_progress" where
  "LogImportMilestone total_imported prog = prog\<lparr>ip_rows_at_last_log := total_imported\<rparr>"

definition MaybeLogImportProgress :: "u64 \<Rightarrow> import_progress \<Rightarrow> import_progress" where
  "MaybeLogImportProgress total_imported prog =
     (if total_imported < ip_next_milestone prog then prog
      else (LogImportMilestone total_imported prog)
        \<lparr>ip_next_milestone := (total_imported div kProgressLogEveryRows + 1) * kProgressLogEveryRows\<rparr>)"

record 'k writer =
  wr_index :: 'k
  wr_rows_imported :: u64
  wr_skipped_pk_null :: u64
  wr_progress :: import_progress

text \<open>
  One row: the fields of the schema in order, each from the column of its name. A column that is
  absent would be dereferenced as a null pointer; \<open>None\<close> stands for that crash.
\<close>

fun apply_row_fields ::
  "('d, 'k) engine \<Rightarrow> ('a, 'b) arrow \<Rightarrow> 'b \<Rightarrow> nat \<Rightarrow> field_def list \<Rightarrow> 'd \<Rightarrow> (status \<times> 'd) option" where
  "apply_row_fields E A batch r [] doc = Some (Status_OK, doc)"
| "apply_row_fields E A batch r (def # defs) doc =
     (case column_by_name A batch (fd_name def) of
        None \<Rightarrow> None
      | Some col \<Rightarrow>
          (case ApplyField E A def col r doc of
             (st, doc') \<Rightarrow>
               if \<not> st_ok st then Some (st, doc')
               else apply_row_fields E A batch r defs doc'))"

definition import_pk :: "('d, 'k) engine \<Rightarrow> field_def \<Rightarrow> 'd \<Rightarrow> status + string" where
  "import_pk E pk doc =
     (case fd_type pk of
        DT_Bool \<Rightarrow> Inr (to_string_i32 (get_int32 E doc (fd_id pk)))
      | DT_Int32 \<Rightarrow> Inr (to_string_i32 (get_int32 E doc (fd_id pk)))
      | DT_Int64 \<Rightarrow> Inr (to_string_i64 (get_int64 E doc (fd_id pk)))
      | DT_String \<Rightarrow> Inr (get_string E doc (fd_id pk))
      | DT_Bytes \<Rightarrow> Inr (get_string E doc (fd_id pk))
      | _ \<Rightarrow> Inl (Invalid ''unsupported pk type for import''))"

datatype 'd row_result = Row_skipped | Row_failed status | Row_doc 'd | Row_crash

definition import_row ::
  "('d, 'k) engine \<Rightarrow> ('a, 'b) arrow \<Rightarrow> schema \<Rightarrow> field_def \<Rightarrow> 'b \<Rightarrow> 'k \<Rightarrow> nat \<Rightarrow> 'd row_result" where
  "import_row E A S pk_def batch idx r =
     (if (case column_by_name A batch (fd_name pk_def) of
            None \<Rightarrow> True | Some pk_col \<Rightarrow> ArrowCellIsNull A pk_col r) then Row_skipped
      else case apply_row_fields E A batch r (sc_fields S) (new_doc E idx) of
        None \<Rightarrow> Row_crash
      | Some (st, doc) \<Rightarrow>
          if \<not> st_ok st then Row_failed st
          else case import_pk E pk_def doc of
            Inl st \<Rightarrow> Row_failed st
          | Inr pk_str \<Rightarrow> if pk_str = [] then Row_skipped else Row_doc doc)"

text \<open>
  The rows of a chunk. What was counted and collected before a row that fails stays counted; the
  documents are dropped.
\<close>

datatype 'd chunk_result = Chunk_docs "'d list" u64 | Chunk_failed status u64 | Chunk_crash

fun import_chunk ::
  "('d, 'k) engine \<Rightarrow> ('a, 'b) arrow \<Rightarrow> schema \<Rightarrow> field_def \<Rightarrow> 'b \<Rightarrow> 'k \<Rightarrow> nat list \<Rightarrow> 'd list \<Rightarrow> u64 \<Rightarrow>
   'd chunk_result" where
  "import_chunk E A S pk batch idx [] docs skips = Chunk_docs docs skips"
| "import_chunk E A S pk batch idx (r # rs) docs skips =
     (case import_row E A S pk batch idx r of
        Row_skipped \<Rightarrow> import_chunk E A S pk batch idx rs docs (skips + 1)
      | Row_failed st \<Rightarrow> Chunk_failed st skips
      | Row_crash \<Rightarrow> Chunk_crash
      | Row_doc doc \<Rightarrow> import_chunk E A S pk batch idx rs (docs @ [doc]) skips)"

definition flush_chunk :: "('d, 'k) engine \<Rightarrow> 'd list \<Rightarrow> 'k writer \<Rightarrow> 'k writer" where
  "flush_chunk E docs w =
     (if docs = [] then w
      else let total_imported = wr_rows_imported w + of_nat (length docs) in
        w\<lparr>wr_index := kv_batch_put E (wr_index w) docs,
          wr_rows_imported := total_imported,
          wr_progress := MaybeLogImportProgress total_imported (wr_progress w)\<rparr>)"

function import_chunks ::
  "('d, 'k) engine \<Rightarrow> ('a, 'b) arrow \<Rightarrow> schema \<Rightarrow> field_def \<Rightarrow> 'b \<Rightarrow> nat \<Rightarrow> 'k writer \<Rightarrow> (status \<times> 'k writer) option" where
  "import_chunks E A S pk batch chunk_start w =
     (if \<not> chunk_start < num_rows A batch then Some (Status_OK, w)
      else let chunk_end = min (num_rows A batch) (chunk_start + kImportChunkRows) in
        case import_chunk E A S pk batch (wr_index w) [chunk_start..<chunk_end] [] (wr_skipped_pk_null w) of
          Chunk_crash \<Rightarrow> None
        | Chunk_failed st skips \<Rightarrow> Some (st, w\<lparr>wr_skipped_pk_null := skips\<rparr>)
        | Chunk_docs docs skips \<Rightarrow>
            import_chunks E A S pk batch (chunk_start + kImportChunkRows)
              (flush_chunk E docs (w\<lparr>wr_skipped_pk_null := skips\<rparr>)))"
  by pat_completeness auto
termination
  by (relation "measure (\<lambda>(E, A, S, pk, batch, chunk_start, w). num_rows A batch - chunk_start)")
    (auto simp: kImportChunkRows_def)

declare import_chunks.simps [simp del]

text \<open>\<open>None\<close>: the null pointer of an absent column is used.\<close>

definition ProcessBatch ::
  "('d, 'k) engine \<Rightarrow> ('a, 'b) arrow \<Rightarrow> schema \<Rightarrow> 'b \<Rightarrow> 'k writer \<Rightarrow> (status \<times> 'k writer) option" where
  "ProcessBatch E A S batch w =
     (let st = ValidateBatchColumns A batch S in
      if \<not> st_ok st then Some (st, w)
      else case sc_find S (sc_pk S) of
        None \<Rightarrow> Some (Invalid ''schema has no pk'', w)
      | Some pk_def \<Rightarrow> import_chunks E A S pk_def batch 0 w)"

end
