(* ===== verification/WriteSpec.thy ===== *)
theory WriteSpec
  imports WriteWorker
begin

text \<open>
  What the write worker makes of a batch: the sheet of rows the batch means, and the proof that
  the chunked loop writes exactly that sheet and counts it.
\<close>

section \<open>The sheet of a batch\<close>

text \<open>The meaning of a cell, \<open>None\<close> when the import refuses it.\<close>

definition cell_at :: "('a, 'b) arrow \<Rightarrow> 'b \<Rightarrow> nat \<Rightarrow> field_def \<Rightarrow> cval option option" where
  "cell_at A batch r def =
     (case column_by_name A batch (fd_name def) of None \<Rightarrow> None | Some col \<Rightarrow> field_meaning A def col r)"

text \<open>The value a cell gives a field whose value was \<open>c\<close>.\<close>

definition cell_val :: "('a, 'b) arrow \<Rightarrow> 'b \<Rightarrow> nat \<Rightarrow> field_def \<Rightarrow> cval \<Rightarrow> cval" where
  "cell_val A batch r def c = (case cell_at A batch r def of Some (Some v) \<Rightarrow> v | _ \<Rightarrow> c)"

definition row_accepted :: "('a, 'b) arrow \<Rightarrow> schema \<Rightarrow> 'b \<Rightarrow> nat \<Rightarrow> bool" where
  "row_accepted A S batch r = list_all (\<lambda>def. cell_at A batch r def \<noteq> None) (sc_fields S)"

definition sheet_row :: "('a, 'b) arrow \<Rightarrow> schema \<Rightarrow> 'b \<Rightarrow> nat \<Rightarrow> row_view" where
  "sheet_row A S batch r = map (\<lambda>(def, j). (def, cell_val A batch r def (default_val j))) (stored_fields S)"

text \<open>The key of a stored row: the text of its primary key.\<close>

definition row_key :: "schema \<Rightarrow> row_view \<Rightarrow> string" where
  "row_key S v =
     (case sc_find S (sc_pk S) of None \<Rightarrow> []
      | Some p \<Rightarrow> (case map_of v p of None \<Rightarrow> [] | Some c \<Rightarrow> cval_text c))"

definition pk_absent :: "('a, 'b) arrow \<Rightarrow> schema \<Rightarrow> 'b \<Rightarrow> nat \<Rightarrow> bool" where
  "pk_absent A S batch r =
     (case sc_find S (sc_pk S) of None \<Rightarrow> True
      | Some p \<Rightarrow>
          (case column_by_name A batch (fd_name p) of None \<Rightarrow> True | Some col \<Rightarrow> is_null_at A col r))"

text \<open>The rows the import keeps, each with its key, in order.\<close>

definition sheet_entry :: "('a, 'b) arrow \<Rightarrow> schema \<Rightarrow> 'b \<Rightarrow> nat \<Rightarrow> (string \<times> row_view) option" where
  "sheet_entry A S batch r =
     (let v = sheet_row A S batch r in
      if pk_absent A S batch r \<or> row_key S v = [] then None else Some (row_key S v, v))"

definition sheet :: "('a, 'b) arrow \<Rightarrow> schema \<Rightarrow> 'b \<Rightarrow> nat list \<Rightarrow> (string \<times> row_view) list" where
  "sheet A S batch rs = List.map_filter (sheet_entry A S batch) rs"

text \<open>Whether a batch is imported without an error.\<close>

definition row_good :: "('a, 'b) arrow \<Rightarrow> schema \<Rightarrow> 'b \<Rightarrow> nat \<Rightarrow> bool" where
  "row_good A S batch r \<longleftrightarrow> pk_absent A S batch r \<or> row_accepted A S batch r"

definition pk_importable :: "schema \<Rightarrow> bool" where
  "pk_importable S = (case sc_find S (sc_pk S) of None \<Rightarrow> False
    | Some p \<Rightarrow> fd_type p \<in> {DT_Bool, DT_Int32, DT_Int64, DT_String, DT_Bytes})"

definition columns_present :: "('a, 'b) arrow \<Rightarrow> schema \<Rightarrow> 'b \<Rightarrow> bool" where
  "columns_present A S batch = list_all (\<lambda>def. column_by_name A batch (fd_name def) \<noteq> None) (sc_fields S)"

section \<open>One row\<close>

lemma validate_ok: "st_ok (ValidateBatchColumns A batch S) \<longleftrightarrow> columns_present A S batch"
  by (auto simp: ValidateBatchColumns_def columns_present_def list_all_iff find_None_iff find_Some_iff
      split: option.split)

definition write_cells :: "('d, 'k) engine \<Rightarrow> ('a, 'b) arrow \<Rightarrow> 'b \<Rightarrow> nat \<Rightarrow> field_def list \<Rightarrow> 'd \<Rightarrow> 'd" where
  "write_cells E A batch r defs doc =
     fold (\<lambda>def d. write_opt E (fd_id def) (the (cell_at A batch r def)) d) defs doc"

lemma ApplyField_cell:
  assumes "column_by_name A batch (fd_name def) = Some col"
  shows "(case cell_at A batch r def of
      None \<Rightarrow> (\<exists>st. ApplyField E A def col r doc = (st, doc) \<and> \<not> st_ok st)
    | Some v \<Rightarrow> ApplyField E A def col r doc = (Status_OK, write_opt E (fd_id def) v doc))"
  using ApplyField_meaning [of E def doc A col r] assms
  by (cases "ApplyField E A def col r doc") (auto simp: cell_at_def field_result_def split: option.splits)

lemma apply_row_fields_eq:
  assumes "list_all (\<lambda>def. column_by_name A batch (fd_name def) \<noteq> None) defs"
  shows "if list_all (\<lambda>def. cell_at A batch r def \<noteq> None) defs
    then apply_row_fields E A batch r defs doc = Some (Status_OK, write_cells E A batch r defs doc)
    else (\<exists>st d. apply_row_fields E A batch r defs doc = Some (st, d) \<and> \<not> st_ok st)"
  using assms
proof (induction defs arbitrary: doc)
  case Nil
  then show ?case by (simp add: write_cells_def)
next
  case (Cons def defs)
  then obtain col where col: "column_by_name A batch (fd_name def) = Some col" by auto
  from Cons.prems have rest: "list_all (\<lambda>def. column_by_name A batch (fd_name def) \<noteq> None) defs" by simp
  show ?case
  proof (cases "cell_at A batch r def")
    case None
    with col ApplyField_cell [OF col, where r = r and E = E and doc = doc] show ?thesis by auto
  next
    case (Some v)
    with col ApplyField_cell [OF col, where r = r and E = E and doc = doc] Cons.IH [OF rest, of "write_opt E (fd_id def) v doc"]
    show ?thesis by (auto simp: write_cells_def split: if_splits)
  qed
qed

lemma read_write_cells:
  assumes "doc_ok E" "schema_ok S" "def \<in> set (sc_fields S)" "kind_of_def def = Some j"
    and "set defs \<subseteq> set (sc_fields S)" "distinct defs" "list_all (\<lambda>def. cell_at A batch r def \<noteq> None) defs"
  shows "read_at E (write_cells E A batch r defs doc) (fd_id def) j =
    (if def \<in> set defs then cell_val A batch r def (read_at E doc (fd_id def) j) else read_at E doc (fd_id def) j)"
  using assms(5-7)
proof (induction defs arbitrary: doc)
  case Nil
  then show ?case by (simp add: write_cells_def)
next
  case (Cons d defs)
  let ?doc = "write_opt E (fd_id d) (the (cell_at A batch r d)) doc"
  from Cons.prems obtain w where w: "cell_at A batch r d = Some w" by auto
  have k: "\<And>v. the (cell_at A batch r d) = Some v \<Longrightarrow> kind_of_def d = Some (kind_of_val v)"
    using w by (auto simp: cell_at_def field_meaning_kind split: option.splits)
  have d: "d \<in> set (sc_fields S)" using Cons.prems by simp
  have step: "read_at E ?doc (fd_id def) j =
      (if d = def then cell_val A batch r def (read_at E doc (fd_id def) j) else read_at E doc (fd_id def) j)"
    using read_write_opt [OF assms(1,2) d assms(3,4) k] schema_id_inj [OF assms(2) d assms(3)] w
    by (auto simp: cell_val_def split: option.split)
  have "read_at E (write_cells E A batch r defs ?doc) (fd_id def) j =
      (if def \<in> set defs then cell_val A batch r def (read_at E ?doc (fd_id def) j) else read_at E ?doc (fd_id def) j)"
    using Cons.prems by (intro Cons.IH) simp_all
  with step Cons.prems(2) show ?case by (auto simp: write_cells_def)
qed

lemma row_view_cells:
  assumes "doc_ok E" "schema_ok S" "row_accepted A S batch r"
  shows "row_view E S (write_cells E A batch r (sc_fields S) (new_doc E idx)) = sheet_row A S batch r"
proof -
  have "distinct (sc_fields S)" using assms(2) by (auto simp: schema_ok_def distinct_map)
  with assms(3) show ?thesis
    unfolding row_view_def sheet_row_def
    by (intro map_cong) (auto simp: stored_fields_mem read_write_cells [OF assms(1,2)] row_accepted_def read_new [OF assms(1)])
qed

lemma import_pk_view:
  assumes "schema_ok S" "pk_ok S" "pk_importable S" "sc_find S (sc_pk S) = Some p"
  shows "import_pk E p doc = Inr (row_key S (row_view E S doc))"
    and "doc_key E S doc = Some (row_key S (row_view E S doc))"
proof -
  have mem: "p \<in> set (sc_fields S)" using schema_find_mem [OF assms(1,4)] by simp
  have scalar: "\<not> fd_array p" using assms(2,4) by (simp add: pk_ok_def)
  show "import_pk E p doc = Inr (row_key S (row_view E S doc))"
    using assms(3,4) scalar map_of_row_view [OF assms(1) mem, of _ E doc]
    by (cases "fd_type p") (auto simp: import_pk_def pk_importable_def row_key_def kind_of_def_def)
  show "doc_key E S doc = Some (row_key S (row_view E S doc))"
    using assms(3,4) scalar map_of_row_view [OF assms(1) mem, of _ E doc]
    by (cases "fd_type p") (auto simp: doc_key_def pk_importable_def row_key_def kind_of_def_def)
qed

text \<open>The conditions under which a batch can be imported at all.\<close>

definition import_ok :: "('d, 'k) engine \<Rightarrow> ('a, 'b) arrow \<Rightarrow> schema \<Rightarrow> 'b \<Rightarrow> bool" where
  "import_ok E A S batch \<longleftrightarrow> ingest_ok E S \<and> pk_importable S \<and> columns_present A S batch"

definition stores :: "('d, 'k) engine \<Rightarrow> schema \<Rightarrow> 'd \<Rightarrow> string \<times> row_view \<Rightarrow> bool" where
  "stores E S doc kv \<longleftrightarrow> row_view E S doc = snd kv \<and> (\<forall>idx. kv_key E idx doc = fst kv)"

lemma import_row_eq:
  assumes "import_ok E A S batch" "sc_find S (sc_pk S) = Some p"
  shows "if \<not> row_good A S batch r
    then (\<exists>st. import_row E A S p batch idx r = Row_failed st \<and> \<not> st_ok st)
    else (case sheet_entry A S batch r of
        None \<Rightarrow> import_row E A S p batch idx r = Row_skipped
      | Some kv \<Rightarrow> (\<exists>doc. import_row E A S p batch idx r = Row_doc doc \<and> stores E S doc kv))"
proof -
  from assms(1) have ok: "doc_ok E" "schema_ok S" "pk_ok S" "key_ok E S" "pk_importable S"
    and cols: "list_all (\<lambda>def. column_by_name A batch (fd_name def) \<noteq> None) (sc_fields S)"
    by (auto simp: import_ok_def ingest_ok_def columns_present_def)
  let ?doc = "write_cells E A batch r (sc_fields S) (new_doc E idx)"
  have absent: "pk_absent A S batch r = (case column_by_name A batch (fd_name p) of
      None \<Rightarrow> True | Some pk_col \<Rightarrow> ArrowCellIsNull A pk_col r)"
    using assms(2) by (simp add: pk_absent_def ArrowCellIsNull_def split: option.split)
  note f = apply_row_fields_eq [OF cols, where r = r and E = E and doc = "new_doc E idx"]
  show ?thesis
  proof (cases "pk_absent A S batch r")
    case True
    then show ?thesis by (simp add: import_row_def absent row_good_def sheet_entry_def)
  next
    case present: False
    show ?thesis
    proof (cases "row_accepted A S batch r")
      case True
      have v: "row_view E S ?doc = sheet_row A S batch r" by (rule row_view_cells [OF ok(1,2) True])
      note k = import_pk_view [OF ok(2,3,5) assms(2), of E ?doc, unfolded v]
      have st: "stores E S ?doc (row_key S (sheet_row A S batch r), sheet_row A S batch r)"
        using v k(2) ok(4) by (simp add: stores_def key_ok_def)
      from True f have "apply_row_fields E A batch r (sc_fields S) (new_doc E idx) = Some (Status_OK, ?doc)"
        by (simp add: row_accepted_def)
      with present True st k(1) show ?thesis
        by (auto simp: import_row_def absent row_good_def sheet_entry_def Let_def)
    next
      case False
      with f present show ?thesis
        by (auto simp: import_row_def absent row_good_def row_accepted_def)
    qed
  qed
qed

section \<open>One chunk\<close>

lemma import_chunk_eq:
  assumes "import_ok E A S batch" "sc_find S (sc_pk S) = Some p"
  shows "if list_all (row_good A S batch) rs
    then (\<exists>ds. import_chunk E A S p batch idx rs docs skips =
        Chunk_docs (docs @ ds) (skips + of_nat (length rs - length (sheet A S batch rs))) \<and>
        list_all2 (stores E S) ds (sheet A S batch rs))
    else (\<exists>st n. import_chunk E A S p batch idx rs docs skips = Chunk_failed st n \<and> \<not> st_ok st)"
proof (induction rs arbitrary: docs skips)
  case Nil
  then show ?case by (simp add: sheet_def List.map_filter_simps)
next
  case (Cons r rs)
  note row = import_row_eq [OF assms, where r = r and idx = idx]
  have len: "length (sheet A S batch rs) \<le> length rs"
    by (simp add: sheet_def List.map_filter_def)
  show ?case
  proof (cases "row_good A S batch r")
    case False
    with row show ?thesis by auto
  next
    case good: True
    show ?thesis
    proof (cases "sheet_entry A S batch r")
      case None
      have n: "Suc (length rs) - length (sheet A S batch rs) = Suc (length rs - length (sheet A S batch rs))"
        using len by simp
      from row good None Cons.IH [of docs "skips + 1"] show ?thesis
        by (auto simp: sheet_def List.map_filter_simps n [unfolded sheet_def] algebra_simps split: if_splits)
    next
      case (Some kv)
      with row good obtain doc where doc: "import_row E A S p batch idx r = Row_doc doc" "stores E S doc kv"
        by auto
      from good Some doc Cons.IH [of "docs @ [doc]" skips] show ?thesis
        by (auto simp: sheet_def List.map_filter_simps split: if_splits)
    qed
  qed
qed

section \<open>The table after a chunk\<close>

lemma table_view_batch_put:
  "kv_ok E \<Longrightarrow> table_view E S (kv_batch_put E k ds) = table_view E S (foldl (kv_put E) k ds)"
  by (rule ext) (simp add: table_view_def kv_ok_def)

text \<open>
  A table with rows added: a key that none of the rows has keeps what it held; a key of the rows
  holds one of them, or the row it held before. This leaves nothing open for a key that is new
  and that one row has, and does not depend on the order of the rows.
\<close>

definition rows_added :: "table_view \<Rightarrow> (string \<times> row_view) list \<Rightarrow> table_view \<Rightarrow> bool" where
  "rows_added T es T' \<longleftrightarrow>
     (\<forall>k. if k \<in> fst ` set es then (\<exists>v. T' k = Some v \<and> (T k = Some v \<or> (k, v) \<in> set es)) else T' k = T k)"

text \<open>The rows have keys of their own: no two share one, and the table has none of them.\<close>

definition fresh_rows :: "table_view \<Rightarrow> (string \<times> row_view) list \<Rightarrow> bool" where
  "fresh_rows T es \<longleftrightarrow> distinct (map fst es) \<and> (\<forall>k \<in> fst ` set es. T k = None)"

lemma rows_added_nil: "rows_added T [] T"
  by (simp add: rows_added_def)

lemma rows_added_append:
  assumes "rows_added T es T1" "rows_added T1 fs T2"
  shows "rows_added T (es @ fs) T2"
  unfolding rows_added_def
proof
  fix k
  from assms have "if k \<in> fst ` set es then (\<exists>v. T1 k = Some v \<and> (T k = Some v \<or> (k, v) \<in> set es)) else T1 k = T k"
    "if k \<in> fst ` set fs then (\<exists>v. T2 k = Some v \<and> (T1 k = Some v \<or> (k, v) \<in> set fs)) else T2 k = T1 k"
    by (simp_all add: rows_added_def)
  then show "if k \<in> fst ` set (es @ fs) then (\<exists>v. T2 k = Some v \<and> (T k = Some v \<or> (k, v) \<in> set (es @ fs)))
      else T2 k = T k"
    by (cases "k \<in> fst ` set es"; cases "k \<in> fst ` set fs") (auto simp: image_Un split: if_splits)
qed

lemma rows_added_set: "set es = set fs \<Longrightarrow> rows_added T es T' \<Longrightarrow> rows_added T fs T'"
  by (simp add: rows_added_def cong: if_cong)

lemma rows_added_fresh:
  assumes "rows_added T es T'" "fresh_rows T es"
  shows "T' = T ++ map_of es"
proof
  fix k
  from assms(1) have k: "if k \<in> fst ` set es then (\<exists>v. T' k = Some v \<and> (T k = Some v \<or> (k, v) \<in> set es)) else T' k = T k"
    by (simp add: rows_added_def)
  show "T' k = (T ++ map_of es) k"
  proof (cases "k \<in> fst ` set es")
    case True
    with k assms(2) obtain v where "T' k = Some v" "(k, v) \<in> set es" by (auto simp: fresh_rows_def)
    with assms(2) show ?thesis by (simp add: fresh_rows_def map_add_def)
  next
    case False
    then have "map_of es k = None" by (simp add: map_of_eq_None_iff)
    with k False show ?thesis by (simp add: map_add_def)
  qed
qed

lemma put_row_added:
  assumes "kv_ok E" "put_ok E" "stores E S d (k, v)"
  shows "rows_added (table_view E S idx) [(k, v)] (table_view E S (kv_put E idx d))"
proof -
  from assms(3) have key: "kv_key E idx d = k" and view: "row_view E S d = v" by (simp_all add: stores_def)
  have put: "kv_get E (kv_put E idx d) p = kv_get E idx p \<or> p = k \<and> kv_get E (kv_put E idx d) p = Some d" for p
    using assms(2) key unfolding put_ok_def by blast
  have absent: "kv_get E idx k = None \<Longrightarrow> kv_get E (kv_put E idx d) k = Some d"
    using assms(1) key by (auto simp: kv_ok_def)
  show ?thesis
    unfolding rows_added_def
  proof
    fix p
    show "if p \<in> fst ` set [(k, v)] then (\<exists>w. table_view E S (kv_put E idx d) p = Some w \<and>
        (table_view E S idx p = Some w \<or> (p, w) \<in> set [(k, v)]))
      else table_view E S (kv_put E idx d) p = table_view E S idx p"
      using put [of p] absent view by (cases "kv_get E idx k") (auto simp: table_view_def)
  qed
qed

lemma put_rows_added:
  assumes "kv_ok E" "put_ok E"
  shows "list_all2 (stores E S) ds es \<Longrightarrow>
    rows_added (table_view E S idx) es (table_view E S (foldl (kv_put E) idx ds))"
proof (induction ds es arbitrary: idx rule: list_all2_induct)
  case Nil
  then show ?case by (simp add: rows_added_nil)
next
  case (Cons d ds kv es)
  obtain k v where kv: "kv = (k, v)" by (cases kv)
  from rows_added_append [OF put_row_added [OF assms Cons.hyps(1) [unfolded kv]] Cons.IH]
  show ?case by (simp add: kv)
qed

lemma flush_chunk_eq:
  assumes "kv_ok E" "put_ok E" "list_all2 (stores E S) ds es"
  shows "rows_added (table_view E S (wr_index w)) es (table_view E S (wr_index (flush_chunk E ds w)))"
    and "wr_rows_imported (flush_chunk E ds w) = wr_rows_imported w + of_nat (length es)"
    and "wr_skipped_pk_null (flush_chunk E ds w) = wr_skipped_pk_null w"
  using assms(3) table_view_batch_put [OF assms(1)] put_rows_added [OF assms]
  by (auto simp: flush_chunk_def Let_def rows_added_nil dest: list_all2_lengthD)

section \<open>The whole batch\<close>

lemma import_chunks_ok:
  assumes "import_ok E A S batch" "put_ok E" "sc_find S (sc_pk S) = Some p"
  shows "list_all (row_good A S batch) [start..<num_rows A batch] \<Longrightarrow>
    \<exists>w'. import_chunks E A S p batch start w = Some (Status_OK, w') \<and>
      rows_added (table_view E S (wr_index w)) (sheet A S batch [start..<num_rows A batch]) (table_view E S (wr_index w')) \<and>
      wr_rows_imported w' = wr_rows_imported w + of_nat (length (sheet A S batch [start..<num_rows A batch])) \<and>
      wr_skipped_pk_null w' = wr_skipped_pk_null w +
        of_nat (num_rows A batch - start - length (sheet A S batch [start..<num_rows A batch]))"
proof (induction "num_rows A batch - start" arbitrary: start w rule: less_induct)
  case less
  let ?n = "num_rows A batch"
  show ?case
  proof (cases "start < ?n")
    case False
    then show ?thesis by (simp add: import_chunks.simps sheet_def List.map_filter_simps rows_added_nil)
  next
    case True
    define m where "m = min ?n (start + kImportChunkRows)"
    let ?es = "sheet A S batch [start..<m]" and ?fs = "sheet A S batch [m..<?n]"
    have sm: "start \<le> m" "m \<le> ?n" "0 < m - start" using True by (simp_all add: m_def kImportChunkRows_def)
    have split: "[start..<?n] = [start..<m] @ [m..<?n]"
      using sm upt_add_eq_append [of start m "?n - m"] by simp
    have sheet: "sheet A S batch [start..<?n] = ?es @ ?fs"
      by (simp add: split sheet_def List.map_filter_def)
    have rest: "[start + kImportChunkRows..<?n] = [m..<?n]" by (auto simp: m_def min_def)
    have kv: "kv_ok E" using assms(1) by (simp add: import_ok_def ingest_ok_def)
    have len: "length ?es \<le> m - start" "length ?fs \<le> ?n - m"
      by (simp_all add: sheet_def List.map_filter_def order_trans [OF length_filter_le])
    from less.prems split obtain ds where
      ds: "import_chunk E A S p batch (wr_index w) [start..<m] [] (wr_skipped_pk_null w) =
          Chunk_docs ds (wr_skipped_pk_null w + of_nat (m - start - length ?es))" "list_all2 (stores E S) ds ?es"
      using import_chunk_eq [OF assms(1,3), where rs = "[start..<m]" and idx = "wr_index w" and docs = "[]"
          and skips = "wr_skipped_pk_null w"] by auto
    define w1 where "w1 = flush_chunk E ds (w\<lparr>wr_skipped_pk_null := wr_skipped_pk_null w + of_nat (m - start - length ?es)\<rparr>)"
    have w1: "rows_added (table_view E S (wr_index w)) ?es (table_view E S (wr_index w1))"
      "wr_rows_imported w1 = wr_rows_imported w + of_nat (length ?es)"
      "wr_skipped_pk_null w1 = wr_skipped_pk_null w + of_nat (m - start - length ?es)"
      using flush_chunk_eq [OF kv assms(2) ds(2), of "w\<lparr>wr_skipped_pk_null := wr_skipped_pk_null w + of_nat (m - start - length ?es)\<rparr>"]
      by (simp_all add: w1_def)
    have smaller: "?n - (start + kImportChunkRows) < ?n - start"
      using True by (simp add: kImportChunkRows_def)
    have step: "import_chunks E A S p batch start w = import_chunks E A S p batch (start + kImportChunkRows) w1"
      using True ds(1) by (simp add: import_chunks.simps [of E A S p batch start w] w1_def m_def Let_def)
    have "\<exists>w'. import_chunks E A S p batch (start + kImportChunkRows) w1 = Some (Status_OK, w') \<and>
      rows_added (table_view E S (wr_index w1)) ?fs (table_view E S (wr_index w')) \<and>
      wr_rows_imported w' = wr_rows_imported w1 + of_nat (length ?fs) \<and>
      wr_skipped_pk_null w' = wr_skipped_pk_null w1 + of_nat (?n - (start + kImportChunkRows) - length ?fs)"
      using less.hyps [OF smaller, unfolded rest, of w1] less.prems
      by (simp only: split list_all_append simp_thms)
    then obtain w' where w': "import_chunks E A S p batch start w = Some (Status_OK, w')"
      "rows_added (table_view E S (wr_index w1)) ?fs (table_view E S (wr_index w'))"
      "wr_rows_imported w' = wr_rows_imported w1 + of_nat (length ?fs)"
      "wr_skipped_pk_null w' = wr_skipped_pk_null w1 + of_nat (?n - m - length ?fs)"
      unfolding step by (auto simp: m_def min_def split: if_splits)
    have "(of_nat (m - start - length ?es) + of_nat (?n - m - length ?fs) :: u64)
        = of_nat (?n - start - (length ?es + length ?fs))"
    proof -
      have "(m - start - length ?es) + (?n - m - length ?fs) = ?n - start - (length ?es + length ?fs)"
        using sm len by linarith
      then show ?thesis by (simp only: of_nat_add [symmetric])
    qed
    with w' w1 show ?thesis
      unfolding sheet using rows_added_append [OF w1(1) w'(2)]
      by (intro exI [of _ w']) (simp add: add.assoc)
  qed
qed

lemma import_chunks_bad:
  assumes "import_ok E A S batch" "sc_find S (sc_pk S) = Some p"
  shows "\<not> list_all (row_good A S batch) [start..<num_rows A batch] \<Longrightarrow>
    \<exists>st w'. import_chunks E A S p batch start w = Some (st, w') \<and> \<not> st_ok st"
proof (induction "num_rows A batch - start" arbitrary: start w rule: less_induct)
  case less
  let ?n = "num_rows A batch"
  have True: "start < ?n" using less.prems by (cases "start < ?n") auto
  define m where "m = min ?n (start + kImportChunkRows)"
  have sm: "start \<le> m" "m \<le> ?n" using True by (simp_all add: m_def)
  have split: "[start..<?n] = [start..<m] @ [m..<?n]"
    using sm upt_add_eq_append [of start m "?n - m"] by simp
  have rest: "[start + kImportChunkRows..<?n] = [m..<?n]" by (auto simp: m_def min_def)
  have smaller: "?n - (start + kImportChunkRows) < ?n - start"
    using True by (simp add: kImportChunkRows_def)
  note chunk = import_chunk_eq [OF assms, where rs = "[start..<m]" and idx = "wr_index w" and docs = "[]"
      and skips = "wr_skipped_pk_null w"]
  show ?case
  proof (cases "list_all (row_good A S batch) [start..<m]")
    case False
    with chunk True show ?thesis by (auto simp: import_chunks.simps [of E A S p batch start w] m_def Let_def)
  next
    case good: True
    with less.prems split have "\<not> list_all (row_good A S batch) [start + kImportChunkRows..<?n]"
      by (simp add: rest)
    with less.hyps [OF smaller] chunk good True show ?thesis
      by (auto simp: import_chunks.simps [of E A S p batch start w] m_def Let_def)
  qed
qed

lemma import_chunks_good:
  assumes "import_ok E A S batch" "sc_find S (sc_pk S) = Some p"
  shows "list_all (row_good A S batch) [start..<num_rows A batch] \<Longrightarrow>
    \<exists>w'. import_chunks E A S p batch start w = Some (Status_OK, w')"
proof (induction "num_rows A batch - start" arbitrary: start w rule: less_induct)
  case less
  let ?n = "num_rows A batch"
  show ?case
  proof (cases "start < ?n")
    case False
    then show ?thesis by (simp add: import_chunks.simps)
  next
    case True
    define m where "m = min ?n (start + kImportChunkRows)"
    have sm: "start \<le> m" "m \<le> ?n" using True by (simp_all add: m_def)
    have good: "list_all (row_good A S batch) [start..<m]"
      "list_all (row_good A S batch) [start + kImportChunkRows..<?n]"
      using less.prems sm by (auto simp: list_all_iff m_def)
    have smaller: "?n - (start + kImportChunkRows) < ?n - start"
      using True by (simp add: kImportChunkRows_def)
    from import_chunk_eq [OF assms, where rs = "[start..<m]" and idx = "wr_index w" and docs = "[]"
        and skips = "wr_skipped_pk_null w"] less.hyps [OF smaller] good True
    show ?thesis by (auto simp: import_chunks.simps [of E A S p batch start w] m_def Let_def)
  qed
qed

text \<open>\<open>ProcessBatch\<close> returns whatever the batch, and without an error for the good ones only.\<close>

definition batch_good :: "('a, 'b) arrow \<Rightarrow> schema \<Rightarrow> 'b \<Rightarrow> bool" where
  "batch_good A S batch \<longleftrightarrow> columns_present A S batch \<and> list_all (row_good A S batch) [0..<num_rows A batch]"

lemma ProcessBatch_status:
  assumes "ingest_ok E S" "pk_importable S"
  shows "\<exists>st w'. ProcessBatch E A S batch w = Some (st, w') \<and> (st_ok st \<longleftrightarrow> batch_good A S batch)"
proof (cases "columns_present A S batch")
  case False
  then show ?thesis using validate_ok [of A batch S] by (simp add: ProcessBatch_def Let_def batch_good_def)
next
  case True
  with assms have ok: "import_ok E A S batch" by (simp add: import_ok_def)
  from assms(2) obtain p where p: "sc_find S (sc_pk S) = Some p"
    by (auto simp: pk_importable_def split: option.splits)
  with True have run: "ProcessBatch E A S batch w = import_chunks E A S p batch 0 w"
    by (simp add: ProcessBatch_def validate_ok)
  show ?thesis
    unfolding run batch_good_def
    using True import_chunks_good [OF ok p, of 0 w] import_chunks_bad [OF ok p, of 0 w]
    by (cases "list_all (row_good A S batch) [0..<num_rows A batch]") auto
qed

lemma ProcessBatch_effect:
  assumes "ingest_ok E S" "pk_importable S" "batch_good A S batch" "put_ok E"
    and "ProcessBatch E A S batch w = Some (st, w')"
  shows "rows_added (table_view E S (wr_index w)) (sheet A S batch [0..<num_rows A batch]) (table_view E S (wr_index w'))"
    and "wr_rows_imported w' = wr_rows_imported w + of_nat (length (sheet A S batch [0..<num_rows A batch]))"
    and "wr_skipped_pk_null w' =
      wr_skipped_pk_null w + of_nat (num_rows A batch - length (sheet A S batch [0..<num_rows A batch]))"
proof -
  from assms(1-3) have ok: "import_ok E A S batch" by (simp add: import_ok_def batch_good_def)
  from assms(2) obtain p where p: "sc_find S (sc_pk S) = Some p"
    by (auto simp: pk_importable_def split: option.splits)
  with assms(3) have "ProcessBatch E A S batch w = import_chunks E A S p batch 0 w"
    by (simp add: ProcessBatch_def validate_ok batch_good_def)
  with import_chunks_ok [OF ok assms(4) p, of 0 w] assms(3,5)
  show "rows_added (table_view E S (wr_index w)) (sheet A S batch [0..<num_rows A batch]) (table_view E S (wr_index w'))"
    and "wr_rows_imported w' = wr_rows_imported w + of_nat (length (sheet A S batch [0..<num_rows A batch]))"
    and "wr_skipped_pk_null w' =
      wr_skipped_pk_null w + of_nat (num_rows A batch - length (sheet A S batch [0..<num_rows A batch]))"
    by (auto simp: batch_good_def)
qed

lemma apply_row_fields_returns:
  "list_all (\<lambda>def. column_by_name A batch (fd_name def) \<noteq> None) defs \<Longrightarrow>
   apply_row_fields E A batch r defs doc \<noteq> None"
  by (induction defs arbitrary: doc) (auto split: prod.split)

lemma import_chunk_returns:
  "columns_present A S batch \<Longrightarrow> import_chunk E A S p batch idx rs docs skips \<noteq> Chunk_crash"
proof (induction rs arbitrary: docs skips)
  case (Cons r rs)
  have "import_row E A S p batch idx r \<noteq> Row_crash"
    using apply_row_fields_returns [OF Cons.prems [unfolded columns_present_def], of E r "new_doc E idx"]
    by (auto simp: import_row_def split: option.splits prod.splits sum.splits if_splits)
  with Cons show ?case by (auto split: row_result.splits)
qed simp

lemma import_chunks_returns:
  "columns_present A S batch \<Longrightarrow> import_chunks E A S p batch start w \<noteq> None"
proof (induction "num_rows A batch - start" arbitrary: start w rule: less_induct)
  case less
  have "start < num_rows A batch \<Longrightarrow> num_rows A batch - (start + kImportChunkRows) < num_rows A batch - start"
    by (simp add: kImportChunkRows_def)
  with less import_chunk_returns [OF less.prems, of E p "wr_index w"
      "[start..<min (num_rows A batch) (start + kImportChunkRows)]" "[]" "wr_skipped_pk_null w"]
  show ?case
    by (auto simp: import_chunks.simps [of E A S p batch start w] Let_def split: chunk_result.splits)
qed

lemma ProcessBatch_returns: "ProcessBatch E A S batch w \<noteq> None"
  using import_chunks_returns by (auto simp: ProcessBatch_def Let_def validate_ok split: option.split)

text \<open>
  C16: The import of a batch, for a batch with every column of the schema and a key the import
  supports. It is written without an error exactly when each of its rows has a null key or cells
  that all fit their fields; a null pointer is never used. When it is written, the two counters
  have counted the rows that were written and those that were skipped, and together all of them;
  each key of the table that no row of the batch has holds what it held, and each key of the rows
  holds one of these rows, or the row it held before (which of them is the engine's choice). So
  where no two rows share a key and the table has none of the keys, it has gained exactly the rows
  of the batch that have a key, each under its key. In particular, the chunks of 16384 rows leave
  no trace.
\<close>

theorem import_batch_exact:
  assumes "import_ok E A S batch" and "put_ok E"
  shows "\<exists>st w'. ProcessBatch E A S batch w = Some (st, w') \<and>
    (st_ok st \<longleftrightarrow> (\<forall>r \<in> {0..<num_rows A batch}. row_good A S batch r)) \<and>
    (st_ok st \<longrightarrow>
      (let rows = sheet A S batch [0..<num_rows A batch];
           before = table_view E S (wr_index w); after = table_view E S (wr_index w') in
       rows_added before rows after \<and>
       (fresh_rows before rows \<longrightarrow> after = before ++ map_of rows) \<and>
       wr_rows_imported w' = wr_rows_imported w + of_nat (length rows) \<and>
       wr_skipped_pk_null w' = wr_skipped_pk_null w + of_nat (num_rows A batch - length rows)))"
proof -
  from assms(1) obtain p where p: "sc_find S (sc_pk S) = Some p"
    by (auto simp: import_ok_def pk_importable_def split: option.splits)
  have run: "ProcessBatch E A S batch w = import_chunks E A S p batch 0 w"
    using assms(1) p by (simp add: ProcessBatch_def validate_ok import_ok_def)
  have all: "(\<forall>r \<in> {0..<num_rows A batch}. row_good A S batch r) \<longleftrightarrow>
      list_all (row_good A S batch) [0..<num_rows A batch]"
    by (simp add: list_all_iff)
  show ?thesis
    unfolding run all
    using import_chunks_ok [OF assms p, of 0 w] import_chunks_bad [OF assms(1) p, of 0 w]
    by (cases "list_all (row_good A S batch) [0..<num_rows A batch]") (auto simp: Let_def rows_added_fresh)
qed

definition ex_import_schema :: schema where
  "ex_import_schema = mk_schema ''id''
     [\<lparr>fd_name = ''id'', fd_id = 1, fd_type = DT_Int64, fd_array = False\<rparr>,
      \<lparr>fd_name = ''name'', fd_id = 2, fd_type = DT_String, fd_array = False\<rparr>]"

definition ex_batch :: ref_batch where
  "ex_batch = \<lparr>rb_rows = 3, rb_columns =
     [(''id'', Ref_array AT_UINT32 [C_int 1, C_null, C_int 30]),
      (''name'', Ref_array AT_STRING [C_str ''a'', C_str ''b'', C_null])]\<rparr>"

definition ex_writer :: "ref_index writer" where
  "ex_writer = \<lparr>wr_index = [], wr_rows_imported = 0, wr_skipped_pk_null = 0, wr_progress = ImportProgress_init\<rparr>"

lemma ex_import_ok: "import_ok (ref_engine ex_import_schema) ref_arrow ex_import_schema ex_batch"
proof -
  have s: "schema_ok ex_import_schema"
    unfolding ex_import_schema_def by (rule mk_schema_ok) simp_all
  have p: "pk_ok ex_import_schema" by code_simp
  have i: "pk_importable ex_import_schema" by code_simp
  have c: "columns_present ref_arrow ex_import_schema ex_batch" by code_simp
  show ?thesis
    by (simp add: import_ok_def ingest_ok_def ref_doc_ok ref_kv_ok ref_key_ok s p i c)
qed

theorem import_batch_exact_witness:
  "\<exists>st w'. ProcessBatch (ref_engine ex_import_schema) ref_arrow ex_import_schema ex_batch ex_writer = Some (st, w') \<and>
    st_ok st \<and> wr_rows_imported w' = 2 \<and> wr_skipped_pk_null w' = 1"
proof -
  let ?E = "ref_engine ex_import_schema" and ?S = ex_import_schema
  have n: "num_rows ref_arrow ex_batch = 3" by code_simp
  have rows: "length (sheet ref_arrow ?S ex_batch [0..<num_rows ref_arrow ex_batch]) = 2" by code_simp
  have g: "\<forall>r \<in> {0..<num_rows ref_arrow ex_batch}. row_good ref_arrow ?S ex_batch r"
  proof -
    have "list_all (row_good ref_arrow ?S ex_batch) [0..<num_rows ref_arrow ex_batch]" by code_simp
    then show ?thesis by (simp add: list_all_iff)
  qed
  have w: "wr_rows_imported ex_writer = 0" "wr_skipped_pk_null ex_writer = 0" by (simp_all add: ex_writer_def)
  define es where "es = sheet ref_arrow ?S ex_batch [0..<num_rows ref_arrow ex_batch]"
  obtain st w' where res: "ProcessBatch ?E ref_arrow ?S ex_batch ex_writer = Some (st, w')" "st_ok st"
    "wr_rows_imported w' = wr_rows_imported ex_writer + of_nat (length es)"
    "wr_skipped_pk_null w' = wr_skipped_pk_null ex_writer + of_nat (num_rows ref_arrow ex_batch - length es)"
    using import_batch_exact [OF ex_import_ok ref_put_ok] g unfolding Let_def es_def [symmetric] by blast
  have l: "length es = 2" unfolding es_def by (rule rows)
  from res(3,4) have "wr_rows_imported w' = 2" "wr_skipped_pk_null w' = 1"
    unfolding l n w by simp_all
  with res(1,2) show ?thesis by blast
qed

end
