(* ===== verification/TypedTables.thy ===== *)
theory TypedTables
  imports HandlersProps WriteSpec StreamSpec
begin

text \<open>
  The engine keeps each field of a document in a lane chosen by the accessor that writes it, and
  reading a field in another lane is undefined. Here: every writer of the program, the put
  handlers, the stream and the import, writes each field only in the lane its type selects.
\<close>

section \<open>Well-typed documents\<close>

text \<open>A document made from a new one by writes and appends in the lanes of its fields.\<close>

inductive typed_doc :: "('d, 'k) engine \<Rightarrow> schema \<Rightarrow> 'd \<Rightarrow> bool" for E S where
  typed_new [intro, simp]: "typed_doc E S (new_doc E k)"
| typed_write: "typed_doc E S doc \<Longrightarrow> def \<in> set (sc_fields S) \<Longrightarrow> kind_of_def def = Some (kind_of_val v) \<Longrightarrow>
    typed_doc E S (write_val E doc (fd_id def) v)"
| typed_append: "typed_doc E S doc \<Longrightarrow> def \<in> set (sc_fields S) \<Longrightarrow> kind_of_def def = Some (kind_of_val v) \<Longrightarrow>
    typed_doc E S (append_val E doc (fd_id def) v)"

definition typed_index :: "('d, 'k) engine \<Rightarrow> schema \<Rightarrow> 'k \<Rightarrow> bool" where
  "typed_index E S idx \<longleftrightarrow> (\<forall>p doc. kv_get E idx p = Some doc \<longrightarrow> typed_doc E S doc)"

lemma typed_write_opt:
  "typed_doc E S doc \<Longrightarrow> def \<in> set (sc_fields S) \<Longrightarrow> (\<And>v. w = Some v \<Longrightarrow> kind_of_def def = Some (kind_of_val v)) \<Longrightarrow>
   typed_doc E S (write_opt E (fd_id def) w doc)"
  by (auto simp: write_opt_def typed_write split: option.split)

lemma typed_upsert: "kv_ok E \<Longrightarrow> typed_index E S idx \<Longrightarrow> typed_doc E S doc \<Longrightarrow> typed_index E S (kv_upsert E idx doc)"
  by (auto simp: typed_index_def kv_get_upsert)

lemma typed_batch_upsert:
  assumes "kv_ok E"
  shows "typed_index E S idx \<Longrightarrow> \<forall>doc \<in> set docs. typed_doc E S doc \<Longrightarrow> typed_index E S (kv_batch_upsert E idx docs)"
proof -
  have "typed_index E S (foldl (kv_upsert E) idx docs)"
    if "typed_index E S idx" "\<forall>doc \<in> set docs. typed_doc E S doc" for idx
    using that by (induction docs arbitrary: idx) (auto intro: typed_upsert [OF assms])
  then show "typed_index E S idx \<Longrightarrow> \<forall>doc \<in> set docs. typed_doc E S doc \<Longrightarrow> typed_index E S (kv_batch_upsert E idx docs)"
    by (simp add: typed_index_def kv_get_batch_upsert [OF assms])
qed

lemma typed_delete: "kv_ok E \<Longrightarrow> typed_index E S idx \<Longrightarrow> typed_index E S (kv_delete E idx p)"
  by (auto simp: typed_index_def kv_get_delete split: if_splits)

lemma typed_put_new:
  assumes "kv_ok E" "typed_index E S idx" "typed_doc E S doc" "kv_get E idx (kv_key E idx doc) = None"
  shows "typed_index E S (kv_put E idx doc)"
  using assms by (auto simp: typed_index_def kv_ok_def split: if_splits)

lemma typed_batch_put:
  assumes "kv_ok E" "put_ok E"
  shows "typed_index E S idx \<Longrightarrow> \<forall>doc \<in> set docs. typed_doc E S doc \<Longrightarrow> typed_index E S (kv_batch_put E idx docs)"
proof -
  have put: "typed_index E S (kv_put E idx doc)" if "typed_index E S idx" "typed_doc E S doc" for idx doc
    unfolding typed_index_def
  proof (intro allI impI)
    fix p d
    assume d: "kv_get E (kv_put E idx doc) p = Some d"
    have "kv_get E (kv_put E idx doc) p = kv_get E idx p \<or> kv_get E (kv_put E idx doc) p = Some doc"
      using assms(2) unfolding put_ok_def by blast
    with d that show "typed_doc E S d" by (auto simp: typed_index_def)
  qed
  have "typed_index E S (foldl (kv_put E) idx docs)"
    if "typed_index E S idx" "\<forall>doc \<in> set docs. typed_doc E S doc" for idx
    using that by (induction docs arbitrary: idx) (auto intro: put)
  then show "typed_index E S idx \<Longrightarrow> \<forall>doc \<in> set docs. typed_doc E S doc \<Longrightarrow> typed_index E S (kv_batch_put E idx docs)"
    using assms(1) by (simp add: typed_index_def kv_ok_def)
qed

section \<open>The writers\<close>

lemma typed_apply_fields:
  assumes "schema_ok S"
  shows "typed_doc E S doc \<Longrightarrow> typed_doc E S (snd (apply_fields E S fvs doc))"
proof (induction fvs arbitrary: doc)
  case (Cons x fvs)
  show ?case
  proof (cases x)
    case (Some fv)
    show ?thesis
    proof (cases "sc_find_id S (fv_field_id fv)")
      case (Some def)
      then have mem: "def \<in> set (sc_fields S)" using schema_find_id_mem [OF assms] by blast
      show ?thesis
      proof (cases "FieldValueMatchesSchema def (fv_vtype fv)")
        case True
        have "typed_doc E S (write_opt E (fd_id def) (wire_cval fv) doc)"
          by (rule typed_write_opt [OF Cons.prems mem wire_cval_kind [OF True]])
        from Cons.IH [OF this] True Some \<open>x = Some fv\<close> show ?thesis by (simp add: apply_value_eq)
      qed (use Some \<open>x = Some fv\<close> Cons.prems in simp)
    qed (use \<open>x = Some fv\<close> Cons.prems in simp)
  qed (use Cons in simp)
qed simp

lemma typed_ApplyRow: "schema_ok S \<Longrightarrow> typed_doc E S (snd (ApplyRowToDoc E S r (new_doc E k)))"
  by (auto simp: ApplyRowToDoc_def typed_apply_fields split: option.split)

lemma typed_stage:
  assumes "schema_ok S"
  shows "stage_rows E S idx rows = Inr docs \<Longrightarrow> \<forall>doc \<in> set docs. typed_doc E S doc"
proof (induction rows arbitrary: docs)
  case (Cons r rows)
  then show ?case
    using typed_ApplyRow [OF assms, of E r idx]
    by (cases r) (auto split: prod.splits if_splits sum.splits)
qed simp

lemma typed_copy:
  "typed_doc E S dst \<Longrightarrow> set defs \<subseteq> set (sc_fields S) \<Longrightarrow> typed_doc E S (fold (copy_field E src) defs dst)"
proof (induction defs arbitrary: dst)
  case (Cons def defs)
  from Cons.prems have "typed_doc E S (copy_field E src def dst)"
    by (auto simp: copy_field_write intro: typed_write split: option.split)
  with Cons show ?case by simp
qed simp

lemma typed_merged:
  "typed_doc E S doc \<Longrightarrow> def \<in> set (sc_fields S) \<Longrightarrow> typed_doc E S (merged E J def doc val)"
  by (auto simp: merged_def intro: typed_write typed_append dest: json_cval_kind split: option.split)

lemma typed_merge_doc:
  assumes "schema_ok S"
  shows "typed_doc E S doc \<Longrightarrow> typed_doc E S (merge_doc E J S doc ms)"
proof (induction ms arbitrary: doc)
  case (Cons m ms)
  then show ?case
    by (cases m) (auto simp: typed_merged schema_find_mem [OF assms] split: option.split)
qed simp

lemma typed_stream:
  assumes "ingest_ok E S" "keys_distinct obj" "typed_index E S idx"
  shows "typed_index E S (snd (ApplyStreamJsonObject E J S idx obj))"
proof -
  note ok = assms(1) [unfolded ingest_ok_def]
  have kv: "kv_ok E" and sc: "schema_ok S" using ok by simp_all
  have merge: "typed_doc E S doc \<Longrightarrow> MergeJsonIntoDoc E J S doc obj = Done doc' \<Longrightarrow>
      typed_doc E S doc' \<and> doc' = merge_doc E J S doc (members obj)" for doc doc'
    by (auto simp: MergeJsonIntoDoc_def merge_items_eq typed_merge_doc [OF sc])
  have old: "typed_doc E S (case kv_get E idx pk of Some old \<Rightarrow> CopyDocFromSchema E S old (new_doc E idx) | None \<Rightarrow> new_doc E idx)" for pk
    by (simp add: CopyDocFromSchema_def typed_copy split: option.split)
  have key: "ExtractPkString J S obj = Done pk \<Longrightarrow> kv_key E idx (merge_doc E J S doc (members obj)) = pk" for pk doc
    using kv_key_merged [of E S obj J pk] ok assms(2) by blast
  have ins: "typed_index E S (snd (ApplyInsert E J S idx obj))"
  proof (cases "ExtractPkString J S obj")
    case (Done pk)
    note kpk = key [OF Done]
    show ?thesis
    proof (cases "MergeJsonIntoDoc E J S (new_doc E idx) obj")
      case (Done doc)
      from merge [OF typed_new Done] have td: "typed_doc E S doc" and md: "doc = merge_doc E J S (new_doc E idx) (members obj)"
        by blast+
      from kpk have "kv_key E idx doc = pk" unfolding md .
      with td \<open>ExtractPkString J S obj = Done pk\<close> Done assms(3) show ?thesis
        by (auto simp: ApplyInsert_def intro!: typed_put_new [OF kv] split: option.split)
    qed (use Done assms(3) in \<open>simp_all add: ApplyInsert_def split: option.split\<close>)
  qed (use assms(3) in \<open>simp_all add: ApplyInsert_def\<close>)
  have ups: "typed_index E S (snd (ApplyUpsertMerge E J S idx obj))"
    using assms(3) merge [OF old]
    by (auto simp: ApplyUpsertMerge_def Let_def split: result.splits intro!: typed_upsert [OF kv])
  have del: "typed_index E S (snd (ApplyDelete E J S idx obj))"
    using assms(3) by (auto simp: ApplyDelete_def split: result.splits option.split intro!: typed_delete [OF kv])
  show ?thesis
    using ins ups del assms(3) by (auto simp: ApplyStreamJsonObject_def split: result.split)
qed

lemma typed_import_fields:
  "typed_doc E S doc \<Longrightarrow> set defs \<subseteq> set (sc_fields S) \<Longrightarrow>
   apply_row_fields E A batch r defs doc = Some (st, doc') \<Longrightarrow> st_ok st \<Longrightarrow> typed_doc E S doc'"
proof (induction defs arbitrary: doc)
  case (Cons def defs)
  from Cons.prems(3) obtain col where col: "column_by_name A batch (fd_name def) = Some col"
    by (auto split: option.splits)
  obtain st1 doc1 where f: "ApplyField E A def col r doc = (st1, doc1)" by (cases "ApplyField E A def col r doc")
  show ?case
  proof (cases "st_ok st1")
    case True
    with ApplyField_meaning [of E "def" doc A col r] f have "\<exists>w. field_meaning A def col r = Some w \<and> doc1 = write_opt E (fd_id def) w doc"
      by (auto simp: field_result_def split: option.splits)
    then have "typed_doc E S doc1"
      using Cons.prems(1,2) by (auto intro!: typed_write_opt dest: field_meaning_kind)
    with Cons True col f show ?thesis by auto
  qed (use Cons.prems col f in auto)
qed auto

lemma import_row_doc:
  "import_row E A S p batch idx r = Row_doc doc \<Longrightarrow>
   \<exists>st. apply_row_fields E A batch r (sc_fields S) (new_doc E idx) = Some (st, doc) \<and> st_ok st"
  by (auto simp: import_row_def split: if_splits option.splits sum.splits)

lemma typed_import_row: "import_row E A S p batch idx r = Row_doc doc \<Longrightarrow> typed_doc E S doc"
proof -
  assume "import_row E A S p batch idx r = Row_doc doc"
  then obtain st where "apply_row_fields E A batch r (sc_fields S) (new_doc E idx) = Some (st, doc)" "st_ok st"
    using import_row_doc by metis
  then show "typed_doc E S doc" by (rule typed_import_fields [OF typed_new order_refl])
qed

lemma typed_import_chunk:
  "import_chunk E A S p batch idx rs docs skips = Chunk_docs docs' skips' \<Longrightarrow> \<forall>doc \<in> set docs. typed_doc E S doc \<Longrightarrow>
   \<forall>doc \<in> set docs'. typed_doc E S doc"
proof (induction rs arbitrary: docs skips)
  case (Cons r rs)
  then show ?case
  proof (cases "import_row E A S p batch idx r")
    case (Row_doc doc)
    have "import_chunk E A S p batch idx rs (docs @ [doc]) skips = Chunk_docs docs' skips'"
      using Cons.prems(1) Row_doc by simp
    then show ?thesis by (rule Cons.IH) (use Cons.prems(2) typed_import_row [OF Row_doc] in simp)
  qed (use Cons in auto)
qed simp

lemma typed_import_chunks:
  assumes "kv_ok E" "put_ok E"
  shows "import_chunks E A S p batch start w = Some (st, w') \<Longrightarrow> typed_index E S (wr_index w) \<Longrightarrow>
    typed_index E S (wr_index w')"
proof (induction "num_rows A batch - start" arbitrary: start w rule: less_induct)
  case less
  show ?case
  proof (cases "start < num_rows A batch")
    case False
    with less.prems show ?thesis by (auto simp: import_chunks.simps [of E A S p batch start w])
  next
    case True
    let ?rs = "[start..<min (num_rows A batch) (start + kImportChunkRows)]"
    have smaller: "num_rows A batch - (start + kImportChunkRows) < num_rows A batch - start"
      using True by (simp add: kImportChunkRows_def)
    show ?thesis
    proof (cases "import_chunk E A S p batch (wr_index w) ?rs [] (wr_skipped_pk_null w)")
      case (Chunk_docs docs skips)
      let ?w1 = "flush_chunk E docs (w\<lparr>wr_skipped_pk_null := skips\<rparr>)"
      have "typed_index E S (wr_index ?w1)"
        using typed_batch_put [OF assms less.prems(2)] typed_import_chunk [OF Chunk_docs] less.prems(2)
        by (simp add: flush_chunk_def Let_def)
      with less.hyps [OF smaller _ this] less.prems(1) True Chunk_docs show ?thesis
        by (simp add: import_chunks.simps [of E A S p batch start w] Let_def)
    qed (use less.prems True in \<open>auto simp: import_chunks.simps [of E A S p batch start w] Let_def\<close>)
  qed
qed

lemma typed_ProcessBatch:
  assumes "kv_ok E" "put_ok E" "ProcessBatch E A S batch w = Some (st, w')" "typed_index E S (wr_index w)"
  shows "typed_index E S (wr_index w')"
  using assms(3,4) typed_import_chunks [OF assms(1,2)]
  by (auto simp: ProcessBatch_def Let_def split: if_splits option.splits)

section \<open>Every table stays well typed\<close>

text \<open>
  C12: No write ever leaves the lane of its field. If every document of a table is well typed for the
  schema of its slot (made from a new document by writes, each in the lane the type of its field
  selects), then it is so again after a put and after a put-batch of any rows, however ill-typed the
  request, after any object of the stream, accepted or not, and after an import has processed any
  batch, whatever its columns and whether it ends in an error (for the import, which puts without
  looking, a put is to file its document or leave what is under the key; an object of the stream
  has no member name twice, as the parser leaves none).
\<close>

theorem tables_stay_typed:
  assumes "ingest_ok E (ts_schema slot)" "table_of s t = Some slot"
    and "typed_index E (ts_schema slot) (slot_index s slot)"
  shows "typed_index E (ts_schema slot) (slot_index (snd (HandlePut E \<lparr>pqs_row = row, pqs_table_name = Some t\<rparr> s)) slot) \<and>
    typed_index E (ts_schema slot)
      (slot_index (snd (HandlePutBatch E \<lparr>pbqs_rows = rows, pbqs_table_name = Some t\<rparr> s)) slot) \<and>
    (keys_distinct obj \<longrightarrow>
      typed_index E (ts_schema slot) (snd (ApplyStreamJsonObject E J (ts_schema slot) (slot_index s slot) obj))) \<and>
    (put_ok E \<and> wr_index w = slot_index s slot \<and> ProcessBatch E A (ts_schema slot) batch w = Some (st, w') \<longrightarrow>
      typed_index E (ts_schema slot) (wr_index w'))"
proof (intro conjI impI)
  have kv: "kv_ok E" and sc: "schema_ok (ts_schema slot)" using assms(1) by (simp_all add: ingest_ok_def)
  let ?S = "ts_schema slot" and ?idx = "slot_index s slot"
  from AcquireOrError_served [OF assms(2)] obtain i where acq: "AcquireOrError (Some t) (sr_registry s) =
      (Inr (i, slot), (sr_registry s)\<lparr>rg_handles := i # rg_handles (sr_registry s)\<rparr>)" by blast
  have "typed_index E ?S (kv_upsert E ?idx (snd (ApplyRowToDoc E ?S r (new_doc E ?idx))))" for r
    by (rule typed_upsert [OF kv assms(3) typed_ApplyRow [OF sc]])
  then show "typed_index E ?S (slot_index (snd (HandlePut E \<lparr>pqs_row = row, pqs_table_name = Some t\<rparr> s)) slot)"
    using assms(3)
    by (auto simp: HandlePut_def put_req_row_def put_req_table_def acq Let_def case_prod_beta finish_read_def
        finish_write_def slot_index_def split: option.split)
  have "stage_rows E ?S ?idx rs = Inr docs \<Longrightarrow> typed_index E ?S (kv_batch_upsert E ?idx docs)" for rs docs
    by (rule typed_batch_upsert [OF kv assms(3) typed_stage [OF sc]])
  then show "typed_index E ?S (slot_index (snd (HandlePutBatch E \<lparr>pbqs_rows = rows, pbqs_table_name = Some t\<rparr> s)) slot)"
    using assms(3)
    by (auto simp: HandlePutBatch_def put_batch_req_rows_def put_batch_req_table_def acq Let_def finish_read_def
        finish_write_def slot_index_def split: option.split sum.split)
  show "typed_index E ?S (snd (ApplyStreamJsonObject E J ?S ?idx obj))" if "keys_distinct obj"
    by (rule typed_stream [OF assms(1) that assms(3)])
  show "typed_index E ?S (wr_index w')"
    if "put_ok E \<and> wr_index w = ?idx \<and> ProcessBatch E A ?S batch w = Some (st, w')"
    using that assms(3) by (auto intro: typed_ProcessBatch [OF kv])
qed

definition ex_empty_server :: "(unit, string, ref_index) server" where
  "ex_empty_server = ex_server\<lparr>sr_index := (\<lambda>r. [])\<rparr>"

theorem tables_stay_typed_witness:
  "typed_index ex_E ex_schema
     (slot_index (snd (HandlePut ex_E \<lparr>pqs_row = Some ex_row, pqs_table_name = Some ''t''\<rparr> ex_empty_server)) ex_slot) \<and>
   kv_get ex_E (slot_index (snd (HandlePut ex_E \<lparr>pqs_row = Some ex_row, pqs_table_name = Some ''t''\<rparr> ex_empty_server)) ex_slot)
     ''8'' \<noteq> None"
proof
  have table: "table_of ex_empty_server ''t'' = Some ex_slot"
    using ex_table by (simp add: ex_empty_server_def table_of_def)
  have empty: "typed_index ex_E (ts_schema ex_slot) (slot_index ex_empty_server ex_slot)"
    by (simp add: typed_index_def ex_empty_server_def slot_index_def ref_engine_def ref_get_def)
  show "typed_index ex_E ex_schema
     (slot_index (snd (HandlePut ex_E \<lparr>pqs_row = Some ex_row, pqs_table_name = Some ''t''\<rparr> ex_empty_server)) ex_slot)"
    by (rule tables_stay_typed [OF ex_slot_ok table empty, THEN conjunct1, unfolded ex_slot_schema])
  show "kv_get ex_E (slot_index (snd (HandlePut ex_E \<lparr>pqs_row = Some ex_row, pqs_table_name = Some ''t''\<rparr> ex_empty_server)) ex_slot)
     ''8'' \<noteq> None"
    by code_simp
qed

end
