(* ===== verification/CloudUri.thy ===== *)
theory CloudUri
  imports Arrow "HOL-Library.List_Lexorder" "HOL-Library.Char_ord"
begin

text \<open>
  \<open>indexer/source/file/cloud_filesystem.h\<close> and \<open>.cc\<close>: cloud URIs, the options of the five object
  stores and the expansion of prefixes. The environment variables, the creation of an Arrow file
  system from its options and its listing are parameters.
\<close>

section \<open>Text helpers\<close>

definition GetEnvTrimmed :: "(string \<Rightarrow> string option) \<Rightarrow> string \<Rightarrow> string" where
  "GetEnvTrimmed env name =
     (case env name of None \<Rightarrow> [] | Some v \<Rightarrow> dropWhile is_space (rtrim is_space v))"

definition StripSchemeHost :: "string \<Rightarrow> string" where
  "StripSchemeHost endpoint =
     rtrim (\<lambda>c. c = CHR ''/'')
       (if starts_with ''https://'' endpoint then drop 8 endpoint
        else if starts_with ''http://'' endpoint then drop 7 endpoint
        else endpoint)"

definition EndsWithSlash :: "string \<Rightarrow> bool" where
  "EndsWithSlash s \<longleftrightarrow> s \<noteq> [] \<and> last s = CHR ''/''"

definition EndsWithIgnoreCase :: "string \<Rightarrow> string \<Rightarrow> bool" where
  "EndsWithIgnoreCase name ext =
     (if length name < length ext then False
      else list_all (\<lambda>i. tolower (name ! (length name - length ext + i)) = ext ! i) [0..<length ext])"

definition IsDataObjectPath :: "string \<Rightarrow> bool" where
  "IsDataObjectPath path =
     (let base = after_last CHR ''/'' path in
      if base = [] then False else EndsWithIgnoreCase base ''.parquet'' \<or> EndsWithIgnoreCase base ''.csv'')"

text \<open>The region inside \<open>pre\<close>\<dots>\<open>suf\<close>: both functions of the code, for COS and OBS, are of this form.\<close>

definition region_from_endpoint :: "string \<Rightarrow> string \<Rightarrow> string \<Rightarrow> string option" where
  "region_from_endpoint pre suf endpoint =
     (if length endpoint \<le> length pre + length suf then None
      else if \<not> starts_with pre endpoint then None
      else if length endpoint < length suf \<or> drop (length endpoint - length suf) endpoint \<noteq> suf then None
      else let region = take (length endpoint - length pre - length suf) (drop (length pre) endpoint) in
        if region = [] then None else Some region)"

definition CosRegionFromEndpoint :: "string \<Rightarrow> string option" where
  "CosRegionFromEndpoint = region_from_endpoint ''cos.'' ''.myqcloud.com''"

definition ObsRegionFromEndpoint :: "string \<Rightarrow> string option" where
  "ObsRegionFromEndpoint = region_from_endpoint ''obs.'' ''.myhuaweicloud.com''"

section \<open>File systems and URIs\<close>

record 'f cloud_file_systems =
  cf_oss :: "'f option"
  cf_s3 :: "'f option"
  cf_cos :: "'f option"
  cf_obs :: "'f option"
  cf_gcs :: "'f option"

definition CloudFileSystems_init :: "'f cloud_file_systems" where
  "CloudFileSystems_init = \<lparr>cf_oss = None, cf_s3 = None, cf_cos = None, cf_obs = None, cf_gcs = None\<rparr>"

definition FsForScheme :: "'f cloud_file_systems \<Rightarrow> string \<Rightarrow> 'f option" where
  "FsForScheme cfs scheme =
     (if scheme = ''oss'' then cf_oss cfs
      else if scheme = ''s3'' then cf_s3 cfs
      else if scheme = ''cos'' then cf_cos cfs
      else if scheme = ''obs'' then cf_obs cfs
      else if scheme = ''gs'' then cf_gcs cfs
      else None)"

definition IsCloudUri :: "string \<Rightarrow> bool" where
  "IsCloudUri uri \<longleftrightarrow>
     6 \<le> length uri \<and> starts_with ''oss://'' uri \<or> 5 \<le> length uri \<and> starts_with ''s3://'' uri \<or>
     5 \<le> length uri \<and> starts_with ''gs://'' uri \<or> 6 \<le> length uri \<and> starts_with ''cos://'' uri \<or>
     6 \<le> length uri \<and> starts_with ''obs://'' uri"

text \<open>Scheme, bucket and key; \<open>None\<close>: the function returns false.\<close>

definition ParseCloudUri :: "string \<Rightarrow> (string \<times> string \<times> string) option" where
  "ParseCloudUri uri =
     (case find_sub ''://'' uri of
        None \<Rightarrow> None
      | Some p \<Rightarrow>
          let scheme = take p uri in
          if scheme \<notin> {''oss'', ''s3'', ''gs'', ''cos'', ''obs''} then None
          else let rest = drop (p + 3) uri in
            if rest = [] then None
            else case find_char CHR ''/'' rest of
              None \<Rightarrow> if rest \<noteq> [] then Some (scheme, rest, []) else None
            | Some slash \<Rightarrow>
                let bucket = take slash rest in
                if bucket \<noteq> [] then Some (scheme, bucket, drop (slash + 1) rest) else None)"

section \<open>The five stores\<close>

text \<open>\<open>arrow::fs::S3Options\<close>: how it was made, and the fields the code sets on top.\<close>

datatype s3_base = From_access_key string string | S3_defaults

record s3_options =
  so_base :: s3_base
  so_endpoint_override :: string
  so_scheme :: string
  so_force_virtual_addressing :: bool
  so_region :: string

definition make_s3 :: "(s3_options \<Rightarrow> status + 'f) \<Rightarrow> string \<Rightarrow> string \<Rightarrow> string \<Rightarrow> string \<Rightarrow> status + 'f" where
  "make_s3 create key_id secret endpoint region =
     create \<lparr>so_base = From_access_key key_id secret, so_endpoint_override = endpoint, so_scheme = ''https'',
       so_force_virtual_addressing = True, so_region = region\<rparr>"

definition MakeOssFileSystem :: "(string \<Rightarrow> string option) \<Rightarrow> (s3_options \<Rightarrow> status + 'f) \<Rightarrow> status + 'f" where
  "MakeOssFileSystem env create =
     (let endpoint = StripSchemeHost (GetEnvTrimmed env ''OSS_ENDPOINT'');
          key_id = GetEnvTrimmed env ''OSS_ACCESS_KEY_ID'';
          secret = GetEnvTrimmed env ''OSS_ACCESS_KEY_SECRET''
      in if endpoint = [] then Inl (Invalid ''OSS_ENDPOINT is not set (required for oss:// inputs)'')
         else if key_id = [] \<or> secret = [] then
           Inl (Invalid ''OSS_ACCESS_KEY_ID and OSS_ACCESS_KEY_SECRET are required for oss:// inputs'')
         else let region = GetEnvTrimmed env ''OSS_REGION'' in
           make_s3 create key_id secret endpoint (if region = [] then ''cn-hangzhou'' else region))"

text \<open>The AWS options are Arrow's defaults; the fields are read from the usual environment there.\<close>

definition MakeAwsS3FileSystem :: "s3_options \<Rightarrow> (s3_options \<Rightarrow> status + 'f) \<Rightarrow> status + 'f" where
  "MakeAwsS3FileSystem dflt create = create dflt"

definition MakeTencentCosFileSystem :: "(string \<Rightarrow> string option) \<Rightarrow> (s3_options \<Rightarrow> status + 'f) \<Rightarrow> status + 'f" where
  "MakeTencentCosFileSystem env create =
     (let endpoint = StripSchemeHost (GetEnvTrimmed env ''COS_ENDPOINT'');
          region_cfg = GetEnvTrimmed env ''COS_REGION'';
          endpoint = (if endpoint = [] \<and> region_cfg \<noteq> [] then ''cos.'' @ region_cfg @ ''.myqcloud.com'' else endpoint)
      in if endpoint = [] then Inl (Invalid ''COS_ENDPOINT or COS_REGION is required for cos:// inputs'')
         else let region = (if region_cfg = [] then
                   (case CosRegionFromEndpoint endpoint of None \<Rightarrow> ''ap-beijing'' | Some r \<Rightarrow> r) else region_cfg);
                  sid = GetEnvTrimmed env ''COS_SECRET_ID'';
                  skey = GetEnvTrimmed env ''COS_SECRET_KEY''
           in if sid = [] \<or> skey = [] then
                Inl (Invalid ''COS_SECRET_ID and COS_SECRET_KEY are required for cos:// inputs'')
              else make_s3 create sid skey endpoint region)"

definition MakeHuaweiObsFileSystem :: "(string \<Rightarrow> string option) \<Rightarrow> (s3_options \<Rightarrow> status + 'f) \<Rightarrow> status + 'f" where
  "MakeHuaweiObsFileSystem env create =
     (let endpoint = StripSchemeHost (GetEnvTrimmed env ''OBS_ENDPOINT'') in
      if endpoint = [] then Inl (Invalid ''OBS_ENDPOINT is required for obs:// inputs'')
      else let region_cfg = GetEnvTrimmed env ''OBS_REGION'';
               region = (if region_cfg = [] then
                   (case ObsRegionFromEndpoint endpoint of None \<Rightarrow> ''cn-south-1'' | Some r \<Rightarrow> r) else region_cfg);
               ak = GetEnvTrimmed env ''OBS_ACCESS_KEY_ID'';
               sk = GetEnvTrimmed env ''OBS_SECRET_ACCESS_KEY''
        in if ak = [] \<or> sk = [] then
             Inl (Invalid ''OBS_ACCESS_KEY_ID and OBS_SECRET_ACCESS_KEY are required for obs:// inputs'')
           else make_s3 create ak sk endpoint region)"

definition MakeGcsFileSystem :: "(status + 'f) \<Rightarrow> status + 'f" where
  "MakeGcsFileSystem make_default = make_default"

section \<open>Expansion of prefixes\<close>

text \<open>A listing gives, for each entry below a directory, whether it is a file, and its path.\<close>

type_synonym listing = "(bool \<times> string) list"

definition expand_one ::
  "('f \<Rightarrow> string \<Rightarrow> status + listing) \<Rightarrow> 'f cloud_file_systems \<Rightarrow> string \<Rightarrow> status + string list" where
  "expand_one list_dir cfs e =
     (if \<not> IsCloudUri e then Inr [e]
      else case ParseCloudUri e of
        None \<Rightarrow> Inl (Invalid (''invalid cloud URI: '' @ e))
      | Some (scheme, bucket, key) \<Rightarrow>
          (case FsForScheme cfs scheme of
             None \<Rightarrow> Inl (Invalid (''no filesystem configured for scheme '' @ scheme @ '' (URI: '' @ e @ '')''))
           | Some f \<Rightarrow>
               if \<not> EndsWithSlash e then Inr [e]
               else let key = rtrim (\<lambda>c. c = CHR ''/'') key;
                        base_dir = (if key = [] then bucket else bucket @ ''/'' @ key)
                 in (case list_dir f base_dir of
                       Inl st \<Rightarrow> Inl st
                     | Inr infos \<Rightarrow>
                         let keys = map (\<lambda>(_, path). scheme @ ''://'' @ path)
                               (filter (\<lambda>(is_file, path). is_file \<and> IsDataObjectPath path) infos)
                         in if keys = [] then
                              Inl (Invalid (''no .parquet or .csv objects under cloud prefix: '' @ e))
                            else Inr (sort keys))))"

fun ExpandCloudInputs ::
  "('f \<Rightarrow> string \<Rightarrow> status + listing) \<Rightarrow> 'f cloud_file_systems \<Rightarrow> string list \<Rightarrow> status + string list" where
  "ExpandCloudInputs list_dir cfs [] = Inr []"
| "ExpandCloudInputs list_dir cfs (e # es) =
     (case expand_one list_dir cfs e of
        Inl st \<Rightarrow> Inl st
      | Inr ks \<Rightarrow> (case ExpandCloudInputs list_dir cfs es of Inl st \<Rightarrow> Inl st | Inr rest \<Rightarrow> Inr (ks @ rest)))"

section \<open>URIs: parsing and its inverse\<close>

definition cloud_schemes :: "string list" where
  "cloud_schemes = [''oss'', ''s3'', ''gs'', ''cos'', ''obs'']"

lemma scheme_no_colon: "s \<in> set cloud_schemes \<Longrightarrow> CHR '':'' \<notin> set s"
  by (auto simp: cloud_schemes_def)

lemma cloud_scheme_set: "s \<in> {''oss'', ''s3'', ''gs'', ''cos'', ''obs''} \<longleftrightarrow> s \<in> set cloud_schemes"
  by (simp add: cloud_schemes_def)

lemma find_scheme: "s \<in> set cloud_schemes \<Longrightarrow> find_sub ''://'' (s @ ''://'' @ rest) = Some (length s)"
  by (rule find_sub_append) (simp_all add: scheme_no_colon)

lemma ParseCloudUri_scheme:
  assumes "s \<in> set cloud_schemes"
  shows "ParseCloudUri (s @ ''://'' @ rest) =
    (if takeWhile (\<lambda>c. c \<noteq> CHR ''/'') rest = [] then None
     else Some (s, takeWhile (\<lambda>c. c \<noteq> CHR ''/'') rest, drop 1 (dropWhile (\<lambda>c. c \<noteq> CHR ''/'') rest)))"
proof (cases "find_char CHR ''/'' rest")
  case None
  then have no: "\<And>c. c \<in> set rest \<Longrightarrow> c \<noteq> CHR ''/''" by auto
  have tw: "takeWhile (\<lambda>c. c \<noteq> CHR ''/'') rest = rest" by (rule takeWhile_eq_all_conv [THEN iffD2]) (simp add: no)
  have dw: "dropWhile (\<lambda>c. c \<noteq> CHR ''/'') rest = []" by (rule dropWhile_eq_Nil_conv [THEN iffD2]) (simp add: no)
  from None assms show ?thesis
    unfolding ParseCloudUri_def find_scheme [OF assms] cloud_scheme_set tw dw
    by (simp add: Let_def del: find_char_None)
next
  case (Some n)
  from find_char_SomeD [OF Some] have rest: "rest = take n rest @ CHR ''/'' # drop (Suc n) rest"
    and no: "CHR ''/'' \<notin> set (take n rest)" by auto
  have "takeWhile (\<lambda>c. c \<noteq> CHR ''/'') rest = take n rest"
    "dropWhile (\<lambda>c. c \<noteq> CHR ''/'') rest = CHR ''/'' # drop (Suc n) rest"
    using no by (subst rest; subst takeWhile_append2 dropWhile_append2; force)+
  with Some rest assms show ?thesis
    unfolding ParseCloudUri_def find_scheme [OF assms] cloud_scheme_set by (auto simp: Let_def)
qed

lemma ParseCloudUri_form:
  assumes "ParseCloudUri u = Some (s, b, k)"
  obtains rest where "s \<in> set cloud_schemes" "u = s @ ''://'' @ rest"
    "b = takeWhile (\<lambda>c. c \<noteq> CHR ''/'') rest" "b \<noteq> []" "k = drop 1 (dropWhile (\<lambda>c. c \<noteq> CHR ''/'') rest)"
proof -
  from assms obtain p where p: "find_sub ''://'' u = Some p" "take p u \<in> set cloud_schemes"
    by (auto simp: ParseCloudUri_def Let_def cloud_scheme_set [symmetric] split: option.splits if_splits)
  have "u = take p u @ ''://'' @ drop (p + 3) u"
    using find_sub_SomeD [OF p(1)] by (simp add: numeral_3_eq_3)
  with p(2) obtain s' rest where sr: "s' \<in> set cloud_schemes" "u = s' @ ''://'' @ rest" by blast
  from assms have "s' = s \<and> takeWhile (\<lambda>c. c \<noteq> CHR ''/'') rest = b \<and> b \<noteq> [] \<and>
      drop 1 (dropWhile (\<lambda>c. c \<noteq> CHR ''/'') rest) = k"
    unfolding sr(2) ParseCloudUri_scheme [OF sr(1)] by (auto split: if_splits)
  with sr that show ?thesis by blast
qed

lemma IsCloudUri_iff: "IsCloudUri u \<longleftrightarrow> (\<exists>s \<in> set cloud_schemes. starts_with (s @ ''://'') u)"
  by (auto simp: IsCloudUri_def cloud_schemes_def starts_with_iff)

lemma IsCloudUri_scheme: "s \<in> set cloud_schemes \<Longrightarrow> IsCloudUri (s @ ''://'' @ rest)"
  by (auto simp: IsCloudUri_iff starts_with_iff)

text \<open>
  C38: Cloud URIs are parsed exactly. A URI written from a known scheme, a bucket without a slash
  and a key is parsed into these parts; whatever is parsed is a cloud URI of that form, or the
  bucket alone with an empty key; and a cloud URI is refused only when its bucket is empty.
\<close>

theorem cloud_uri_roundtrip:
  "(s \<in> set cloud_schemes \<and> b \<noteq> [] \<and> CHR ''/'' \<notin> set b \<longrightarrow>
     ParseCloudUri (s @ ''://'' @ b @ ''/'' @ k) = Some (s, b, k) \<and>
     ParseCloudUri (s @ ''://'' @ b) = Some (s, b, [])) \<and>
   (ParseCloudUri u = Some (s, b, k) \<longrightarrow>
     IsCloudUri u \<and> s \<in> set cloud_schemes \<and> b \<noteq> [] \<and> CHR ''/'' \<notin> set b \<and>
     (u = s @ ''://'' @ b @ ''/'' @ k \<or> u = s @ ''://'' @ b \<and> k = [])) \<and>
   (IsCloudUri u \<and> ParseCloudUri u = None \<longrightarrow>
     (\<exists>s \<in> set cloud_schemes. u = s @ ''://'' \<or> (\<exists>t. u = s @ '':///'' @ t)))"
proof (intro conjI impI)
  assume a: "s \<in> set cloud_schemes \<and> b \<noteq> [] \<and> CHR ''/'' \<notin> set b"
  then have no: "\<forall>c \<in> set b. c \<noteq> CHR ''/''" by auto
  with a show "ParseCloudUri (s @ ''://'' @ b @ ''/'' @ k) = Some (s, b, k)"
    using ParseCloudUri_scheme [of s "b @ ''/'' @ k"] by (simp add: takeWhile_append2 dropWhile_append2)
  have tw: "takeWhile (\<lambda>c. c \<noteq> CHR ''/'') b = b" by (rule takeWhile_eq_all_conv [THEN iffD2]) (rule no)
  have dw: "dropWhile (\<lambda>c. c \<noteq> CHR ''/'') b = []" by (rule dropWhile_eq_Nil_conv [THEN iffD2]) (rule no)
  from a have "s \<in> set cloud_schemes" "b \<noteq> []" by simp_all
  then show "ParseCloudUri (s @ ''://'' @ b) = Some (s, b, [])"
    unfolding ParseCloudUri_scheme [OF \<open>s \<in> set cloud_schemes\<close>] tw dw by simp
next
  assume "ParseCloudUri u = Some (s, b, k)"
  then obtain rest where r: "s \<in> set cloud_schemes" "u = s @ ''://'' @ rest"
    "b = takeWhile (\<lambda>c. c \<noteq> CHR ''/'') rest" "b \<noteq> []" "k = drop 1 (dropWhile (\<lambda>c. c \<noteq> CHR ''/'') rest)"
    by (rule ParseCloudUri_form)
  show "IsCloudUri u" unfolding r(2) by (rule IsCloudUri_scheme [OF r(1)])
  show "s \<in> set cloud_schemes" "b \<noteq> []" using r by simp_all
  show "CHR ''/'' \<notin> set b" using r(3) by (auto dest: set_takeWhileD)
  show "u = s @ ''://'' @ b @ ''/'' @ k \<or> u = s @ ''://'' @ b \<and> k = []"
  proof (cases "dropWhile (\<lambda>c. c \<noteq> CHR ''/'') rest")
    case Nil
    with r(3) takeWhile_dropWhile_id [of "\<lambda>c. c \<noteq> CHR ''/''" rest] have "rest = b"
      by (metis append_Nil2)
    moreover have "k = []" unfolding r(5) Nil by simp
    ultimately show ?thesis using r(2) by blast
  next
    case (Cons c cs)
    then have "c = CHR ''/''" using hd_dropWhile [of "\<lambda>c. c \<noteq> CHR ''/''" rest] by auto
    with Cons r(3,5) takeWhile_dropWhile_id [of "\<lambda>c. c \<noteq> CHR ''/''" rest] have "rest = b @ ''/'' @ k"
      by simp
    with r(2) show ?thesis by blast
  qed
next
  assume a: "IsCloudUri u \<and> ParseCloudUri u = None"
  then obtain s rest where s: "s \<in> set cloud_schemes" "u = s @ ''://'' @ rest"
    by (auto simp: IsCloudUri_iff starts_with_iff)
  with a have "takeWhile (\<lambda>c. c \<noteq> CHR ''/'') rest = []"
    using ParseCloudUri_scheme [of s rest] by (simp split: if_splits)
  with s show "\<exists>s \<in> set cloud_schemes. u = s @ ''://'' \<or> (\<exists>t. u = s @ '':///'' @ t)"
    by (cases rest) (auto split: if_splits)
qed

theorem cloud_uri_roundtrip_witness:
  "ParseCloudUri ''oss://lake/day=1/part.csv'' = Some (''oss'', ''lake'', ''day=1/part.csv'')"
  using cloud_uri_roundtrip [of "''oss''" "''lake''" "''day=1/part.csv''"] by (simp add: cloud_schemes_def)

section \<open>Expansion\<close>

text \<open>What Arrow documents of a listing: the paths it returns start with the directory listed.\<close>

definition listing_ok :: "('f \<Rightarrow> string \<Rightarrow> status + listing) \<Rightarrow> bool" where
  "listing_ok list_dir \<longleftrightarrow>
     (\<forall>f dir infos x. list_dir f dir = Inr infos \<longrightarrow> x \<in> set infos \<longrightarrow> starts_with (dir @ ''/'') (snd x))"

lemma IsDataObjectPath_no_slash: "IsDataObjectPath p \<Longrightarrow> \<not> EndsWithSlash (s @ p)"
proof
  assume data: "IsDataObjectPath p" and slash: "EndsWithSlash (s @ p)"
  then have "p \<noteq> []" by (auto simp: IsDataObjectPath_def after_last_def)
  with slash have "last p = CHR ''/''" by (simp add: EndsWithSlash_def)
  then have "after_last CHR ''/'' p = []"
    using \<open>p \<noteq> []\<close> by (cases p rule: rev_cases) (simp_all add: after_last_def)
  with data show False by (simp add: IsDataObjectPath_def)
qed

text \<open>An input that the expansion keeps: a local path, or an object of a store that is open.\<close>

definition settled :: "'f cloud_file_systems \<Rightarrow> string \<Rightarrow> bool" where
  "settled cfs k \<longleftrightarrow> \<not> IsCloudUri k \<or>
     (\<exists>scheme bucket key f. ParseCloudUri k = Some (scheme, bucket, key) \<and> FsForScheme cfs scheme = Some f) \<and>
     \<not> EndsWithSlash k"

lemma expand_settled: "settled cfs k \<Longrightarrow> expand_one list_dir cfs k = Inr [k]"
  by (auto simp: settled_def expand_one_def)

lemma listed_settled:
  assumes u: "ParseCloudUri e = Some (scheme, bucket, key)" and f: "FsForScheme cfs scheme = Some f"
    and path: "starts_with ((if base = [] then bucket else bucket @ ''/'' @ base) @ ''/'') path"
    and data: "IsDataObjectPath path"
  shows "settled cfs (scheme @ ''://'' @ path)"
proof -
  from ParseCloudUri_form [OF u] have s: "scheme \<in> set cloud_schemes" and b: "bucket \<noteq> []"
    and no: "\<And>c. c \<in> set bucket \<Longrightarrow> c \<noteq> CHR ''/''" by (metis set_takeWhileD)+
  from path obtain t where "path = bucket @ CHR ''/'' # t"
    by (auto simp: starts_with_iff split: if_splits)
  then have "takeWhile (\<lambda>c. c \<noteq> CHR ''/'') path = bucket" using no by (simp add: takeWhile_append2)
  with b have "\<exists>key'. ParseCloudUri (scheme @ ''://'' @ path) = Some (scheme, bucket, key')"
    unfolding ParseCloudUri_scheme [OF s] by simp
  with f IsDataObjectPath_no_slash [OF data, of "scheme @ ''://''"] show ?thesis
    unfolding settled_def append_assoc by blast
qed

lemma sort_eq_Nil: "sort xs = [] \<longleftrightarrow> xs = []"
  by (metis length_0_conv length_sort)

lemma expand_one_cases:
  assumes "expand_one list_dir cfs e = Inr ks"
  obtains (kept) "ks = [e]" "settled cfs e"
  | (listed) scheme bucket key f infos where
      "ParseCloudUri e = Some (scheme, bucket, key)" "FsForScheme cfs scheme = Some f"
      "list_dir f (if rtrim (\<lambda>c. c = CHR ''/'') key = [] then bucket
         else bucket @ ''/'' @ rtrim (\<lambda>c. c = CHR ''/'') key) = Inr infos"
      "set ks = (\<lambda>x. scheme @ ''://'' @ snd x) ` {x \<in> set infos. fst x \<and> IsDataObjectPath (snd x)}"
      "sorted ks" "ks \<noteq> []"
proof (cases "IsCloudUri e \<and> EndsWithSlash e")
  case True
  with assms obtain scheme bucket key f where u: "ParseCloudUri e = Some (scheme, bucket, key)"
    and f: "FsForScheme cfs scheme = Some f" by (auto simp: expand_one_def split: option.splits)
  let ?base = "rtrim (\<lambda>c. c = CHR ''/'') key"
  let ?dir = "if ?base = [] then bucket else bucket @ ''/'' @ ?base"
  from True assms u f obtain infos where infos: "list_dir f ?dir = Inr infos"
    by (auto simp: expand_one_def Let_def split: sum.splits)
  let ?keys = "map (\<lambda>(_, path). scheme @ ''://'' @ path)
    (filter (\<lambda>(is_file, path). is_file \<and> IsDataObjectPath path) infos)"
  from True assms u f infos have keys: "?keys \<noteq> []" "ks = sort ?keys"
    by (auto simp: expand_one_def Let_def split: if_splits)
  show ?thesis
  proof (rule listed [OF u f infos])
    show "set ks = (\<lambda>x. scheme @ ''://'' @ snd x) ` {x \<in> set infos. fst x \<and> IsDataObjectPath (snd x)}"
      by (simp only: keys(2) set_sort set_map set_filter split_def)
    show "sorted ks" unfolding keys(2) by simp
    show "ks \<noteq> []" unfolding keys(2) sort_eq_Nil by (rule keys(1))
  qed
next
  case False
  with assms have "ks = [e]" "settled cfs e"
    by (auto simp: expand_one_def settled_def Let_def split: option.splits if_splits)
  then show ?thesis by (rule kept)
qed

lemma rtrim_replicate: "\<exists>m. xs = rtrim (\<lambda>c. c = x) xs @ replicate m x"
proof -
  obtain t where t: "xs = rtrim (\<lambda>c. c = x) xs @ t" "\<forall>c \<in> set t. c = x"
    using rtrim_prefix [of xs "\<lambda>c. c = x"] by blast
  have "t = replicate (length t) x" by (rule replicate_length_same [symmetric]) (rule t(2))
  with t(1) show ?thesis by (intro exI [of _ "length t"]) simp
qed

lemma expand_one_settled:
  assumes ok: "listing_ok list_dir" and e: "expand_one list_dir cfs e = Inr ks" and k: "k \<in> set ks"
  shows "settled cfs k"
  using e
proof (cases rule: expand_one_cases)
  case kept
  with k show ?thesis by simp
next
  case (listed scheme bucket key f infos)
  let ?base = "rtrim (\<lambda>c. c = CHR ''/'') key"
  from k listed(4) obtain x where x: "x \<in> set infos" "IsDataObjectPath (snd x)" "k = scheme @ ''://'' @ snd x"
    by auto
  from ok listed(3) x(1) have
    "starts_with ((if ?base = [] then bucket else bucket @ ''/'' @ ?base) @ ''/'') (snd x)"
    unfolding listing_ok_def by blast
  from listed_settled [OF listed(1,2) this x(2)] show ?thesis unfolding x(3) .
qed

lemma ExpandCloudInputs_settled:
  assumes "listing_ok list_dir"
  shows "ExpandCloudInputs list_dir cfs es = Inr out \<Longrightarrow> k \<in> set out \<Longrightarrow> settled cfs k"
  by (induction es arbitrary: out) (auto split: sum.splits dest: expand_one_settled [OF assms])

lemma ExpandCloudInputs_keeps:
  "(\<And>k. k \<in> set es \<Longrightarrow> settled cfs k) \<Longrightarrow> ExpandCloudInputs list_dir cfs es = Inr es"
  by (induction es) (simp_all add: expand_settled)

lemma ExpandCloudInputs_covers:
  "ExpandCloudInputs list_dir cfs es = Inr out \<Longrightarrow> e \<in> set es \<Longrightarrow>
     \<exists>ks. expand_one list_dir cfs e = Inr ks \<and> set ks \<subseteq> set out"
  by (induction es arbitrary: out) (fastforce split: sum.splits)+

lemma ExpandCloudInputs_source:
  "ExpandCloudInputs list_dir cfs es = Inr out \<Longrightarrow> k \<in> set out \<Longrightarrow>
     \<exists>e ks. e \<in> set es \<and> expand_one list_dir cfs e = Inr ks \<and> k \<in> set ks"
  by (induction es arbitrary: out) (fastforce split: sum.splits)+

text \<open>
  What a store lists below a prefix: the prefix is the URI of a directory followed by slashes, and
  the entries are those of that directory.
\<close>

definition prefix_lists ::
  "('f \<Rightarrow> string \<Rightarrow> status + listing) \<Rightarrow> 'f cloud_file_systems \<Rightarrow> string \<Rightarrow> string \<Rightarrow> listing \<Rightarrow> bool" where
  "prefix_lists list_dir cfs e scheme infos \<longleftrightarrow>
     (\<exists>f dir n. e = scheme @ ''://'' @ dir @ replicate (Suc n) CHR ''/'' \<and> \<not> EndsWithSlash dir \<and>
        FsForScheme cfs scheme = Some f \<and> list_dir f dir = Inr infos)"

lemma prefix_dir:
  assumes "ParseCloudUri e = Some (scheme, bucket, key)" "EndsWithSlash e"
  defines "base \<equiv> rtrim (\<lambda>c. c = CHR ''/'') key"
  defines "dir \<equiv> if base = [] then bucket else bucket @ ''/'' @ base"
  shows "\<not> EndsWithSlash dir \<and> (\<exists>n. e = scheme @ ''://'' @ dir @ replicate (Suc n) CHR ''/'')"
proof -
  from ParseCloudUri_form [OF assms(1)] obtain rest where
    e: "e = scheme @ ''://'' @ rest" and b: "bucket = takeWhile (\<lambda>c. c \<noteq> CHR ''/'') rest" "bucket \<noteq> []"
    and k: "key = drop 1 (dropWhile (\<lambda>c. c \<noteq> CHR ''/'') rest)" by metis
  have no: "CHR ''/'' \<notin> set bucket" unfolding b(1) by (auto dest: set_takeWhileD)
  then have bs: "last bucket \<noteq> CHR ''/''" using b(2) last_in_set by metis
  have rest: "rest = bucket @ dropWhile (\<lambda>c. c \<noteq> CHR ''/'') rest" unfolding b(1) by simp
  have "rest \<noteq> []" using b by auto
  then have last: "last rest = CHR ''/''" using assms(2) unfolding e by (simp add: EndsWithSlash_def)
  have ne: "dropWhile (\<lambda>c. c \<noteq> CHR ''/'') rest \<noteq> []"
    using rest last bs by (metis append_Nil2)
  then have "hd (dropWhile (\<lambda>c. c \<noteq> CHR ''/'') rest) = CHR ''/''"
    using hd_dropWhile [OF ne] by simp
  with ne k have "dropWhile (\<lambda>c. c \<noteq> CHR ''/'') rest = CHR ''/'' # key"
    by (metis drop0 drop_Suc list.collapse One_nat_def tl_drop)
  then have r: "rest = bucket @ CHR ''/'' # key" using rest by simp
  obtain m where m: "key = base @ replicate m CHR ''/''"
    using rtrim_replicate [of key "CHR ''/''"] unfolding base_def by blast
  show ?thesis
  proof (cases "base = []")
    case True
    then have "rest = bucket @ replicate (Suc m) CHR ''/''" using r m by simp
    with True e bs show ?thesis by (auto simp: dir_def EndsWithSlash_def)
  next
    case False
    have lb: "last base \<noteq> CHR ''/''" using rtrim_last [of "\<lambda>c. c = CHR ''/''" key] False unfolding base_def by simp
    have "m \<noteq> 0"
    proof
      assume "m = 0"
      with m have "key = base" by simp
      with r False last lb show False by simp
    qed
    then obtain n where "m = Suc n" by (cases m) auto
    then have "rest = dir @ replicate (Suc n) CHR ''/''" using r m False by (simp add: dir_def)
    moreover have "\<not> EndsWithSlash dir" using False lb by (simp add: dir_def EndsWithSlash_def)
    ultimately show ?thesis using e by blast
  qed
qed

lemma expand_one_listed:
  assumes "expand_one list_dir cfs e = Inr ks" "\<not> settled cfs e"
  shows "\<exists>scheme infos. prefix_lists list_dir cfs e scheme infos \<and> ks \<noteq> [] \<and>
    set ks = (\<lambda>x. scheme @ ''://'' @ snd x) ` {x \<in> set infos. fst x \<and> IsDataObjectPath (snd x)}"
proof -
  have slash: "EndsWithSlash e"
  proof (rule ccontr)
    assume "\<not> EndsWithSlash e"
    with assms show False by (auto simp: expand_one_def settled_def split: option.splits if_splits)
  qed
  from assms(1) show ?thesis
  proof (cases rule: expand_one_cases)
    case kept
    with assms(2) show ?thesis by simp
  next
    case (listed scheme bucket key f infos)
    from prefix_dir [OF listed(1) slash] listed(2,3) have "prefix_lists list_dir cfs e scheme infos"
      unfolding prefix_lists_def by metis
    with listed(4,6) show ?thesis by blast
  qed
qed

text \<open>
  C39: The expansion of the inputs is exact and stable. When it succeeds, each output is a local
  path as it was given or an object of a store that is open, never a prefix; an input that is one
  of these is kept; any other input is the URI of a directory of an open store, slashes at its
  end, that the store could list: at least one data file is below it, and all of them are in the
  output. Nothing else is in the output, and expanding it again changes nothing.
\<close>

theorem expand_stable:
  assumes "listing_ok list_dir" and "ExpandCloudInputs list_dir cfs es = Inr out"
  shows "(\<forall>k \<in> set out. settled cfs k) \<and>
     (\<forall>e \<in> set es. settled cfs e \<longrightarrow> e \<in> set out) \<and>
     (\<forall>e \<in> set es. \<not> settled cfs e \<longrightarrow> (\<exists>scheme infos. prefix_lists list_dir cfs e scheme infos \<and>
        (\<exists>x \<in> set infos. fst x \<and> IsDataObjectPath (snd x)) \<and>
        (\<forall>x \<in> set infos. fst x \<and> IsDataObjectPath (snd x) \<longrightarrow> scheme @ ''://'' @ snd x \<in> set out))) \<and>
     (\<forall>k \<in> set out. k \<in> set es \<or> (\<exists>e \<in> set es. \<exists>scheme infos. prefix_lists list_dir cfs e scheme infos \<and>
        (\<exists>x \<in> set infos. fst x \<and> IsDataObjectPath (snd x) \<and> k = scheme @ ''://'' @ snd x))) \<and>
     ExpandCloudInputs list_dir cfs out = Inr out"
proof (intro conjI ballI impI)
  show settled: "settled cfs k" if "k \<in> set out" for k
    using ExpandCloudInputs_settled [OF assms] that by simp
  show "ExpandCloudInputs list_dir cfs out = Inr out"
    using settled by (rule ExpandCloudInputs_keeps)
next
  fix e assume e: "e \<in> set es"
  from ExpandCloudInputs_covers [OF assms(2) e] obtain ks
    where ks: "expand_one list_dir cfs e = Inr ks" "set ks \<subseteq> set out" by auto
  show "e \<in> set out" if "settled cfs e" using ks expand_settled [OF that, of list_dir] by auto
  assume "\<not> settled cfs e"
  from expand_one_listed [OF ks(1) this] obtain scheme infos where l: "prefix_lists list_dir cfs e scheme infos" "ks \<noteq> []"
    "set ks = (\<lambda>x. scheme @ ''://'' @ snd x) ` {x \<in> set infos. fst x \<and> IsDataObjectPath (snd x)}" by blast
  from l(2) have "set ks \<noteq> {}" by simp
  then have "\<exists>x \<in> set infos. fst x \<and> IsDataObjectPath (snd x)" unfolding l(3) by blast
  moreover from l(3) ks(2)
  have "\<forall>x \<in> set infos. fst x \<and> IsDataObjectPath (snd x) \<longrightarrow> scheme @ ''://'' @ snd x \<in> set out" by blast
  ultimately show "\<exists>scheme infos. prefix_lists list_dir cfs e scheme infos \<and>
        (\<exists>x \<in> set infos. fst x \<and> IsDataObjectPath (snd x)) \<and>
        (\<forall>x \<in> set infos. fst x \<and> IsDataObjectPath (snd x) \<longrightarrow> scheme @ ''://'' @ snd x \<in> set out)"
    using l(1) by blast
next
  fix k assume "k \<in> set out"
  from ExpandCloudInputs_source [OF assms(2) this] obtain e ks
    where e: "e \<in> set es" "expand_one list_dir cfs e = Inr ks" "k \<in> set ks" by auto
  show "k \<in> set es \<or> (\<exists>e \<in> set es. \<exists>scheme infos. prefix_lists list_dir cfs e scheme infos \<and>
        (\<exists>x \<in> set infos. fst x \<and> IsDataObjectPath (snd x) \<and> k = scheme @ ''://'' @ snd x))"
  proof (cases "settled cfs e")
    case True
    with e expand_settled [OF True, of list_dir] show ?thesis by auto
  next
    case False
    from expand_one_listed [OF e(2) this] e(1,3) show ?thesis by blast
  qed
qed

definition ex_listing :: "unit \<Rightarrow> string \<Rightarrow> status + listing" where
  "ex_listing f dir = Inr [(False, dir @ ''/old''), (True, dir @ ''/b.CSV''), (True, dir @ ''/a.txt''),
     (True, dir @ ''/a.parquet'')]"

lemma ex_listing_ok: "listing_ok ex_listing"
  by (auto simp: listing_ok_def ex_listing_def starts_with_iff)

theorem expand_stable_witness:
  "ExpandCloudInputs ex_listing (CloudFileSystems_init\<lparr>cf_oss := Some ()\<rparr>) [''x.csv'', ''oss://b/d/''] =
     Inr [''x.csv'', ''oss://b/d/a.parquet'', ''oss://b/d/b.CSV''] \<and>
   settled (CloudFileSystems_init\<lparr>cf_oss := Some ()\<rparr>) ''oss://b/d/b.CSV''"
proof
  show e: "ExpandCloudInputs ex_listing (CloudFileSystems_init\<lparr>cf_oss := Some ()\<rparr>) [''x.csv'', ''oss://b/d/''] =
     Inr [''x.csv'', ''oss://b/d/a.parquet'', ''oss://b/d/b.CSV'']" by code_simp
  show "settled (CloudFileSystems_init\<lparr>cf_oss := Some ()\<rparr>) ''oss://b/d/b.CSV''"
    using expand_stable [OF ex_listing_ok e] by simp
qed

end
