(* ===== verification/BatchQueue.thy ===== *)
theory BatchQueue
  imports Arrow
begin

text \<open>
  \<open>indexer/queue/parsed_batch_queue.h\<close> and \<open>.cc\<close>: the error state shared by the threads of the
  import and the bounded queue between them. Every operation runs under the queue's mutex, so it
  is one step; an operation that waits on a condition variable is \<open>None\<close> while its condition
  does not hold.
\<close>

record 'b parsed_batch =
  pb_batch :: 'b
  pb_path :: string
  pb_file_index_1based :: nat

text \<open>The message is kept as the status whose text it is; \<open>Status_OK\<close> stands for the empty message.\<close>

record error_state =
  er_failed :: bool
  er_message :: status

definition ErrorState_init :: error_state where
  "ErrorState_init = \<lparr>er_failed = False, er_message = Status_OK\<rparr>"

definition ErrorState_Set :: "status \<Rightarrow> error_state \<Rightarrow> error_state" where
  "ErrorState_Set st e =
     (if st_ok st then e
      else if \<not> er_failed e then \<lparr>er_failed = True, er_message = st\<rparr> else e)"

record 'b batch_queue =
  bq_items :: "'b list"
  bq_cap :: nat
  bq_eos :: bool
  bq_aborted :: bool

definition BatchQueue_init :: "nat \<Rightarrow> 'b batch_queue" where
  "BatchQueue_init capacity =
     \<lparr>bq_items = [], bq_cap = (if capacity \<noteq> 0 then capacity else 1), bq_eos = False, bq_aborted = False\<rparr>"

definition Push :: "'b \<Rightarrow> 'b batch_queue \<Rightarrow> 'b batch_queue option" where
  "Push x q =
     (if length (bq_items q) < bq_cap q \<or> bq_aborted q then
        if bq_aborted q then Some q else Some (q\<lparr>bq_items := bq_items q @ [x]\<rparr>)
      else None)"

definition PushEos :: "'b batch_queue \<Rightarrow> 'b batch_queue" where
  "PushEos q = q\<lparr>bq_eos := True\<rparr>"

definition Abort :: "'b batch_queue \<Rightarrow> 'b batch_queue" where
  "Abort q = q\<lparr>bq_aborted := True, bq_eos := True\<rparr>"

definition Pop :: "'b batch_queue \<Rightarrow> ('b option \<times> 'b batch_queue) option" where
  "Pop q =
     (if bq_items q \<noteq> [] \<or> bq_eos q \<or> bq_aborted q then
        (case bq_items q of
           [] \<Rightarrow> Some (None, q)
         | x # xs \<Rightarrow> Some (Some x, q\<lparr>bq_items := xs\<rparr>))
      else None)"

section \<open>The contract of the queue\<close>

text \<open>
  What the threads rely on, whatever the representation: \<open>contents\<close> are the items in order and
  \<open>closed\<close> tells whether offered items are dropped. An offer appends or, when closed, is dropped;
  a taking removes the first item, and yields nothing only when there is none; an operation that
  is neither (\<open>step\<close>) keeps the contents.
\<close>

locale bounded_fifo =
  fixes offer :: "'b \<Rightarrow> 'q \<Rightarrow> 'q option"
    and take_one :: "'q \<Rightarrow> ('b option \<times> 'q) option"
    and signal :: "bool \<Rightarrow> 'q \<Rightarrow> 'q"
    and contents :: "'q \<Rightarrow> 'b list"
    and closed :: "'q \<Rightarrow> bool"
    and bound :: "'q \<Rightarrow> nat"
  assumes offer_open: "\<not> closed q \<Longrightarrow> offer x q = Some q' \<Longrightarrow> contents q' = contents q @ [x]"
    and offer_closed: "closed q \<Longrightarrow> offer x q = Some q' \<Longrightarrow> q' = q"
    and offer_bound: "offer x q = Some q' \<Longrightarrow> length (contents q) \<le> bound q \<Longrightarrow>
      length (contents q') \<le> bound q' \<and> bound q' = bound q"
    and take_item: "take_one q = Some (Some x, q') \<Longrightarrow> contents q = x # contents q' \<and> bound q' = bound q"
    and take_none: "take_one q = Some (None, q') \<Longrightarrow> contents q = [] \<and> q' = q"
    and signal_contents: "contents (signal b q) = contents q \<and> bound (signal b q) = bound q"
begin

text \<open>A history of operations; \<open>None\<close> when one of them would wait for ever.\<close>

fun history :: "('b option + bool) option list \<Rightarrow> 'q \<Rightarrow> ('b list \<times> 'b list \<times> 'q) option" where
  "history [] q = Some ([], [], q)"
| "history (None # ops) q =
     (case take_one q of None \<Rightarrow> None
      | Some (r, q') \<Rightarrow> map_option (\<lambda>(inn, out, q''). (inn, (case r of None \<Rightarrow> [] | Some x \<Rightarrow> [x]) @ out, q''))
          (history ops q'))"
| "history (Some (Inr b) # ops) q = history ops (signal b q)"
| "history (Some (Inl None) # ops) q = history ops q"
| "history (Some (Inl (Some x)) # ops) q =
     (case offer x q of None \<Rightarrow> None
      | Some q' \<Rightarrow> map_option (\<lambda>(inn, out, q''). ((if closed q then [] else [x]) @ inn, out, q''))
          (history ops q'))"

lemma history_fifo:
  "history ops q = Some (inn, out, q') \<Longrightarrow> length (contents q) \<le> bound q \<Longrightarrow>
   contents q @ inn = out @ contents q' \<and> length (contents q') \<le> bound q \<and> bound q' = bound q"
proof (induction ops q arbitrary: inn out rule: history.induct)
  case (2 ops q)
  then show ?case by (fastforce split: option.splits dest: take_item take_none)
next
  case (3 b ops q)
  then show ?case by (auto simp: signal_contents)
next
  case (5 x ops q)
  then obtain q1 inn1 where q1: "offer x q = Some q1" "history ops q1 = Some (inn1, out, q')"
    "inn = (if closed q then [] else [x]) @ inn1"
    by (auto split: option.splits)
  have "contents q @ (if closed q then [] else [x]) = contents q1"
    using offer_open [OF _ q1(1)] offer_closed [OF _ q1(1)] by auto
  with 5 q1 offer_bound [OF q1(1)] show ?case by (metis append_assoc)
qed auto

end

lemma Push_cases:
  "Push x q = Some q' \<longleftrightarrow>
     bq_aborted q \<and> q' = q \<or>
     \<not> bq_aborted q \<and> length (bq_items q) < bq_cap q \<and> q' = q\<lparr>bq_items := bq_items q @ [x]\<rparr>"
  by (auto simp: Push_def)

lemma Pop_cases:
  "Pop q = Some (r, q') \<longleftrightarrow>
     (case bq_items q of [] \<Rightarrow> (bq_eos q \<or> bq_aborted q) \<and> r = None \<and> q' = q
      | x # xs \<Rightarrow> r = Some x \<and> q' = q\<lparr>bq_items := xs\<rparr>)"
  by (auto simp: Pop_def split: list.split)

definition signal_queue :: "bool \<Rightarrow> 'b batch_queue \<Rightarrow> 'b batch_queue" where
  "signal_queue b q = (if b then PushEos q else Abort q)"

lemma signal_queue_simps [simp]: "signal_queue True q = PushEos q" "signal_queue False q = Abort q"
  by (simp_all add: signal_queue_def)

interpretation bq: bounded_fifo Push Pop signal_queue bq_items bq_aborted bq_cap
  by unfold_locales
    (auto simp: Push_cases Pop_cases signal_queue_def PushEos_def Abort_def split: list.splits)

text \<open>
  The history of a queue: an item offered (\<open>Q_push\<close>), taken (\<open>Q_pop\<close>), the end announced or the
  queue aborted.
\<close>

datatype 'b queue_op = Q_push 'b | Q_pop | Q_eos | Q_abort

fun queue_run :: "'b queue_op list \<Rightarrow> 'b batch_queue \<Rightarrow> ('b list \<times> 'b list \<times> 'b batch_queue) option" where
  "queue_run [] q = Some ([], [], q)"
| "queue_run (Q_push x # ops) q =
     (case Push x q of None \<Rightarrow> None
      | Some q' \<Rightarrow> map_option (\<lambda>(inn, out, q''). ((if bq_aborted q then [] else [x]) @ inn, out, q''))
          (queue_run ops q'))"
| "queue_run (Q_pop # ops) q =
     (case Pop q of None \<Rightarrow> None
      | Some (r, q') \<Rightarrow> map_option (\<lambda>(inn, out, q''). (inn, (case r of None \<Rightarrow> [] | Some x \<Rightarrow> [x]) @ out, q''))
          (queue_run ops q'))"
| "queue_run (Q_eos # ops) q = queue_run ops (PushEos q)"
| "queue_run (Q_abort # ops) q = queue_run ops (Abort q)"

fun op_of :: "'b queue_op \<Rightarrow> ('b option + bool) option" where
  "op_of (Q_push x) = Some (Inl (Some x))"
| "op_of Q_pop = None"
| "op_of Q_eos = Some (Inr True)"
| "op_of Q_abort = Some (Inr False)"

lemma queue_run_history: "queue_run ops q = bq.history (map op_of ops) q"
  by (induction ops q rule: queue_run.induct) (auto split: option.splits)

text \<open>
  C37: The queue loses, repeats and reorders nothing and stays within its capacity. After any
  history of pushes, pops, end and abort from the empty queue, what was popped, in order,
  followed by what is still queued is exactly what was accepted, in order (a push is accepted
  unless the queue was aborted before), and there are never more items than the capacity, which
  is at least one.
\<close>

theorem queue_fifo:
  assumes "queue_run ops (BatchQueue_init capacity) = Some (accepted, popped, q)"
  shows "accepted = popped @ bq_items q \<and> length (bq_items q) \<le> max 1 capacity"
  using bq.history_fifo [of "map op_of ops" "BatchQueue_init capacity" accepted popped q] assms
  by (auto simp: queue_run_history [symmetric] BatchQueue_init_def split: if_splits)

theorem queue_fifo_witness:
  "\<exists>q. queue_run [Q_push (1 :: nat), Q_push 2, Q_pop, Q_push 3, Q_abort, Q_push 4, Q_pop]
      (BatchQueue_init 2) = Some ([1, 2, 3], [1, 2], q) \<and> length (bq_items q) \<le> 2"
proof -
  have run: "queue_run [Q_push (1 :: nat), Q_push 2, Q_pop, Q_push 3, Q_abort, Q_push 4, Q_pop]
      (BatchQueue_init 2) = Some ([1, 2, 3], [1, 2], \<lparr>bq_items = [3], bq_cap = 2, bq_eos = True, bq_aborted = True\<rparr>)"
    by (simp add: BatchQueue_init_def Push_def Pop_def PushEos_def Abort_def)
  from queue_fifo [OF run] run show ?thesis by simp
qed

end
