(* ===== verification/Pipeline.thy ===== *)
theory Pipeline
  imports BatchQueue "HOL-Library.Multiset"
begin

text \<open>
  The threads of an import: \<open>IoPublisher::Run\<close> with its producers, the writer thread
  \<open>RunKvWriteLoop\<close> and the main thread around them (\<open>import_pipeline_main.cc\<close>, from the start of
  the writer to its join). A producer is given by its \<open>ProduceLoop\<close> as a control-flow graph: from
  a location, with the failure flag as it is now, one step to the next location that does at most
  one thing to the shared queue or error state. Any thread may take the next step.
\<close>

section \<open>The threads\<close>

datatype 'b effect = E_tau | E_set status | E_push 'b | E_abort | E_exit

text \<open>The writer: \<open>W_write\<close> has a batch in hand, \<open>W_failed\<close> and \<open>W_abort\<close> report an error.\<close>

datatype 'b writer_loc = W_start | W_pop | W_write 'b | W_failed status | W_abort | W_done

text \<open>The main thread: joins the producers, closes the queue, joins the writer.\<close>

datatype main_loc = M_join | M_close bool | M_wait | M_done bool

text \<open>
  \<open>pl_pushed\<close> and \<open>pl_written\<close> are history: the batches the queue accepted and those the writer
  has processed without an error, in order.
\<close>

record ('s, 'l, 'b, 'w) pipeline =
  pl_queue :: "'b batch_queue"
  pl_err :: error_state
  pl_source :: 's
  pl_producers :: "'l option list"
  pl_writer :: "'b writer_loc"
  pl_sink :: 'w
  pl_main :: main_loc
  pl_pushed :: "'b list"
  pl_written :: "'b list"

definition IoPublisher_threads :: "nat \<Rightarrow> 'l \<Rightarrow> 'l option list" where
  "IoPublisher_threads num_workers entry = replicate (if num_workers < 1 then 1 else num_workers) (Some entry)"

definition pipeline_init :: "nat \<Rightarrow> nat \<Rightarrow> 's \<Rightarrow> 'l \<Rightarrow> 'w \<Rightarrow> ('s, 'l, 'b, 'w) pipeline" where
  "pipeline_init capacity num_workers source entry sink =
     \<lparr>pl_queue = BatchQueue_init capacity, pl_err = ErrorState_init, pl_source = source,
      pl_producers = IoPublisher_threads num_workers entry, pl_writer = W_start, pl_sink = sink,
      pl_main = M_join, pl_pushed = [], pl_written = []\<rparr>"

text \<open>What a step does to the shared objects; \<open>None\<close>: the push has to wait.\<close>

definition perform :: "'b effect \<Rightarrow> ('s, 'l, 'b, 'w) pipeline \<Rightarrow> ('s, 'l, 'b, 'w) pipeline option" where
  "perform e p =
     (case e of
        E_tau \<Rightarrow> Some p
      | E_set st \<Rightarrow> Some (p\<lparr>pl_err := ErrorState_Set st (pl_err p)\<rparr>)
      | E_abort \<Rightarrow> Some (p\<lparr>pl_queue := Abort (pl_queue p)\<rparr>)
      | E_push b \<Rightarrow>
          (case Push b (pl_queue p) of
             None \<Rightarrow> None
           | Some q \<Rightarrow> Some (p\<lparr>pl_queue := q,
               pl_pushed := (if bq_aborted (pl_queue p) then pl_pushed p else pl_pushed p @ [b])\<rparr>))
      | E_exit \<Rightarrow> Some p)"

definition producer_step ::
  "(bool \<Rightarrow> 's \<Rightarrow> 'l \<Rightarrow> 's \<times> 'l \<times> 'b effect) \<Rightarrow> nat \<Rightarrow> ('s, 'l, 'b, 'w) pipeline \<Rightarrow> ('s, 'l, 'b, 'w) pipeline option" where
  "producer_step next i p =
     (if \<not> i < length (pl_producers p) then None
      else case pl_producers p ! i of
        None \<Rightarrow> None
      | Some l \<Rightarrow>
          (case next (er_failed (pl_err p)) (pl_source p) l of (s', l', e) \<Rightarrow>
             perform e (p\<lparr>pl_source := s',
               pl_producers := (pl_producers p)[i := (if e = E_exit then None else Some l')]\<rparr>)))"

text \<open>\<open>RunKvWriteLoop\<close>; \<open>process\<close> is \<open>ProcessBatch\<close> on the state of the writer.\<close>

definition RunKvWriteLoop_step ::
  "('b \<Rightarrow> 'w \<Rightarrow> (status \<times> 'w) option) \<Rightarrow> bool \<Rightarrow> ('s, 'l, 'b, 'w) pipeline \<Rightarrow> ('s, 'l, 'b, 'w) pipeline option" where
  "RunKvWriteLoop_step process have_schema p =
     (case pl_writer p of
        W_start \<Rightarrow>
          Some (p\<lparr>pl_writer := (if \<not> have_schema then W_failed (Invalid ''RunKvWriteLoop: null schema'') else W_pop)\<rparr>)
      | W_pop \<Rightarrow>
          (case Pop (pl_queue p) of
             None \<Rightarrow> None
           | Some (None, q) \<Rightarrow> Some (p\<lparr>pl_queue := q, pl_writer := W_done\<rparr>)
           | Some (Some item, q) \<Rightarrow> Some (p\<lparr>pl_queue := q, pl_writer := W_write item\<rparr>))
      | W_write item \<Rightarrow>
          (case process item (pl_sink p) of
             None \<Rightarrow> None
           | Some (ws, w) \<Rightarrow>
               if \<not> st_ok ws then Some (p\<lparr>pl_sink := w, pl_writer := W_failed ws\<rparr>)
               else Some (p\<lparr>pl_sink := w, pl_writer := W_pop, pl_written := pl_written p @ [item]\<rparr>))
      | W_failed st \<Rightarrow> Some (p\<lparr>pl_err := ErrorState_Set st (pl_err p), pl_writer := W_abort\<rparr>)
      | W_abort \<Rightarrow> Some (p\<lparr>pl_queue := Abort (pl_queue p), pl_writer := W_done\<rparr>)
      | W_done \<Rightarrow> None)"

text \<open>
  \<open>M_close b\<close>: the failure flag was read as \<open>b\<close>; \<open>M_done ok\<close>: the import ends, \<open>ok\<close> as read last.
\<close>

definition main_step :: "('s, 'l, 'b, 'w) pipeline \<Rightarrow> ('s, 'l, 'b, 'w) pipeline option" where
  "main_step p =
     (case pl_main p of
        M_join \<Rightarrow>
          if list_all (\<lambda>l. l = None) (pl_producers p) then Some (p\<lparr>pl_main := M_close (er_failed (pl_err p))\<rparr>)
          else None
      | M_close failed \<Rightarrow>
          Some (p\<lparr>pl_queue := (if \<not> failed then PushEos (pl_queue p) else Abort (pl_queue p)), pl_main := M_wait\<rparr>)
      | M_wait \<Rightarrow>
          if pl_writer p = W_done then Some (p\<lparr>pl_main := M_done (\<not> er_failed (pl_err p))\<rparr>) else None
      | M_done ok \<Rightarrow> None)"

inductive pipeline_step ::
  "(bool \<Rightarrow> 's \<Rightarrow> 'l \<Rightarrow> 's \<times> 'l \<times> 'b effect) \<Rightarrow> ('b \<Rightarrow> 'w \<Rightarrow> (status \<times> 'w) option) \<Rightarrow> bool \<Rightarrow>
   ('s, 'l, 'b, 'w) pipeline \<Rightarrow> ('s, 'l, 'b, 'w) pipeline \<Rightarrow> bool" for "next" process have_schema where
  step_producer: "producer_step next i p = Some p' \<Longrightarrow> pipeline_step next process have_schema p p'"
| step_writer: "RunKvWriteLoop_step process have_schema p = Some p' \<Longrightarrow> pipeline_step next process have_schema p p'"
| step_main: "main_step p = Some p' \<Longrightarrow> pipeline_step next process have_schema p p'"

section \<open>The contract of a source\<close>

text \<open>
  What the pipeline relies on of a \<open>Source\<close>. \<open>todo_src\<close> is the work nobody has claimed,
  \<open>todo_loc\<close> what the thread at a location still has to do: \<open>Some b\<close> is a batch to push, \<open>None\<close> an
  error to report. \<open>doomed\<close> marks the locations behind an error the thread has seen or set,
  \<open>agrees\<close> the states of the source in which a thread can stand at a location. While nothing has failed, a step neither loses nor
  invents work, a push is of work in hand, and a thread returns with none in hand when there is
  none to claim; the queue is aborted only by doomed threads; an error is set first by a
  thread that has one to report; and every step but a return uses up some of a finite weight.
\<close>

locale produce_source =
  fixes advance :: "bool \<Rightarrow> 's \<Rightarrow> 'l \<Rightarrow> 's \<times> 'l \<times> 'b effect"
    and todo_src :: "'s \<Rightarrow> 'b option multiset"
    and todo_loc :: "'l \<Rightarrow> 'b option multiset"
    and doomed :: "'l \<Rightarrow> bool"
    and agrees :: "'s \<Rightarrow> 'l \<Rightarrow> bool"
    and weight_src :: "'s \<Rightarrow> nat"
    and weight_loc :: "'l \<Rightarrow> nat"
  assumes conserve: "advance False s l = (s', l', e) \<Longrightarrow> \<not> doomed l \<Longrightarrow> e \<in> {E_tau, E_set Status_OK} \<Longrightarrow>
      todo_src s' + todo_loc l' = todo_src s + todo_loc l"
    and conserve_push: "advance False s l = (s', l', E_push b) \<Longrightarrow> \<not> doomed l \<Longrightarrow>
      todo_src s' + todo_loc l' + {#Some b#} = todo_src s + todo_loc l"
    and conserve_exit: "advance False s l = (s', l', E_exit) \<Longrightarrow> \<not> doomed l \<Longrightarrow> agrees s l \<Longrightarrow>
      todo_src s = {#} \<and> todo_src s' = {#} \<and> todo_loc l = {#}"
    and unclaimed_shrinks: "advance f s l = (s', l', e) \<Longrightarrow> todo_src s = {#} \<Longrightarrow> todo_src s' = {#}"
    and agrees_step: "advance f s l = (s', l', e) \<Longrightarrow> agrees s l \<Longrightarrow> e \<noteq> E_exit \<Longrightarrow> agrees s' l'"
    and agrees_stable: "advance f s l = (s', l', e) \<Longrightarrow> agrees s k \<Longrightarrow> agrees s' k"
    and abort_doomed: "advance f s l = (s', l', E_abort) \<Longrightarrow> doomed l"
    and doomed_origin: "advance f s l = (s', l', e) \<Longrightarrow> doomed l' \<Longrightarrow>
      doomed l \<or> f \<or> (\<exists>st. e = E_set st \<and> \<not> st_ok st)"
    and fault_origin: "advance False s l = (s', l', E_set st) \<Longrightarrow> \<not> st_ok st \<Longrightarrow> doomed l \<or> None \<in># todo_loc l"
    and weight_step: "advance f s l = (s', l', e) \<Longrightarrow> e \<noteq> E_exit \<Longrightarrow>
      weight_src s' + weight_loc l' < weight_src s + weight_loc l"
    and weight_exit: "advance f s l = (s', l', E_exit) \<Longrightarrow> weight_src s' \<le> weight_src s"

lemma sum_list_update_mset:
  fixes f :: "'a \<Rightarrow> 'b multiset"
  shows "i < length xs \<Longrightarrow> sum_list (map f (xs[i := y])) + f (xs ! i) = sum_list (map f xs) + f y"
proof (induction xs arbitrary: i)
  case (Cons x xs)
  then show ?case by (cases i) (auto simp: ac_simps)
qed simp

lemma sum_list_update_nat:
  fixes f :: "'a \<Rightarrow> nat"
  shows "i < length xs \<Longrightarrow> sum_list (map f (xs[i := y])) + f (xs ! i) = sum_list (map f xs) + f y"
proof (induction xs arbitrary: i)
  case (Cons x xs)
  then show ?case by (cases i) (auto simp: ac_simps)
qed simp

end
