(* ===== verification/PipelineSafety.thy ===== *)
theory PipelineSafety
  imports Pipeline
begin

text \<open>
  The invariants of the import pipeline, for any source that keeps the contract of
  \<open>produce_source\<close>: nothing is lost, repeated or reordered, an abort always has an error behind
  it, the threads never all wait, and every run is bounded.
\<close>

lemma ErrorState_Set_simps [simp]:
  "er_failed (ErrorState_Set st e) \<longleftrightarrow> er_failed e \<or> \<not> st_ok st"
  "st_ok st \<Longrightarrow> ErrorState_Set st e = e"
  by (simp_all add: ErrorState_Set_def)

lemma queue_ops_simps [simp]:
  "bq_items (Abort q) = bq_items q" "bq_cap (Abort q) = bq_cap q" "bq_aborted (Abort q)" "bq_eos (Abort q)"
  "bq_items (PushEos q) = bq_items q" "bq_cap (PushEos q) = bq_cap q" "bq_aborted (PushEos q) = bq_aborted q"
  "bq_eos (PushEos q)"
  by (simp_all add: Abort_def PushEos_def)

text \<open>The sink after a list of batches, and whether each of them was processed without an error.\<close>

definition sink_after :: "('b \<Rightarrow> 'w \<Rightarrow> (status \<times> 'w) option) \<Rightarrow> 'b list \<Rightarrow> 'w \<Rightarrow> 'w" where
  "sink_after process bs w = foldl (\<lambda>w b. snd (the (process b w))) w bs"

fun all_processed :: "('b \<Rightarrow> 'w \<Rightarrow> (status \<times> 'w) option) \<Rightarrow> 'b list \<Rightarrow> 'w \<Rightarrow> bool" where
  "all_processed process [] w = True"
| "all_processed process (b # bs) w =
     (case process b w of None \<Rightarrow> False | Some (st, w') \<Rightarrow> st_ok st \<and> all_processed process bs w')"

lemma sink_after_snoc: "process b (sink_after process bs w) = Some (st, w') \<Longrightarrow> sink_after process (bs @ [b]) w = w'"
  by (simp add: sink_after_def)

lemma all_processed_snoc:
  "all_processed process (bs @ [b]) w \<longleftrightarrow> all_processed process bs w \<and>
     (case process b (sink_after process bs w) of None \<Rightarrow> False | Some (st, w') \<Rightarrow> st_ok st)"
  by (induction bs arbitrary: w) (auto simp: sink_after_def split: option.splits prod.splits)

section \<open>The steps of the threads by cases\<close>

inductive_cases pipeline_stepE: "pipeline_step next process have_schema p p'"

lemma producer_stepE:
  assumes "producer_step next i p = Some p'"
  obtains l s' l' e where "i < length (pl_producers p)" "pl_producers p ! i = Some l"
    "next (er_failed (pl_err p)) (pl_source p) l = (s', l', e)"
    "perform e (p\<lparr>pl_source := s',
       pl_producers := (pl_producers p)[i := (if e = E_exit then None else Some l')]\<rparr>) = Some p'"
  using assms by (auto simp: producer_step_def split: if_splits option.splits prod.splits)

lemma perform_cases:
  "perform e p = Some p' \<longleftrightarrow>
     (case e of
        E_tau \<Rightarrow> p' = p
      | E_exit \<Rightarrow> p' = p
      | E_set st \<Rightarrow> p' = p\<lparr>pl_err := ErrorState_Set st (pl_err p)\<rparr>
      | E_abort \<Rightarrow> p' = p\<lparr>pl_queue := Abort (pl_queue p)\<rparr>
      | E_push b \<Rightarrow>
          bq_aborted (pl_queue p) \<and> p' = p \<or>
          \<not> bq_aborted (pl_queue p) \<and> length (bq_items (pl_queue p)) < bq_cap (pl_queue p) \<and>
          p' = p\<lparr>pl_queue := (pl_queue p)\<lparr>bq_items := bq_items (pl_queue p) @ [b]\<rparr>,
            pl_pushed := pl_pushed p @ [b]\<rparr>)"
  by (cases e) (auto simp: perform_def Push_def)

lemma perform_frame:
  assumes "perform e p = Some p'"
  shows "pl_source p' = pl_source p" "pl_producers p' = pl_producers p" "pl_writer p' = pl_writer p"
    "pl_main p' = pl_main p" "pl_sink p' = pl_sink p" "pl_written p' = pl_written p"
    "bq_eos (pl_queue p') \<longleftrightarrow> bq_eos (pl_queue p) \<or> e = E_abort"
    "bq_aborted (pl_queue p') \<longleftrightarrow> bq_aborted (pl_queue p) \<or> e = E_abort"
    "bq_cap (pl_queue p') = bq_cap (pl_queue p)"
    "er_failed (pl_err p') \<longleftrightarrow> er_failed (pl_err p) \<or> (\<exists>st. e = E_set st \<and> \<not> st_ok st)"
  using assms by (cases e; auto simp: perform_cases)+

lemma perform_length:
  "perform e p = Some p' \<Longrightarrow> length (bq_items (pl_queue p)) \<le> bq_cap (pl_queue p) \<Longrightarrow>
   length (bq_items (pl_queue p')) \<le> bq_cap (pl_queue p)"
  by (cases e) (auto simp: perform_cases)

section \<open>The flags\<close>

definition returned_all :: "('s, 'l, 'b, 'w) pipeline \<Rightarrow> bool" where
  "returned_all p = list_all (\<lambda>l. l = None) (pl_producers p)"

definition queue_inv :: "('s, 'l, 'b, 'w) pipeline \<Rightarrow> bool" where
  "queue_inv p \<longleftrightarrow> (bq_aborted (pl_queue p) \<longrightarrow> er_failed (pl_err p)) \<and>
     0 < bq_cap (pl_queue p) \<and> length (bq_items (pl_queue p)) \<le> bq_cap (pl_queue p)"

definition writer_inv :: "('s, 'l, 'b, 'w) pipeline \<Rightarrow> bool" where
  "writer_inv p =
     (case pl_writer p of
        W_failed st \<Rightarrow> \<not> st_ok st
      | W_abort \<Rightarrow> er_failed (pl_err p)
      | W_done \<Rightarrow> bq_aborted (pl_queue p) \<or> bq_eos (pl_queue p) \<and> bq_items (pl_queue p) = []
      | _ \<Rightarrow> True)"

definition main_inv :: "('s, 'l, 'b, 'w) pipeline \<Rightarrow> bool" where
  "main_inv p =
     (case pl_main p of
        M_join \<Rightarrow> bq_eos (pl_queue p) \<longrightarrow> bq_aborted (pl_queue p)
      | M_close b \<Rightarrow> returned_all p \<and> (b \<longrightarrow> er_failed (pl_err p)) \<and> (bq_eos (pl_queue p) \<longrightarrow> bq_aborted (pl_queue p))
      | M_wait \<Rightarrow> returned_all p \<and> bq_eos (pl_queue p)
      | M_done ok \<Rightarrow> returned_all p \<and> bq_eos (pl_queue p) \<and> pl_writer p = W_done \<and> ok = (\<not> er_failed (pl_err p)))"

definition doomed_inv :: "('l \<Rightarrow> bool) \<Rightarrow> ('s, 'l, 'b, 'w) pipeline \<Rightarrow> bool" where
  "doomed_inv doomed p \<longleftrightarrow> (\<forall>l. Some l \<in> set (pl_producers p) \<longrightarrow> doomed l \<longrightarrow> er_failed (pl_err p))"

definition flags_inv :: "('l \<Rightarrow> bool) \<Rightarrow> ('s, 'l, 'b, 'w) pipeline \<Rightarrow> bool" where
  "flags_inv doomed p \<longleftrightarrow> queue_inv p \<and> writer_inv p \<and> main_inv p \<and> doomed_inv doomed p"

lemmas inv_defs = queue_inv_def writer_inv_def main_inv_def doomed_inv_def returned_all_def

lemma main_step_cases:
  "main_step p = Some p' \<longleftrightarrow>
     pl_main p = M_join \<and> returned_all p \<and> p' = p\<lparr>pl_main := M_close (er_failed (pl_err p))\<rparr> \<or>
     (\<exists>b. pl_main p = M_close b \<and>
        p' = p\<lparr>pl_queue := (if \<not> b then PushEos (pl_queue p) else Abort (pl_queue p)), pl_main := M_wait\<rparr>) \<or>
     pl_main p = M_wait \<and> pl_writer p = W_done \<and> p' = p\<lparr>pl_main := M_done (\<not> er_failed (pl_err p))\<rparr>"
  by (cases "pl_main p") (auto simp: main_step_def returned_all_def)

lemma flags_main:
  assumes "flags_inv doomed p" "main_step p = Some p'"
  shows "flags_inv doomed p'"
  using assms
  by (cases "pl_main p"; cases "pl_writer p") (auto simp: flags_inv_def main_step_cases inv_defs)

lemma writer_step_cases:
  "RunKvWriteLoop_step process hs p = Some p' \<longleftrightarrow>
     (case pl_writer p of
        W_start \<Rightarrow> p' = p\<lparr>pl_writer := (if \<not> hs then W_failed (Invalid ''RunKvWriteLoop: null schema'') else W_pop)\<rparr>
      | W_pop \<Rightarrow>
          (case bq_items (pl_queue p) of
             [] \<Rightarrow> (bq_eos (pl_queue p) \<or> bq_aborted (pl_queue p)) \<and> p' = p\<lparr>pl_writer := W_done\<rparr>
           | b # bs \<Rightarrow> p' = p\<lparr>pl_queue := (pl_queue p)\<lparr>bq_items := bs\<rparr>, pl_writer := W_write b\<rparr>)
      | W_write b \<Rightarrow>
          (\<exists>st w. process b (pl_sink p) = Some (st, w) \<and>
             p' = (if st_ok st then p\<lparr>pl_sink := w, pl_writer := W_pop, pl_written := pl_written p @ [b]\<rparr>
                   else p\<lparr>pl_sink := w, pl_writer := W_failed st\<rparr>))
      | W_failed st \<Rightarrow> p' = p\<lparr>pl_err := ErrorState_Set st (pl_err p), pl_writer := W_abort\<rparr>
      | W_abort \<Rightarrow> p' = p\<lparr>pl_queue := Abort (pl_queue p), pl_writer := W_done\<rparr>
      | W_done \<Rightarrow> False)"
  by (cases "pl_writer p")
    (auto simp: RunKvWriteLoop_step_def Pop_def split: list.splits option.splits prod.splits)

lemma flags_writer:
  assumes "flags_inv doomed p" "RunKvWriteLoop_step process hs p = Some p'"
  shows "flags_inv doomed p'"
proof (cases "pl_writer p")
  case W_pop
  with assms show ?thesis
    unfolding flags_inv_def writer_step_cases
    by (cases "bq_items (pl_queue p)") (auto simp: inv_defs split: main_loc.splits)
qed (use assms in \<open>auto simp: flags_inv_def writer_step_cases inv_defs split: main_loc.splits\<close>)

context produce_source
begin

lemma flags_producer:
  assumes "flags_inv doomed p" "producer_step advance i p = Some p'"
  shows "flags_inv doomed p'"
  using assms(2)
proof (cases rule: producer_stepE)
  case (1 l s' l' e)
  note frame = perform_frame [OF 1(4), simplified]
  have mem: "Some l \<in> set (pl_producers p)" using 1(1,2) nth_mem [OF 1(1)] by simp
  then have running: "\<not> returned_all p" by (auto simp: returned_all_def list_all_iff)
  have inv: "queue_inv p" "writer_inv p" "main_inv p" "doomed_inv doomed p"
    using assms(1) by (simp_all add: flags_inv_def)
  from inv(3) running have join: "pl_main p = M_join" "bq_eos (pl_queue p) \<Longrightarrow> bq_aborted (pl_queue p)"
    by (auto simp: main_inv_def split: main_loc.splits)
  have abort: "e = E_abort \<Longrightarrow> er_failed (pl_err p)"
    using abort_doomed 1(3) inv(4) mem by (auto simp: doomed_inv_def)
  have "main_inv p'" using join frame by (auto simp: main_inv_def)
  moreover have "queue_inv p'"
    using inv(1) frame abort perform_length [OF 1(4)] by (auto simp: queue_inv_def)
  moreover have "writer_inv p'"
    using inv(1,2) frame join(2) by (auto simp: writer_inv_def queue_inv_def split: writer_loc.splits)
  moreover have "doomed_inv doomed p'"
  proof -
    have "Some k \<in> set (pl_producers p') \<Longrightarrow> (e \<noteq> E_exit \<and> k = l') \<or> Some k \<in> set (pl_producers p)" for k
      using set_update_subset_insert [of "pl_producers p" i] by (auto simp: frame split: if_splits)
    with doomed_origin [OF 1(3)] inv(4) mem frame(10) show ?thesis by (auto simp: doomed_inv_def)
  qed
  ultimately show ?thesis by (simp add: flags_inv_def)
qed

end

section \<open>Order\<close>

definition fifo_inv :: "('s, 'l, 'b, 'w) pipeline \<Rightarrow> bool" where
  "fifo_inv p \<longleftrightarrow>
     (\<exists>mid. pl_pushed p = pl_written p @ mid @ bq_items (pl_queue p) \<and>
        (case pl_writer p of
           W_start \<Rightarrow> mid = []
         | W_pop \<Rightarrow> mid = []
         | W_write b \<Rightarrow> mid = [b]
         | W_done \<Rightarrow> er_failed (pl_err p) \<or> mid = []
         | _ \<Rightarrow> True))"

lemma fifo_main: "fifo_inv p \<Longrightarrow> main_step p = Some p' \<Longrightarrow> fifo_inv p'"
  by (cases "pl_writer p") (auto simp: fifo_inv_def main_step_cases)

lemma fifo_writer:
  assumes "fifo_inv p" "writer_inv p" "RunKvWriteLoop_step process hs p = Some p'"
  shows "fifo_inv p'"
proof (cases "pl_writer p")
  case W_pop
  with assms show ?thesis
    by (cases "bq_items (pl_queue p)") (auto simp: fifo_inv_def writer_step_cases)
next
  case (W_write b)
  with assms show ?thesis
    by (auto simp: fifo_inv_def writer_step_cases)
qed (use assms in \<open>auto simp: fifo_inv_def writer_step_cases writer_inv_def\<close>)

lemma fifo_producer:
  assumes "fifo_inv p" "producer_step next i p = Some p'"
  shows "fifo_inv p'"
  using assms(2)
proof (cases rule: producer_stepE)
  case (1 l s' l' e)
  note frame = perform_frame [OF 1(4), simplified]
  obtain new where new: "pl_pushed p' = pl_pushed p @ new" "bq_items (pl_queue p') = bq_items (pl_queue p) @ new"
    using 1(4) by (cases e) (auto simp: perform_cases)
  from assms(1) obtain mid where "pl_pushed p = pl_written p @ mid @ bq_items (pl_queue p)"
    "case pl_writer p of W_start \<Rightarrow> mid = [] | W_pop \<Rightarrow> mid = [] | W_write b \<Rightarrow> mid = [b]
       | W_done \<Rightarrow> er_failed (pl_err p) \<or> mid = [] | _ \<Rightarrow> True"
    by (auto simp: fifo_inv_def)
  with new frame show ?thesis
    unfolding fifo_inv_def by (intro exI [of _ mid]) (auto split: writer_loc.splits)
qed

section \<open>The sink\<close>

definition sink_inv :: "('b \<Rightarrow> 'w \<Rightarrow> (status \<times> 'w) option) \<Rightarrow> 'w \<Rightarrow> ('s, 'l, 'b, 'w) pipeline \<Rightarrow> bool" where
  "sink_inv process w0 p \<longleftrightarrow>
     all_processed process (pl_written p) w0 \<and>
     (case pl_writer p of
        W_failed st \<Rightarrow> True
      | W_abort \<Rightarrow> True
      | W_done \<Rightarrow> er_failed (pl_err p) \<or> pl_sink p = sink_after process (pl_written p) w0
      | _ \<Rightarrow> pl_sink p = sink_after process (pl_written p) w0)"

lemma sink_main: "sink_inv process w0 p \<Longrightarrow> main_step p = Some p' \<Longrightarrow> sink_inv process w0 p'"
  by (cases "pl_writer p") (auto simp: sink_inv_def main_step_cases)

lemma sink_writer:
  assumes "sink_inv process w0 p" "writer_inv p" "RunKvWriteLoop_step process hs p = Some p'"
  shows "sink_inv process w0 p'"
proof (cases "pl_writer p")
  case W_pop
  with assms show ?thesis
    by (cases "bq_items (pl_queue p)") (auto simp: sink_inv_def writer_step_cases)
next
  case (W_write b)
  with assms show ?thesis
    by (auto simp: sink_inv_def writer_step_cases all_processed_snoc sink_after_snoc)
qed (use assms in \<open>auto simp: sink_inv_def writer_step_cases writer_inv_def\<close>)

lemma sink_producer:
  assumes "sink_inv process w0 p" "producer_step next i p = Some p'"
  shows "sink_inv process w0 p'"
  using assms(2)
proof (cases rule: producer_stepE)
  case (1 l s' l' e)
  note frame = perform_frame [OF 1(4), simplified]
  with assms(1) show ?thesis by (auto simp: sink_inv_def split: writer_loc.splits)
qed

section \<open>Conservation of work\<close>

lemma balance:
  fixes hands :: "'b multiset"
  assumes "hands' + t = hands + y" and "src' + y + x = src + t"
  shows "pushed + x + hands' + src' = pushed + hands + src"
proof -
  have "(hands' + t) + (src' + y + x) = (hands + y) + (src + t)" by (simp only: assms)
  then have "(hands' + src' + x) + (t + y) = (hands + src) + (t + y)" by (simp only: ac_simps)
  then have eq: "hands' + src' + x = hands + src" by simp
  have "pushed + x + hands' + src' = pushed + (hands' + src' + x)" by (simp only: ac_simps)
  also have "\<dots> = pushed + hands + src" unfolding eq by (simp only: add.assoc)
  finally show ?thesis .
qed

context produce_source
begin

definition hand :: "'l option \<Rightarrow> 'b option multiset" where
  "hand l = (case l of None \<Rightarrow> {#} | Some l \<Rightarrow> todo_loc l)"

text \<open>What there is to do: pushed already, in a thread's hands, or unclaimed.\<close>

definition work :: "('s, 'l, 'b, 'w) pipeline \<Rightarrow> 'b option multiset" where
  "work p = image_mset Some (mset (pl_pushed p)) + sum_list (map hand (pl_producers p)) + todo_src (pl_source p)"

definition agree_all :: "('s, 'l, 'b, 'w) pipeline \<Rightarrow> bool" where
  "agree_all p \<longleftrightarrow> (\<forall>l. Some l \<in> set (pl_producers p) \<longrightarrow> agrees (pl_source p) l)"

definition work_inv :: "'b option multiset \<Rightarrow> ('s, 'l, 'b, 'w) pipeline \<Rightarrow> bool" where
  "work_inv whole p \<longleftrightarrow> pl_producers p \<noteq> [] \<and> agree_all p \<and>
     (\<not> er_failed (pl_err p) \<longrightarrow>
        work p = whole \<and> (None \<in> set (pl_producers p) \<longrightarrow> todo_src (pl_source p) = {#}))"

lemma work_main: "work_inv whole p \<Longrightarrow> main_step p = Some p' \<Longrightarrow> work_inv whole p'"
  by (auto simp: work_inv_def work_def agree_all_def main_step_cases)

lemma work_writer: "work_inv whole p \<Longrightarrow> RunKvWriteLoop_step process hs p = Some p' \<Longrightarrow> work_inv whole p'"
proof -
  assume "RunKvWriteLoop_step process hs p = Some p'"
  then have "pl_producers p' = pl_producers p \<and> pl_source p' = pl_source p \<and> pl_pushed p' = pl_pushed p \<and>
      (er_failed (pl_err p) \<longrightarrow> er_failed (pl_err p'))"
    by (auto simp: writer_step_cases split: writer_loc.splits list.splits if_splits)
  then show "work_inv whole p \<Longrightarrow> work_inv whole p'"
    unfolding work_inv_def work_def agree_all_def by auto
qed

lemma work_producer:
  assumes "work_inv whole p" "flags_inv doomed p" "producer_step advance i p = Some p'"
  shows "work_inv whole p'"
  using assms(3)
proof (cases rule: producer_stepE)
  case (1 l s' l' e)
  note frame = perform_frame [OF 1(4), simplified]
  have mem: "Some l \<in> set (pl_producers p)" using 1(1,2) nth_mem [OF 1(1)] by simp
  with assms(1) have ag: "agrees (pl_source p) l" by (simp add: work_inv_def agree_all_def)
  have "agree_all p'"
    using assms(1) agrees_step [OF 1(3) ag] agrees_stable [OF 1(3)]
      set_update_subset_insert [of "pl_producers p" i "if e = E_exit then None else Some l'"]
    by (auto simp: work_inv_def agree_all_def frame split: if_splits)
  then have ne: "pl_producers p' \<noteq> [] \<and> agree_all p'" using assms(1) frame by (simp add: work_inv_def)
  show ?thesis
  proof (cases "er_failed (pl_err p')")
    case True
    with ne show ?thesis by (simp add: work_inv_def)
  next
    case False
    with frame(10) have nf: "\<not> er_failed (pl_err p)" and st: "\<And>st. e = E_set st \<Longrightarrow> st = Status_OK"
      by (auto simp: st_ok_def)
    from mem assms(2) nf have nd: "\<not> doomed l" and na: "\<not> bq_aborted (pl_queue p)"
      by (auto simp: flags_inv_def inv_defs)
    from assms(1) nf have w: "work p = whole" "None \<in> set (pl_producers p) \<Longrightarrow> todo_src (pl_source p) = {#}"
      by (auto simp: work_inv_def)
    note adv = 1(3) [simplified nf]
    let ?y = "if e = E_exit then None else Some l'"
    have upd: "sum_list (map hand ((pl_producers p)[i := ?y])) + todo_loc l
        = sum_list (map hand (pl_producers p)) + hand ?y"
      using sum_list_update_mset [OF 1(1), of hand ?y] 1(2) by (simp add: hand_def)
    have "work p' = work p"
    proof (cases e)
      case E_tau
      with conserve [OF adv nd] balance [OF upd, of "todo_src s'" "{#}" "todo_src (pl_source p)" "image_mset Some (mset (pl_pushed p))"] 1(4)
      show ?thesis by (simp add: work_def perform_cases hand_def)
    next
      case (E_set st)
      with conserve [OF adv nd] balance [OF upd, of "todo_src s'" "{#}" "todo_src (pl_source p)" "image_mset Some (mset (pl_pushed p))"]
        1(4) st [OF E_set]
      show ?thesis by (simp add: work_def perform_cases hand_def)
    next
      case E_abort
      with abort_doomed adv nd show ?thesis by blast
    next
      case (E_push b)
      with conserve_push adv nd balance [OF upd, of "todo_src s'" "{#Some b#}" "todo_src (pl_source p)" "image_mset Some (mset (pl_pushed p))"]
        1(4) na
      show ?thesis by (simp add: work_def perform_cases hand_def)
    next
      case E_exit
      with conserve_exit adv nd ag upd 1(4) show ?thesis
        by (simp add: work_def perform_cases hand_def)
    qed
    then have "work p' = whole" using w by simp
    moreover have "todo_src (pl_source p') = {#}" if "None \<in> set (pl_producers p')"
    proof (cases "e = E_exit")
      case True
      with conserve_exit adv nd ag frame show ?thesis by auto
    next
      case False
      with that frame set_update_subset_insert [of "pl_producers p" i "Some l'"]
      have "None \<in> set (pl_producers p)" by auto
      with w(2) unclaimed_shrinks [OF adv] frame show ?thesis by simp
    qed
    ultimately show ?thesis using ne by (simp add: work_inv_def)
  qed
qed

end

section \<open>Runs\<close>

text \<open>
  One import: a source that keeps the contract, started at a location with no work in hand, and
  a writer whose \<open>process\<close> always returns.
\<close>

locale import_run = produce_source advance todo_src todo_loc doomed agrees weight_src weight_loc
  for advance :: "bool \<Rightarrow> 's \<Rightarrow> 'l \<Rightarrow> 's \<times> 'l \<times> 'b effect"
    and todo_src :: "'s \<Rightarrow> 'b option multiset"
    and todo_loc :: "'l \<Rightarrow> 'b option multiset"
    and doomed :: "'l \<Rightarrow> bool"
    and agrees :: "'s \<Rightarrow> 'l \<Rightarrow> bool"
    and weight_src :: "'s \<Rightarrow> nat"
    and weight_loc :: "'l \<Rightarrow> nat" +
  fixes process :: "'b \<Rightarrow> 'w \<Rightarrow> (status \<times> 'w) option"
    and have_schema :: bool
    and entry :: 'l
  assumes entry_idle: "todo_loc entry = {#}" "\<not> doomed entry" "agrees src entry"
    and process_returns: "process b w \<noteq> None"
begin

abbreviation run_step :: "('s, 'l, 'b, 'w) pipeline \<Rightarrow> ('s, 'l, 'b, 'w) pipeline \<Rightarrow> bool" where
  "run_step \<equiv> pipeline_step advance process have_schema"

definition run_inv :: "'s \<Rightarrow> 'w \<Rightarrow> ('s, 'l, 'b, 'w) pipeline \<Rightarrow> bool" where
  "run_inv src w0 p \<longleftrightarrow> flags_inv doomed p \<and> fifo_inv p \<and> sink_inv process w0 p \<and> work_inv (todo_src src) p"

lemma run_inv_init: "run_inv src w0 (pipeline_init capacity workers src entry w0)"
proof -
  have "sum_list (replicate n {#}) = ({#} :: 'b option multiset)" for n by (induction n) simp_all
  then show ?thesis
    using entry_idle
    by (simp add: run_inv_def flags_inv_def inv_defs fifo_inv_def sink_inv_def sink_after_def work_inv_def work_def agree_all_def
        pipeline_init_def BatchQueue_init_def ErrorState_init_def IoPublisher_threads_def hand_def map_replicate_const)
qed

lemma run_inv_step: "run_inv src w0 p \<Longrightarrow> run_step p p' \<Longrightarrow> run_inv src w0 p'"
  unfolding run_inv_def
  by (erule pipeline_stepE)
    (blast intro: flags_producer fifo_producer sink_producer work_producer flags_main fifo_main sink_main work_main
      flags_writer fifo_writer sink_writer work_writer dest: flags_inv_def [THEN iffD1])+

lemma run_inv_reach:
  "run_step\<^sup>*\<^sup>* (pipeline_init capacity workers src entry w0) p \<Longrightarrow> run_inv src w0 p"
  by (induction rule: rtranclp_induct) (blast intro: run_inv_init run_inv_step)+

lemma returned_hands: "list_all (\<lambda>l. l = None) ls \<Longrightarrow> sum_list (map hand ls) = {#}"
  by (induction ls) (simp_all add: hand_def)

text \<open>At the end.\<close>

lemma run_finished:
  assumes "run_step\<^sup>*\<^sup>* (pipeline_init capacity workers src entry w0) p" "pl_main p = M_done True"
  shows "image_mset Some (mset (pl_written p)) = todo_src src" and "pl_sink p = sink_after process (pl_written p) w0"
    and "all_processed process (pl_written p) w0"
proof -
  note inv = run_inv_reach [OF assms(1), unfolded run_inv_def flags_inv_def]
  from inv assms(2) have fin: "pl_writer p = W_done" "\<not> er_failed (pl_err p)" "returned_all p"
    by (auto simp: main_inv_def)
  with inv have empty: "bq_items (pl_queue p) = []" by (auto simp: writer_inv_def queue_inv_def)
  with inv fin have written: "pl_pushed p = pl_written p" by (auto simp: fifo_inv_def)
  have hands: "sum_list (map hand (pl_producers p)) = {#}"
    using fin(3) returned_hands by (simp add: returned_all_def)
  show "pl_sink p = sink_after process (pl_written p) w0" and "all_processed process (pl_written p) w0"
    using inv fin by (simp_all add: sink_inv_def)
  have "None \<in> set (pl_producers p)"
    using inv fin(3) by (cases "pl_producers p") (auto simp: work_inv_def returned_all_def)
  with inv fin written hands show "image_mset Some (mset (pl_written p)) = todo_src src"
    by (auto simp: work_inv_def work_def)
qed

text \<open>Without an error to report and a batch that is refused, no run fails.\<close>

definition calm :: "('s, 'l, 'b, 'w) pipeline \<Rightarrow> bool" where
  "calm p \<longleftrightarrow> \<not> er_failed (pl_err p) \<and> (case pl_writer p of W_failed st \<Rightarrow> False | W_abort \<Rightarrow> False | _ \<Rightarrow> True)"

lemma hand_member:
  assumes "i < length ls" "ls ! i = Some l"
  shows "todo_loc l \<subseteq># sum_list (map hand ls)"
proof -
  have "sum_list (map hand (ls[i := None])) + hand (Some l) = sum_list (map hand ls)"
    using sum_list_update_mset [OF assms(1), of hand None] assms(2) by (simp add: hand_def)
  then show ?thesis by (simp add: hand_def) (metis mset_subset_eq_add_right)
qed

lemma calm_producer:
  assumes inv: "run_inv src w0 p" and faultless: "None \<notin># todo_src src" and calm: "calm p"
    and step: "producer_step advance i p = Some p'"
  shows "calm p'"
  using step
proof (cases rule: producer_stepE)
  case (1 l s' l' e)
  note frame = perform_frame [OF 1(4), simplified]
  from calm have nf: "\<not> er_failed (pl_err p)" by (simp add: calm_def)
  have mem: "Some l \<in> set (pl_producers p)" using 1(1,2) nth_mem [OF 1(1)] by simp
  with inv nf have nd: "\<not> doomed l" and "work p = todo_src src"
    by (auto simp: run_inv_def flags_inv_def doomed_inv_def work_inv_def)
  with faultless have "None \<notin># sum_list (map hand (pl_producers p))"
    by (metis work_def union_iff)
  with hand_member [OF 1(1,2)] have "None \<notin># todo_loc l" by (auto dest: mset_subset_eqD)
  with fault_origin [of "pl_source p" l s' l'] 1(3) nf nd have "\<not> er_failed (pl_err p')"
    by (auto simp: frame(10))
  with calm frame(3) show ?thesis by (simp add: calm_def)
qed

lemma calm_writer:
  assumes inv: "run_inv src w0 p" and sound: "have_schema"
      "\<And>b w st w'. Some b \<in># todo_src src \<Longrightarrow> process b w = Some (st, w') \<Longrightarrow> st_ok st"
    and calm: "calm p" and step: "RunKvWriteLoop_step process have_schema p = Some p'"
  shows "calm p'"
proof (cases "pl_writer p")
  case (W_write b)
  from inv calm have work: "work p = todo_src src" by (auto simp: run_inv_def work_inv_def calm_def)
  from inv W_write have "b \<in> set (pl_pushed p)" by (auto simp: run_inv_def fifo_inv_def)
  then have "Some b \<in># work p" by (simp add: work_def)
  with sound(2) work W_write calm step show ?thesis by (auto simp: writer_step_cases calm_def)
next
  case W_pop
  with calm step show ?thesis
    by (cases "bq_items (pl_queue p)") (auto simp: writer_step_cases calm_def)
qed (use calm step sound(1) in \<open>auto simp: writer_step_cases calm_def\<close>)

lemma calm_main: "calm p \<Longrightarrow> main_step p = Some p' \<Longrightarrow> calm p'"
  by (auto simp: main_step_cases calm_def)

lemma run_succeeds:
  assumes "run_step\<^sup>*\<^sup>* (pipeline_init capacity workers src entry w0) p"
    and "None \<notin># todo_src src" "have_schema"
    and "\<And>b w st w'. Some b \<in># todo_src src \<Longrightarrow> process b w = Some (st, w') \<Longrightarrow> st_ok st"
    and "pl_main p = M_done ok"
  shows "ok"
proof -
  from assms(1) have "run_inv src w0 p \<and> calm p"
  proof (induction rule: rtranclp_induct)
    case base
    show ?case using run_inv_init by (simp add: calm_def pipeline_init_def ErrorState_init_def)
  next
    case (step q r)
    from step.hyps(2) have "calm r"
      by (rule pipeline_stepE)
        (use step.IH assms(2-4) in \<open>blast intro: calm_main calm_producer calm_writer\<close>)+
    with step run_inv_step show ?case by blast
  qed
  with assms(5) show ?thesis by (simp add: run_inv_def flags_inv_def main_inv_def calm_def)
qed

text \<open>No deadlock: as long as the import has not ended, some thread can go on.\<close>

lemma run_progress:
  assumes "run_inv src w0 p" "\<forall>ok. pl_main p \<noteq> M_done ok"
  shows "\<exists>p'. run_step p p'"
proof -
  from assms(1) have inv: "queue_inv p" "writer_inv p" "main_inv p" by (simp_all add: run_inv_def flags_inv_def)
  consider "returned_all p" | "\<not> returned_all p" by blast
  then show ?thesis
  proof cases
    case 1
    show ?thesis
    proof (cases "pl_main p = M_wait \<and> pl_writer p \<noteq> W_done")
      case True
      then have "bq_eos (pl_queue p)" using inv(3) by (simp add: main_inv_def)
      with True have "\<exists>p'. RunKvWriteLoop_step process have_schema p = Some p'"
        using process_returns
        by (cases "pl_writer p")
          (auto simp: RunKvWriteLoop_step_def Pop_def split: list.split option.split prod.split)
      then show ?thesis by (blast intro: step_writer)
    next
      case False
      with 1 assms(2) have "\<exists>p'. main_step p = Some p'"
        by (cases "pl_main p") (auto simp: main_step_def returned_all_def)
      then show ?thesis by (blast intro: step_main)
    qed
  next
    case 2
    then obtain i l where i: "i < length (pl_producers p)" "pl_producers p ! i = Some l"
      by (auto simp: returned_all_def list_all_length)
    show ?thesis
    proof (cases "producer_step advance i p")
      case (Some p')
      then show ?thesis by (blast intro: step_producer)
    next
      case None
      with i have full: "\<not> length (bq_items (pl_queue p)) < bq_cap (pl_queue p)" "\<not> bq_aborted (pl_queue p)"
        by (auto simp: producer_step_def perform_def Push_def split: prod.splits effect.splits if_splits)
      with inv(1) have ne: "bq_items (pl_queue p) \<noteq> []" by (auto simp: queue_inv_def)
      show ?thesis
      proof (cases "pl_writer p = W_done")
        case True
        with inv ne full(2) show ?thesis by (simp add: writer_inv_def)
      next
        case False
        with ne have "\<exists>p'. RunKvWriteLoop_step process have_schema p = Some p'"
          using process_returns
          by (cases "pl_writer p")
            (auto simp: RunKvWriteLoop_step_def Pop_def split: list.split option.split prod.split)
        then show ?thesis by (blast intro: step_writer)
      qed
    qed
  qed
qed

text \<open>Every step uses up a finite weight.\<close>

definition hand_weight :: "'l option \<Rightarrow> nat" where
  "hand_weight l = (case l of None \<Rightarrow> 0 | Some l \<Rightarrow> Suc (weight_loc l))"

definition writer_weight :: "'b writer_loc \<Rightarrow> nat" where
  "writer_weight w =
     (case w of W_start \<Rightarrow> 4 | W_pop \<Rightarrow> 3 | W_write b \<Rightarrow> 4 | W_failed st \<Rightarrow> 2 | W_abort \<Rightarrow> 1 | W_done \<Rightarrow> 0)"

definition main_weight :: "main_loc \<Rightarrow> nat" where
  "main_weight m = (case m of M_join \<Rightarrow> 3 | M_close b \<Rightarrow> 2 | M_wait \<Rightarrow> 1 | M_done ok \<Rightarrow> 0)"

definition run_weight :: "('s, 'l, 'b, 'w) pipeline \<Rightarrow> nat" where
  "run_weight p =
     4 * (weight_src (pl_source p) + sum_list (map hand_weight (pl_producers p))) +
     3 * length (bq_items (pl_queue p)) + writer_weight (pl_writer p) + main_weight (pl_main p)"

lemma weight_main: "main_step p = Some p' \<Longrightarrow> run_weight p' < run_weight p"
  by (auto simp: main_step_cases run_weight_def main_weight_def)

lemma weight_writer: "RunKvWriteLoop_step process hs p = Some p' \<Longrightarrow> run_weight p' < run_weight p"
  by (cases "pl_writer p"; cases "bq_items (pl_queue p)")
    (auto simp: writer_step_cases run_weight_def writer_weight_def split: if_splits)

lemma weight_producer:
  assumes "producer_step advance i p = Some p'"
  shows "run_weight p' < run_weight p"
  using assms
proof (cases rule: producer_stepE)
  case (1 l s' l' e)
  note frame = perform_frame [OF 1(4), simplified]
  let ?y = "if e = E_exit then None else Some l'"
  have upd: "sum_list (map hand_weight ((pl_producers p)[i := ?y])) + Suc (weight_loc l)
      = sum_list (map hand_weight (pl_producers p)) + hand_weight ?y"
    using sum_list_update_nat [OF 1(1), of hand_weight ?y] 1(2) by (simp add: hand_weight_def)
  have items: "length (bq_items (pl_queue p')) \<le> Suc (length (bq_items (pl_queue p)))"
    using 1(4) by (cases e) (auto simp: perform_cases)
  have less: "weight_src s' + hand_weight ?y < weight_src (pl_source p) + Suc (weight_loc l)"
    using weight_step [OF 1(3)] weight_exit [of _ _ _ s' l'] 1(3)
    by (cases "e = E_exit") (fastforce simp: hand_weight_def less_Suc_eq_le intro: trans_le_add1)+
  have "weight_src s' + sum_list (map hand_weight ((pl_producers p)[i := ?y])) <
      weight_src (pl_source p) + sum_list (map hand_weight (pl_producers p))"
    using upd less by linarith
  with items frame show ?thesis by (simp add: run_weight_def)
qed

lemma run_weight_step: "run_step p p' \<Longrightarrow> run_weight p' < run_weight p"
  by (erule pipeline_stepE) (blast intro: weight_producer weight_main weight_writer)+

lemma run_bounded: "(run_step ^^ n) p p' \<Longrightarrow> n + run_weight p' \<le> run_weight p"
  by (induction n arbitrary: p') (fastforce dest: run_weight_step)+

text \<open>An import always ends: no run is longer than the weight of its start, and none stops early.\<close>

lemma run_init_weight:
  "run_weight (pipeline_init capacity workers src entry w0) =
     4 * (weight_src src + Suc (weight_loc entry) * max 1 workers) + 7"
  by (auto simp: run_weight_def pipeline_init_def BatchQueue_init_def IoPublisher_threads_def hand_weight_def
      writer_weight_def main_weight_def map_replicate_const sum_list_replicate max_def)

lemma run_ends:
  assumes "(run_step ^^ n) (pipeline_init capacity workers src entry w0) p"
  shows "n \<le> 4 * (weight_src src + Suc (weight_loc entry) * max 1 workers) + 7"
    and "(\<exists>ok. pl_main p = M_done ok) \<or> (\<exists>p'. run_step p p')"
proof -
  show "n \<le> 4 * (weight_src src + Suc (weight_loc entry) * max 1 workers) + 7"
    using run_bounded [OF assms] by (simp add: run_init_weight)
  show "(\<exists>ok. pl_main p = M_done ok) \<or> (\<exists>p'. run_step p p')"
    using run_progress [OF run_inv_reach [OF relpowp_imp_rtranclp [OF assms]]] by blast
qed

lemma run_completes:
  "\<exists>p ok. run_step\<^sup>*\<^sup>* (pipeline_init capacity workers src entry w0) p \<and> pl_main p = M_done ok"
proof -
  have "run_inv src w0 q \<Longrightarrow> \<exists>p ok. run_step\<^sup>*\<^sup>* q p \<and> pl_main p = M_done ok" for q
  proof (induction "run_weight q" arbitrary: q rule: less_induct)
    case less
    show ?case
    proof (cases "\<exists>ok. pl_main q = M_done ok")
      case False
      with run_progress [OF less.prems] obtain r where r: "run_step q r" by blast
      from less.hyps [OF run_weight_step [OF r] run_inv_step [OF less.prems r]] r show ?thesis
        by (meson converse_rtranclp_into_rtranclp)
    qed blast
  qed
  from this [OF run_inv_init] show ?thesis .
qed

end

end
