(* ===== verification/FileSource.thy ===== *)
theory FileSource
  imports CloudUri WriteWorker PipelineSafety
begin

text \<open>
  \<open>indexer/source/file/file_source.cc\<close>: the source that reads local files and cloud objects,
  Parquet and CSV, with several threads that claim files. Arrow's readers are parameters: what
  opening a path gives, and of a batch reader the batches it delivers and the status it ends with.
  The files do not change during an import.
\<close>

section \<open>Names of files\<close>

definition EndsWithIgnoreCase :: "string \<Rightarrow> string \<Rightarrow> bool" where
  "EndsWithIgnoreCase ext_with_dot p \<longleftrightarrow> map tolower (path_extension p) = ext_with_dot"

definition EndsWithIgnoreCaseStr :: "string \<Rightarrow> string \<Rightarrow> bool" where
  "EndsWithIgnoreCaseStr s suf =
     (if length s < length suf then False
      else list_all (\<lambda>i. tolower (s ! (length s - length suf + i)) = suf ! i) [0..<length suf])"

section \<open>Readers\<close>

text \<open>\<open>arrow::csv::ConvertOptions\<close>: the two members the code sets.\<close>

record convert_options =
  co_include_columns :: "string list"
  co_column_types :: "string \<Rightarrow> arrow_type option"

fun csv_columns :: "field_def list \<Rightarrow> convert_options \<Rightarrow> status \<times> convert_options" where
  "csv_columns [] out = (Status_OK, out)"
| "csv_columns (def # defs) out =
     (if fd_array def then (Invalid (''CSV import does not support array fields ('' @ fd_name def @ '')''), out)
      else
        let t = (case fd_type def of
                   DT_Bool \<Rightarrow> AT_BOOL
                 | DT_Int32 \<Rightarrow> AT_INT32
                 | DT_Int64 \<Rightarrow> AT_INT64
                 | DT_Float32 \<Rightarrow> AT_FLOAT
                 | DT_Float64 \<Rightarrow> AT_DOUBLE
                 | DT_String \<Rightarrow> AT_STRING
                 | DT_Bytes \<Rightarrow> AT_STRING)
        in csv_columns defs \<lparr>co_include_columns = co_include_columns out @ [fd_name def],
             co_column_types = (co_column_types out)(fd_name def \<mapsto> t)\<rparr>)"

definition BuildCsvConvertOptions :: "schema \<Rightarrow> status \<times> convert_options" where
  "BuildCsvConvertOptions S =
     csv_columns (sc_fields S) \<lparr>co_include_columns = [], co_column_types = Map.empty\<rparr>"

definition ValidateBatchColumns :: "('a, 'b) arrow \<Rightarrow> 'b \<Rightarrow> schema \<Rightarrow> status" where
  "ValidateBatchColumns A batch S =
     (case find (\<lambda>def. column_by_name A batch (fd_name def) = None) (sc_fields S) of
        None \<Rightarrow> Status_OK
      | Some def \<Rightarrow> Invalid (''parquet missing column: '' @ fd_name def))"

text \<open>
  What \<open>Next\<close> of a record batch reader returns: its batches in order, then the null batch
  (\<open>Status_OK\<close>) or an error.
\<close>

record 'b reader =
  rd_batches :: "'b list"
  rd_end :: status

record ('b, 'f, 'h, 'p) file_env =
  fe_open :: "string \<Rightarrow> status + 'h"
  fe_open_file :: "'f \<Rightarrow> string \<Rightarrow> status + 'h"
  fe_open_stream :: "'f \<Rightarrow> string \<Rightarrow> status + 'h"
  fe_parquet :: "'h \<Rightarrow> status + 'p"
  fe_batch_reader :: "'p \<Rightarrow> status + 'b reader"
  fe_csv :: "'h \<Rightarrow> convert_options \<Rightarrow> status + 'b reader"

text \<open>An \<open>arrow::Result\<close> without a value holds an error: its constructor refuses an OK status.\<close>

definition failure_of :: "status \<Rightarrow> status" where
  "failure_of st = (if st_ok st then Arrow_error [] else st)"

definition parquet_reader :: "('b, 'f, 'h, 'p) file_env \<Rightarrow> 'h \<Rightarrow> status + 'b reader" where
  "parquet_reader env infile =
     (case fe_parquet env infile of
        Inl st \<Rightarrow> Inl (failure_of st)
      | Inr reader \<Rightarrow>
          (case fe_batch_reader env reader of Inl st \<Rightarrow> Inl (failure_of st) | Inr rb_reader \<Rightarrow> Inr rb_reader))"

definition csv_reader :: "('b, 'f, 'h, 'p) file_env \<Rightarrow> schema \<Rightarrow> 'h \<Rightarrow> status + 'b reader" where
  "csv_reader env S input =
     (case BuildCsvConvertOptions S of
        (st, convert_options) \<Rightarrow>
          if \<not> st_ok st then Inl st
          else case fe_csv env input convert_options of Inl st \<Rightarrow> Inl (failure_of st) | Inr reader \<Rightarrow> Inr reader)"

text \<open>
  How opening a path ends: an error that \<open>ProduceLoop\<close> reports, one that the reading function
  reports and returns, or a reader.
\<close>

datatype 'b opened = Open_failed status | Reader_failed status | Opened "'b reader"

definition opened_of :: "status + 'b reader \<Rightarrow> 'b opened" where
  "opened_of r = (case r of Inl st \<Rightarrow> Reader_failed st | Inr rd \<Rightarrow> Opened rd)"

definition open_cloud ::
  "('b, 'f, 'h, 'p) file_env \<Rightarrow> 'f cloud_file_systems \<Rightarrow> schema \<Rightarrow> string \<Rightarrow> 'b opened" where
  "open_cloud env cloud S path =
     (case ParseCloudUri path of
        None \<Rightarrow> Open_failed (Invalid (''FileSource: invalid cloud URI: '' @ path))
      | Some (scheme, bucket, key) \<Rightarrow>
          (case FsForScheme cloud scheme of
             None \<Rightarrow> Open_failed (Invalid (''FileSource: no FileSystem for scheme '' @ scheme @ '' (URI: '' @ path @ '')''))
           | Some f \<Rightarrow>
               let fs_path = bucket @ ''/'' @ key in
               if EndsWithIgnoreCaseStr path ''.parquet'' then
                 (case fe_open_file env f fs_path of
                    Inl st \<Rightarrow> Open_failed (failure_of st)
                  | Inr infile \<Rightarrow> opened_of (parquet_reader env infile))
               else if EndsWithIgnoreCaseStr path ''.csv'' then
                 (case fe_open_stream env f fs_path of
                    Inl st \<Rightarrow> Open_failed (failure_of st)
                  | Inr stream \<Rightarrow> opened_of (csv_reader env S stream))
               else Open_failed (Invalid (''FileSource: remote object must be .parquet or .csv: '' @ path))))"

definition ReadParquetFileBatches :: "('b, 'f, 'h, 'p) file_env \<Rightarrow> string \<Rightarrow> 'b opened" where
  "ReadParquetFileBatches env path =
     (case fe_open env path of
        Inl st \<Rightarrow> Reader_failed (failure_of st)
      | Inr infile \<Rightarrow> opened_of (parquet_reader env infile))"

definition ReadCsvFileBatches :: "('b, 'f, 'h, 'p) file_env \<Rightarrow> schema \<Rightarrow> string \<Rightarrow> 'b opened" where
  "ReadCsvFileBatches env S path =
     (case fe_open env path of
        Inl st \<Rightarrow> Reader_failed (failure_of st)
      | Inr infile \<Rightarrow> opened_of (csv_reader env S infile))"

definition open_local :: "('b, 'f, 'h, 'p) file_env \<Rightarrow> schema \<Rightarrow> string \<Rightarrow> 'b opened" where
  "open_local env S path =
     (if EndsWithIgnoreCase ''.parquet'' path then ReadParquetFileBatches env path
      else if EndsWithIgnoreCase ''.csv'' path then ReadCsvFileBatches env S path
      else Open_failed (Invalid (''FileSource: unsupported file extension: '' @ path)))"

definition open_input ::
  "('b, 'f, 'h, 'p) file_env \<Rightarrow> 'f cloud_file_systems \<Rightarrow> schema \<Rightarrow> string \<Rightarrow> 'b opened" where
  "open_input env cloud S path = (if IsCloudUri path then open_cloud env cloud S path else open_local env S path)"

section \<open>The threads\<close>

text \<open>
  Where a thread of \<open>ProduceLoop\<close> stands. \<open>F_error\<close>, \<open>F_abort\<close>, \<open>F_return\<close>: it reports its own
  error; \<open>F_read\<close> to \<open>F_read_abort\<close>: it is inside a reading function, at the head of its loop,
  before and after the validation of a batch, before its push, or reporting an error; \<open>F_result\<close>:
  the function has returned; \<open>F_check\<close>: before the test of the flag that follows.
\<close>

datatype 'b file_loc = F_entry | F_no_schema | F_head | F_claim | F_error status | F_abort | F_return
  | F_read string nat "'b reader" | F_validate string nat 'b "'b reader"
  | F_validated string nat 'b "'b reader" | F_push string nat 'b "'b reader"
  | F_read_error status | F_read_abort status | F_result status | F_check

definition claimed ::
  "('b, 'f, 'h, 'p) file_env \<Rightarrow> 'f cloud_file_systems \<Rightarrow> schema \<Rightarrow> string list \<Rightarrow> nat \<Rightarrow> 'b file_loc" where
  "claimed env cloud S paths fi =
     (case open_input env cloud S (paths ! fi) of
        Open_failed st \<Rightarrow> F_error st
      | Reader_failed st \<Rightarrow> F_read_error st
      | Opened rd \<Rightarrow> F_read (paths ! fi) (fi + 1) rd)"

text \<open>
  One step inside a reading function: the loops for Parquet and for CSV are the same.
\<close>

fun read_step ::
  "('a, 'b) arrow \<Rightarrow> schema \<Rightarrow> bool \<Rightarrow> 'b file_loc \<Rightarrow> 'b file_loc \<times> 'b parsed_batch effect" where
  "read_step A S failed (F_read path n rd) =
     (if failed then (F_result Status_OK, E_tau)
      else case rd_batches rd of
        [] \<Rightarrow> ((if \<not> st_ok (rd_end rd) then F_read_error (rd_end rd) else F_result Status_OK), E_tau)
      | b # bs \<Rightarrow> (F_validate path n b (rd\<lparr>rd_batches := bs\<rparr>), E_tau))"
| "read_step A S failed (F_validate path n b rd) = (F_validated path n b rd, E_set (ValidateBatchColumns A b S))"
| "read_step A S failed (F_validated path n b rd) =
     ((if failed then F_read_abort (Invalid ''validation failed'') else F_push path n b rd), E_tau)"
| "read_step A S failed (F_push path n b rd) =
     (F_read path n rd, E_push \<lparr>pb_batch = b, pb_path = path, pb_file_index_1based = n\<rparr>)"
| "read_step A S failed (F_read_error st) = (F_read_abort st, E_set st)"
| "read_step A S failed (F_read_abort st) = (F_result st, E_abort)"
| "read_step A S failed l = (l, E_tau)"

text \<open>
  One step of a thread. \<open>failed\<close> is the flag as it is now, the state is \<open>next_file_\<close>; past
  \<open>F_no_schema\<close> the schema is not null (\<open>*schema_\<close>). Opening and reading touch nothing shared,
  so they belong to the step that claims or reads.
\<close>

fun ProduceLoop ::
  "('a, 'b) arrow \<Rightarrow> ('b, 'f, 'h, 'p) file_env \<Rightarrow> 'f cloud_file_systems \<Rightarrow> schema option \<Rightarrow> string list \<Rightarrow>
   bool \<Rightarrow> nat \<Rightarrow> 'b file_loc \<Rightarrow> nat \<times> 'b file_loc \<times> 'b parsed_batch effect" where
  "ProduceLoop A env cloud schema paths failed fi F_entry =
     (fi, (if schema = None then F_no_schema else F_head), E_tau)"
| "ProduceLoop A env cloud schema paths failed fi F_no_schema =
     (fi, F_abort, E_set (Invalid ''FileSource: null schema''))"
| "ProduceLoop A env cloud schema paths failed fi F_head =
     (if failed then (fi, F_head, E_exit) else (fi, F_claim, E_tau))"
| "ProduceLoop A env cloud schema paths failed fi F_claim =
     (if fi \<ge> length paths then (fi + 1, F_claim, E_exit)
      else (fi + 1, claimed env cloud (the schema) paths fi, E_tau))"
| "ProduceLoop A env cloud schema paths failed fi (F_error st) = (fi, F_abort, E_set st)"
| "ProduceLoop A env cloud schema paths failed fi F_abort = (fi, F_return, E_abort)"
| "ProduceLoop A env cloud schema paths failed fi F_return = (fi, F_return, E_exit)"
| "ProduceLoop A env cloud schema paths failed fi (F_result st) = (fi, F_check, E_set st)"
| "ProduceLoop A env cloud schema paths failed fi F_check =
     (if failed then (fi, F_check, E_exit) else (fi, F_head, E_tau))"
| "ProduceLoop A env cloud schema paths failed fi l = (fi, read_step A (the schema) failed l)"

section \<open>The contract\<close>

definition batch_todo :: "('a, 'b) arrow \<Rightarrow> schema \<Rightarrow> string \<Rightarrow> nat \<Rightarrow> 'b \<Rightarrow> 'b parsed_batch option" where
  "batch_todo A S path n b =
     (if st_ok (ValidateBatchColumns A b S) then Some \<lparr>pb_batch = b, pb_path = path, pb_file_index_1based = n\<rparr>
      else None)"

definition reader_todo ::
  "('a, 'b) arrow \<Rightarrow> schema \<Rightarrow> string \<Rightarrow> nat \<Rightarrow> 'b reader \<Rightarrow> 'b parsed_batch option multiset" where
  "reader_todo A S path n rd =
     mset (map (batch_todo A S path n) (rd_batches rd)) + (if st_ok (rd_end rd) then {#} else {#None#})"

text \<open>What a thread at a location still has to push or to report.\<close>

fun loc_todo :: "('a, 'b) arrow \<Rightarrow> schema option \<Rightarrow> 'b file_loc \<Rightarrow> 'b parsed_batch option multiset" where
  "loc_todo A schema F_entry = (if schema = None then {#None#} else {#})"
| "loc_todo A schema F_no_schema = {#None#}"
| "loc_todo A schema (F_error st) = {#None#}"
| "loc_todo A schema (F_read_error st) = {#None#}"
| "loc_todo A schema (F_read path n rd) = reader_todo A (the schema) path n rd"
| "loc_todo A schema (F_validate path n b rd) =
     {#batch_todo A (the schema) path n b#} + reader_todo A (the schema) path n rd"
| "loc_todo A schema (F_validated path n b rd) =
     {#Some \<lparr>pb_batch = b, pb_path = path, pb_file_index_1based = n\<rparr>#} + reader_todo A (the schema) path n rd"
| "loc_todo A schema (F_push path n b rd) =
     {#Some \<lparr>pb_batch = b, pb_path = path, pb_file_index_1based = n\<rparr>#} + reader_todo A (the schema) path n rd"
| "loc_todo A schema _ = {#}"

fun loc_doomed :: "'b file_loc \<Rightarrow> bool" where
  "loc_doomed (F_error st) = st_ok st"
| "loc_doomed (F_read_error st) = st_ok st"
| "loc_doomed F_abort = True"
| "loc_doomed F_return = True"
| "loc_doomed (F_read_abort st) = True"
| "loc_doomed (F_result st) = (\<not> st_ok st)"
| "loc_doomed _ = False"

fun loc_weight :: "'b file_loc \<Rightarrow> nat" where
  "loc_weight F_return = 0"
| "loc_weight F_abort = 1"
| "loc_weight F_no_schema = 2"
| "loc_weight (F_error st) = 2"
| "loc_weight F_claim = 3"
| "loc_weight F_head = 4"
| "loc_weight F_entry = 5"
| "loc_weight F_check = 5"
| "loc_weight (F_result st) = 6"
| "loc_weight (F_read_abort st) = 7"
| "loc_weight (F_read_error st) = 8"
| "loc_weight (F_read path n rd) = 9 + 4 * length (rd_batches rd)"
| "loc_weight (F_push path n b rd) = 10 + 4 * length (rd_batches rd)"
| "loc_weight (F_validated path n b rd) = 11 + 4 * length (rd_batches rd)"
| "loc_weight (F_validate path n b rd) = 12 + 4 * length (rd_batches rd)"

text \<open>Over the files nobody has claimed.\<close>

definition over_files :: "('b file_loc \<Rightarrow> 'c) \<Rightarrow> ('b, 'f, 'h, 'p) file_env \<Rightarrow> 'f cloud_file_systems \<Rightarrow> schema \<Rightarrow>
    string list \<Rightarrow> nat \<Rightarrow> 'c list" where
  "over_files g env cloud S paths fi = map (\<lambda>i. g (claimed env cloud S paths i)) [fi..<length paths]"

lemma over_files_step:
  "over_files g env cloud S paths fi =
     (if fi < length paths then g (claimed env cloud S paths fi) # over_files g env cloud S paths (Suc fi) else [])"
  by (simp add: over_files_def upt_conv_Cons)

lemma failure_of_bad [simp]: "\<not> st_ok (failure_of st)"
  by (simp add: failure_of_def)

lemma csv_columns_status: "csv_columns defs out = (st, out') \<Longrightarrow> st_ok st \<or> (\<exists>m. st = Invalid m)"
  by (induction defs arbitrary: out) (auto simp: Let_def split: if_splits)

lemma parquet_reader_bad: "parquet_reader env infile = Inl st \<Longrightarrow> \<not> st_ok st"
  by (auto simp: parquet_reader_def split: sum.splits)

lemma csv_reader_bad: "csv_reader env S input = Inl st \<Longrightarrow> \<not> st_ok st"
  by (auto simp: csv_reader_def split: sum.splits prod.splits if_splits)

text \<open>A path that cannot be opened is reported with an error.\<close>

definition opened_bad :: "'b opened \<Rightarrow> bool" where
  "opened_bad op \<longleftrightarrow> (case op of Open_failed st \<Rightarrow> \<not> st_ok st | Reader_failed st \<Rightarrow> \<not> st_ok st | Opened rd \<Rightarrow> True)"

lemma opened_bad_simps [simp]:
  "opened_bad (Open_failed st) \<longleftrightarrow> \<not> st_ok st" "opened_bad (Reader_failed st) \<longleftrightarrow> \<not> st_ok st"
  "opened_bad (opened_of (parquet_reader env infile))" "opened_bad (opened_of (csv_reader env S input))"
  using parquet_reader_bad [of env infile] csv_reader_bad [of env S input]
  by (auto simp: opened_bad_def opened_of_def split: sum.split)

lemma open_input_bad: "opened_bad (open_input env cloud S path)"
  by (simp add: open_input_def open_cloud_def open_local_def ReadParquetFileBatches_def ReadCsvFileBatches_def Let_def
      split: option.split sum.split prod.split)

lemma claimed_not_doomed: "\<not> loc_doomed (claimed env cloud S paths fi)"
  using open_input_bad [of env cloud S "paths ! fi"] by (auto simp: claimed_def opened_bad_def split: opened.splits)

lemma reader_todo_cons:
  "rd_batches rd = b # bs \<Longrightarrow>
   reader_todo A S path n rd = {#batch_todo A S path n b#} + reader_todo A S path n (rd\<lparr>rd_batches := bs\<rparr>)"
  by (simp add: reader_todo_def)

lemma validated_todo:
  "ValidateBatchColumns A b S = Status_OK \<Longrightarrow>
   batch_todo A S path n b = Some \<lparr>pb_batch = b, pb_path = path, pb_file_index_1based = n\<rparr>"
  by (simp add: batch_todo_def)

abbreviation files_todo ::
  "('a, 'b) arrow \<Rightarrow> ('b, 'f, 'h, 'p) file_env \<Rightarrow> 'f cloud_file_systems \<Rightarrow> schema option \<Rightarrow> string list \<Rightarrow> nat \<Rightarrow>
   'b parsed_batch option multiset" where
  "files_todo A env cloud schema paths fi \<equiv> sum_list (over_files (loc_todo A schema) env cloud (the schema) paths fi)"

abbreviation files_weight ::
  "('b, 'f, 'h, 'p) file_env \<Rightarrow> 'f cloud_file_systems \<Rightarrow> schema option \<Rightarrow> string list \<Rightarrow> nat \<Rightarrow> nat" where
  "files_weight env cloud schema paths fi \<equiv> sum_list (over_files loc_weight env cloud (the schema) paths fi)"

lemma ProduceLoop_conserves:
  assumes "ProduceLoop A env cloud schema paths False fi l = (fi', l', e)" "\<not> loc_doomed l" "e \<in> {E_tau, E_set Status_OK}"
  shows "files_todo A env cloud schema paths fi' + loc_todo A schema l' =
    files_todo A env cloud schema paths fi + loc_todo A schema l"
proof (cases l)
  case (F_read path n rd)
  with assms show ?thesis
    by (cases "rd_batches rd") (auto simp: reader_todo_cons reader_todo_def)
next
  case F_claim
  with assms show ?thesis
    by (subst (2) over_files_step) (auto split: if_splits)
qed (use assms in \<open>auto simp: validated_todo split: if_splits\<close>)

lemma ProduceLoop_weight:
  assumes "ProduceLoop A env cloud schema paths f fi l = (fi', l', e)" "e \<noteq> E_exit"
  shows "files_weight env cloud schema paths fi' + loc_weight l' < files_weight env cloud schema paths fi + loc_weight l"
  using assms over_files_step [of loc_weight env cloud "the schema" paths fi]
  by (cases l) (auto split: if_splits list.splits)

interpretation file_source: produce_source "ProduceLoop A env cloud schema paths"
    "files_todo A env cloud schema paths" "loc_todo A schema" loc_doomed "\<lambda>_ _. True"
    "files_weight env cloud schema paths" loc_weight
  for A env cloud schema paths
proof
  fix fi fi' l l' e
  show "ProduceLoop A env cloud schema paths False fi l = (fi', l', e) \<Longrightarrow> \<not> loc_doomed l \<Longrightarrow>
      e \<in> {E_tau, E_set Status_OK} \<Longrightarrow>
      files_todo A env cloud schema paths fi' + loc_todo A schema l' =
      files_todo A env cloud schema paths fi + loc_todo A schema l"
    by (rule ProduceLoop_conserves)
  show "ProduceLoop A env cloud schema paths False fi l = (fi', l', E_push b) \<Longrightarrow> \<not> loc_doomed l \<Longrightarrow>
      files_todo A env cloud schema paths fi' + loc_todo A schema l' + {#Some b#} =
      files_todo A env cloud schema paths fi + loc_todo A schema l" for b
    by (cases l) (auto split: if_splits list.splits)
  show "ProduceLoop A env cloud schema paths False fi l = (fi', l', E_exit) \<Longrightarrow> \<not> loc_doomed l \<Longrightarrow> True \<Longrightarrow>
      files_todo A env cloud schema paths fi = {#} \<and> files_todo A env cloud schema paths fi' = {#} \<and>
      loc_todo A schema l = {#}"
    by (cases l) (auto simp: over_files_def split: if_splits list.splits)
  show "ProduceLoop A env cloud schema paths False fi l = (fi', l', E_set st) \<Longrightarrow> \<not> st_ok st \<Longrightarrow>
      loc_doomed l \<or> None \<in># loc_todo A schema l" for st
    by (cases l) (auto simp: batch_todo_def split: if_splits list.splits)
  fix f
  show "ProduceLoop A env cloud schema paths f fi l = (fi', l', e) \<Longrightarrow>
      files_todo A env cloud schema paths fi = {#} \<Longrightarrow> files_todo A env cloud schema paths fi' = {#}"
    using over_files_step [of "loc_todo A schema" env cloud "the schema" paths fi]
    by (cases l) (auto simp: over_files_def split: if_splits list.splits)
  show "ProduceLoop A env cloud schema paths f fi l = (fi', l', E_abort) \<Longrightarrow> loc_doomed l"
    by (cases l) (auto split: if_splits list.splits)
  show "ProduceLoop A env cloud schema paths f fi l = (fi', l', e) \<Longrightarrow> loc_doomed l' \<Longrightarrow>
      loc_doomed l \<or> f \<or> (\<exists>st. e = E_set st \<and> \<not> st_ok st)"
    by (cases l) (auto simp: claimed_not_doomed split: if_splits list.splits)
  show "ProduceLoop A env cloud schema paths f fi l = (fi', l', e) \<Longrightarrow> e \<noteq> E_exit \<Longrightarrow>
      files_weight env cloud schema paths fi' + loc_weight l' < files_weight env cloud schema paths fi + loc_weight l"
    by (rule ProduceLoop_weight)
  show "ProduceLoop A env cloud schema paths f fi l = (fi', l', E_exit) \<Longrightarrow>
      files_weight env cloud schema paths fi' \<le> files_weight env cloud schema paths fi"
    by (cases l) (auto simp: over_files_def split: if_splits list.splits)
qed

end
