(* ===== verification/ImportFlags.thy ===== *)
theory ImportFlags
  imports Config "HOL-Library.List_Lexorder" "HOL-Library.Char_ord"
begin

text \<open>
  The command line of \<open>import_pipeline_main.cc\<close>: the flags, the files and environment variables
  they name, and the checks at the end. The arguments are those after the program's name; what is
  on disk and the environment are parameters. A refusal is the line printed for it.
\<close>

section \<open>The flags\<close>

record flags =
  fl_config_path :: string
  fl_db_path :: string
  fl_index_name :: string
  fl_schema_json_path :: string
  fl_create_if_missing :: bool
  fl_recreate :: bool
  fl_no_arena_lock :: bool
  fl_exclusive_arena_lock_from_cfg :: bool
  fl_arena_seg_gb :: u64
  fl_arena_max_gb :: u64
  fl_input_files :: "string list"
  fl_import_io_workers :: u32
  fl_import_queue_batches :: u64
  fl_mysql_host :: string
  fl_mysql_port :: u16
  fl_mysql_user :: string
  fl_mysql_password :: string
  fl_mysql_database :: string
  fl_mysql_query :: string
  fl_mysql_query_file :: string
  fl_mysql_init_sql_file :: string
  fl_mysql_batch_rows :: u64
  fl_sql_est_rows :: u64
  fl_mysql_port_from_cli :: bool
  fl_kafka_catchup :: bool
  fl_kafka_watermark_set :: bool
  fl_kafka_offline_watermark_sec :: i64
  fl_kafka_rewind_minutes :: u32
  fl_kafka_catchup_wall_sec :: i32
  fl_kafka_default_brokers :: string

definition Flags_init :: flags where
  "Flags_init = \<lparr>fl_config_path = [], fl_db_path = [], fl_index_name = [], fl_schema_json_path = [],
     fl_create_if_missing = False, fl_recreate = False, fl_no_arena_lock = False,
     fl_exclusive_arena_lock_from_cfg = True, fl_arena_seg_gb = 0, fl_arena_max_gb = 0, fl_input_files = [],
     fl_import_io_workers = 4, fl_import_queue_batches = 32, fl_mysql_host = [], fl_mysql_port = 3306,
     fl_mysql_user = [], fl_mysql_password = [], fl_mysql_database = [], fl_mysql_query = [],
     fl_mysql_query_file = [], fl_mysql_init_sql_file = [], fl_mysql_batch_rows = 4096, fl_sql_est_rows = 0,
     fl_mysql_port_from_cli = False, fl_kafka_catchup = False, fl_kafka_watermark_set = False,
     fl_kafka_offline_watermark_sec = 0, fl_kafka_rewind_minutes = 0, fl_kafka_catchup_wall_sec = 0,
     fl_kafka_default_brokers = []\<rparr>"

section \<open>Files\<close>

text \<open>
  The files and the environment. A directory is listed recursively: the error a walk throws, or
  for each entry whether it is a regular file, and its path.
\<close>

record host =
  ho_read :: "string \<Rightarrow> string option"
  ho_exists :: "string \<Rightarrow> bool"
  ho_is_directory :: "string \<Rightarrow> bool"
  ho_walk :: "string \<Rightarrow> string + (bool \<times> string) list"
  ho_getenv :: "string \<Rightarrow> string option"

definition line_end_blank :: "char \<Rightarrow> bool" where
  "line_end_blank c \<longleftrightarrow> c = char_of (13 :: nat) \<or> c = CHR '' '' \<or> c = char_of (9 :: nat)"

definition EndsWithExtensionIgnoreCase :: "string \<Rightarrow> string \<Rightarrow> bool" where
  "EndsWithExtensionIgnoreCase p ext \<longleftrightarrow> map tolower (path_extension p) = ext"

definition IsImportPipelineDataFile :: "string \<Rightarrow> bool" where
  "IsImportPipelineDataFile p \<longleftrightarrow>
     EndsWithExtensionIgnoreCase p ''.parquet'' \<or> EndsWithExtensionIgnoreCase p ''.csv''"

text \<open>\<open>fs::path\<close> is ordered by its components; below one directory, the root plays no part.\<close>

definition path_key :: "string \<Rightarrow> string list" where
  "path_key p = filter (\<lambda>c. c \<noteq> []) (split_slash [] p)"

definition CollectDataFilesUnderDir :: "host \<Rightarrow> string \<Rightarrow> string + string list" where
  "CollectDataFilesUnderDir H dir =
     (if \<not> ho_exists H dir then Inl (''path does not exist: '' @ dir)
      else if \<not> ho_is_directory H dir then Inl (''not a directory: '' @ dir)
      else case ho_walk H dir of
        Inl e \<Rightarrow> Inl e
      | Inr entries \<Rightarrow>
          let found = map snd (filter (\<lambda>(is_file, path). is_file \<and> IsImportPipelineDataFile path) entries) in
          if found = [] then Inl (''no .parquet or .csv files under '' @ dir)
          else Inr (sort_key path_key found))"

definition ReadFile :: "host \<Rightarrow> string \<Rightarrow> string + string" where
  "ReadFile H path = (case ho_read H path of None \<Rightarrow> Inl (''cannot read file: '' @ path) | Some text \<Rightarrow> Inr text)"

definition ReadInitSqlLines :: "host \<Rightarrow> string \<Rightarrow> string + string list" where
  "ReadInitSqlLines H path =
     (case ho_read H path of
        None \<Rightarrow> Inl (''cannot read --mysql_init_sql file: '' @ path)
      | Some text \<Rightarrow> Inr (filter (\<lambda>line. line \<noteq> []) (map (rtrim line_end_blank) (getlines text))))"

definition input_list_lines :: "string \<Rightarrow> string list" where
  "input_list_lines text =
     filter (\<lambda>line. line \<noteq> []) (map (rtrim line_end_blank) (filter (\<lambda>line. line \<noteq> []) (getlines text)))"

definition EnvNonEmpty :: "host \<Rightarrow> string \<Rightarrow> string option" where
  "EnvNonEmpty H key = (case ho_getenv H key of None \<Rightarrow> None | Some v \<Rightarrow> if v \<noteq> [] then Some v else None)"

section \<open>The environment for MySQL\<close>

text \<open>The first of two variables that is set, or the value there is.\<close>

definition env_either :: "host \<Rightarrow> string \<Rightarrow> string \<Rightarrow> string \<Rightarrow> string" where
  "env_either H key1 key2 dflt =
     (case EnvNonEmpty H key1 of Some v \<Rightarrow> v
      | None \<Rightarrow> (case EnvNonEmpty H key2 of Some v \<Rightarrow> v | None \<Rightarrow> dflt))"

definition env_port :: "host \<Rightarrow> string option" where
  "env_port H =
     (case EnvNonEmpty H ''MYSQL_TCP_PORT'' of Some p \<Rightarrow> Some p
      | None \<Rightarrow> (case EnvNonEmpty H ''MYSQL_PORT'' of Some p \<Rightarrow> Some p | None \<Rightarrow> EnvNonEmpty H ''YIKV_MYSQL_PORT''))"

definition FillMysqlFlagsFromEnv :: "host \<Rightarrow> flags \<Rightarrow> flags" where
  "FillMysqlFlagsFromEnv H f =
     (let f = (if fl_mysql_host f = [] then f\<lparr>fl_mysql_host := env_either H ''MYSQL_HOST'' ''YIKV_MYSQL_HOST'' []\<rparr> else f);
          f = (if fl_mysql_user f = [] then f\<lparr>fl_mysql_user := env_either H ''MYSQL_USER'' ''YIKV_MYSQL_USER'' []\<rparr> else f);
          f = (if fl_mysql_password f = [] then
                 f\<lparr>fl_mysql_password := env_either H ''MYSQL_PASSWORD'' ''YIKV_MYSQL_PASSWORD''
                     (case ho_getenv H ''MYSQL_PWD'' of Some v \<Rightarrow> v | None \<Rightarrow> [])\<rparr>
               else f);
          f = (if fl_mysql_database f = [] then
                 f\<lparr>fl_mysql_database := env_either H ''MYSQL_DATABASE'' ''YIKV_MYSQL_DATABASE'' []\<rparr>
               else f)
      in if fl_mysql_port_from_cli f then f
         else case env_port H of
           None \<Rightarrow> f
         | Some p \<Rightarrow>
             let n = c_strtoull p in if 0 < n \<and> n \<le> 65535 then f\<lparr>fl_mysql_port := ucast n\<rparr> else f)"

section \<open>The arguments\<close>

text \<open>A flag with a value: the flags after it, a refusal, or no such flag.\<close>

definition value_flag :: "host \<Rightarrow> string \<Rightarrow> string \<Rightarrow> flags \<Rightarrow> (string + flags) option" where
  "value_flag H a v f =
     (if a = ''--config'' then Some (Inr (f\<lparr>fl_config_path := v\<rparr>))
      else if a = ''--index'' then Some (Inr (f\<lparr>fl_index_name := v\<rparr>))
      else if a = ''--schema_json'' then Some (Inr (f\<lparr>fl_schema_json_path := v\<rparr>))
      else if a = ''--input'' then Some (Inr (f\<lparr>fl_input_files := fl_input_files f @ [v]\<rparr>))
      else if a = ''--input_list'' then
        Some (case ho_read H v of
            None \<Rightarrow> Inl ''cannot open --input_list''
          | Some text \<Rightarrow> Inr (f\<lparr>fl_input_files := fl_input_files f @ input_list_lines text\<rparr>))
      else if a = ''--input_dir'' then
        Some (case CollectDataFilesUnderDir H v of
            Inl e \<Rightarrow> Inl (''--input_dir: '' @ e)
          | Inr found \<Rightarrow> Inr (f\<lparr>fl_input_files := fl_input_files f @ found\<rparr>))
      else if a = ''--import_io_workers'' then
        Some (let n = ucast (c_strtoull v) :: u32 in Inr (f\<lparr>fl_import_io_workers := (if n < 1 then 1 else n)\<rparr>))
      else if a = ''--import_queue_batches'' then
        Some (let n = c_strtoull v in Inr (f\<lparr>fl_import_queue_batches := (if n < 1 then 1 else n)\<rparr>))
      else if a = ''--mysql_host'' then Some (Inr (f\<lparr>fl_mysql_host := v\<rparr>))
      else if a = ''--mysql_user'' then Some (Inr (f\<lparr>fl_mysql_user := v\<rparr>))
      else if a = ''--mysql_password'' then Some (Inr (f\<lparr>fl_mysql_password := v\<rparr>))
      else if a = ''--mysql_database'' then Some (Inr (f\<lparr>fl_mysql_database := v\<rparr>))
      else if a = ''--mysql_query_file'' then Some (Inr (f\<lparr>fl_mysql_query_file := v\<rparr>))
      else if a = ''--mysql_query'' then Some (Inr (f\<lparr>fl_mysql_query := v\<rparr>))
      else if a = ''--mysql_port'' then
        Some (let p = c_strtoull v in
          Inr (f\<lparr>fl_mysql_port_from_cli := True, fl_mysql_port := (if 65535 < p then 3306 else ucast p)\<rparr>))
      else if a = ''--mysql_batch_rows'' then
        Some (let n = c_strtoull v in Inr (f\<lparr>fl_mysql_batch_rows := (if n < 1 then 1 else n)\<rparr>))
      else if a = ''--mysql_init_sql'' then Some (Inr (f\<lparr>fl_mysql_init_sql_file := v\<rparr>))
      else if a = ''--sql_est_rows'' then Some (Inr (f\<lparr>fl_sql_est_rows := c_strtoull v\<rparr>))
      else if a = ''--kafka_offline_watermark_sec'' then
        Some (Inr (f\<lparr>fl_kafka_watermark_set := True,
          fl_kafka_offline_watermark_sec := word_of_int (fst (c_strtol v))\<rparr>))
      else if a = ''--kafka_rewind_minutes'' then
        Some (Inr (f\<lparr>fl_kafka_rewind_minutes := ucast (c_strtoull v)\<rparr>))
      else if a = ''--kafka_catchup_wall_sec'' then Some (Inr (f\<lparr>fl_kafka_catchup_wall_sec := c_atoi v\<rparr>))
      else None)"

definition plain_flag :: "string \<Rightarrow> flags \<Rightarrow> string + flags" where
  "plain_flag a f =
     (if a = ''--create_if_missing'' then Inr (f\<lparr>fl_create_if_missing := True\<rparr>)
      else if a = ''--recreate'' then Inr (f\<lparr>fl_recreate := True\<rparr>)
      else if a = ''--no_arena_lock'' then Inr (f\<lparr>fl_no_arena_lock := True\<rparr>)
      else if a = ''--kafka_catchup'' then Inr (f\<lparr>fl_kafka_catchup := True\<rparr>)
      else if a = ''-h'' \<or> a = ''--help'' then Inl ''usage''
      else Inl (''Unknown arg: '' @ a))"

fun parse_args :: "host \<Rightarrow> string list \<Rightarrow> flags \<Rightarrow> string + flags" where
  "parse_args H [] f = Inr f"
| "parse_args H [a] f = plain_flag a f"
| "parse_args H (a # v # rest) f =
     (case value_flag H a v f of
        Some (Inl e) \<Rightarrow> Inl e
      | Some (Inr f') \<Rightarrow> parse_args H rest f'
      | None \<Rightarrow> (case plain_flag a f of Inl e \<Rightarrow> Inl e | Inr f' \<Rightarrow> parse_args H (v # rest) f'))"

section \<open>The checks\<close>

definition mysql_mode :: "flags \<Rightarrow> bool" where
  "mysql_mode f \<longleftrightarrow> fl_mysql_query f \<noteq> [] \<or> fl_mysql_query_file f \<noteq> []"

definition mysql_flags :: "host \<Rightarrow> flags \<Rightarrow> string + flags" where
  "mysql_flags H f =
     (if fl_mysql_query f \<noteq> [] \<and> fl_mysql_query_file f \<noteq> [] then
        Inl ''Use only one of --mysql_query or --mysql_query_file.''
      else case (if fl_mysql_query_file f \<noteq> [] then ReadFile H (fl_mysql_query_file f) else Inr (fl_mysql_query f)) of
        Inl e \<Rightarrow> Inl e
      | Inr query \<Rightarrow>
          if fl_mysql_query_file f \<noteq> [] \<and> query = [] then Inl ''--mysql_query_file is empty.''
          else if query = [] then Inl ''MySQL mode requires --mysql_query or --mysql_query_file.''
          else let f = FillMysqlFlagsFromEnv H (f\<lparr>fl_mysql_query := query\<rparr>) in
            if fl_mysql_host f = [] \<or> fl_mysql_user f = [] \<or> fl_mysql_database f = [] then
              Inl ''MySQL mode requires --mysql_host, --mysql_user, and --mysql_database (or MYSQL_HOST / MYSQL_USER / MYSQL_DATABASE env, or YIKV_MYSQL_*).''
            else Inr f)"

definition check_flags :: "host \<Rightarrow> flags \<Rightarrow> string + flags" where
  "check_flags H f =
     (if fl_config_path f = [] then Inl ''Required: --config FILE''
      else if fl_index_name f = [] then Inl ''Required: --index''
      else if \<not> mysql_mode f \<and> fl_input_files f = [] then
        Inl ''Required: file inputs (--input | --input_list | --input_dir) or MySQL mode (--mysql_query / --mysql_query_file).''
      else case (if mysql_mode f then mysql_flags H f else Inr f) of
        Inl e \<Rightarrow> Inl e
      | Inr f \<Rightarrow>
          if fl_create_if_missing f \<and> fl_schema_json_path f = [] then Inl ''--create_if_missing requires --schema_json''
          else if fl_kafka_catchup f \<and> \<not> fl_kafka_watermark_set f then
            Inl ''--kafka_catchup requires --kafka_offline_watermark_sec SEC (epoch seconds).''
          else Inr f)"

definition ParseFlags :: "host \<Rightarrow> string list \<Rightarrow> string + flags" where
  "ParseFlags H args = (case parse_args H args Flags_init of Inl e \<Rightarrow> Inl e | Inr f \<Rightarrow> check_flags H f)"

definition ApplyConfigFile :: "config_env \<Rightarrow> json_ops \<Rightarrow> flags \<Rightarrow> flags loaded" where
  "ApplyConfigFile F J f =
     bind_loaded (LoadServerConfig F J (fl_config_path f)) (\<lambda>cfg.
       Inr (f\<lparr>fl_db_path := sv_db_path cfg, fl_arena_seg_gb := sv_arena_seg_gb cfg,
              fl_arena_max_gb := sv_arena_max_gb cfg, fl_exclusive_arena_lock_from_cfg := sv_exclusive_arena_lock cfg,
              fl_kafka_default_brokers := sv_kafka_default_brokers cfg\<rparr>))"

section \<open>Accepted flags\<close>

text \<open>The counts are at least one, whatever text was given for them.\<close>

definition counts_ok :: "flags \<Rightarrow> bool" where
  "counts_ok f \<longleftrightarrow> 1 \<le> fl_import_io_workers f \<and> 1 \<le> fl_import_queue_batches f \<and> 1 \<le> fl_mysql_batch_rows f"

lemma at_least_one: "1 \<le> n \<longleftrightarrow> n \<noteq> 0" for n :: "'a :: len word"
  unfolding linorder_not_less [symmetric] by simp

lemma value_flag_counts: "value_flag H a v f = Some (Inr f') \<Longrightarrow> counts_ok f \<Longrightarrow> counts_ok f'"
  unfolding value_flag_def counts_ok_def Let_def
  by (auto simp: at_least_one split: if_splits option.splits sum.splits)

lemma plain_flag_counts: "plain_flag a f = Inr f' \<Longrightarrow> counts_ok f \<Longrightarrow> counts_ok f'"
  by (auto simp: plain_flag_def counts_ok_def split: if_splits)

lemma parse_args_counts: "parse_args H args f = Inr f' \<Longrightarrow> counts_ok f \<Longrightarrow> counts_ok f'"
  by (induction H args f rule: parse_args.induct)
    (auto split: option.splits sum.splits dest: value_flag_counts plain_flag_counts)

text \<open>What the environment can change does not depend on the names of the variables.\<close>

definition env_filled :: "string \<Rightarrow> string \<Rightarrow> string \<Rightarrow> string \<Rightarrow> string option \<Rightarrow> flags \<Rightarrow> flags" where
  "env_filled host user password database port f =
     (let f = (if fl_mysql_host f = [] then f\<lparr>fl_mysql_host := host\<rparr> else f);
          f = (if fl_mysql_user f = [] then f\<lparr>fl_mysql_user := user\<rparr> else f);
          f = (if fl_mysql_password f = [] then f\<lparr>fl_mysql_password := password\<rparr> else f);
          f = (if fl_mysql_database f = [] then f\<lparr>fl_mysql_database := database\<rparr> else f)
      in if fl_mysql_port_from_cli f then f
         else case port of
           None \<Rightarrow> f
         | Some p \<Rightarrow> let n = c_strtoull p in if 0 < n \<and> n \<le> 65535 then f\<lparr>fl_mysql_port := ucast n\<rparr> else f)"

lemma fill_env: "\<exists>host user password database port. FillMysqlFlagsFromEnv H f = env_filled host user password database port f"
  unfolding FillMysqlFlagsFromEnv_def env_filled_def by blast

lemma env_filled_frame:
  "fl_config_path (env_filled h u p d port f) = fl_config_path f"
  "fl_index_name (env_filled h u p d port f) = fl_index_name f"
  "fl_input_files (env_filled h u p d port f) = fl_input_files f"
  "fl_mysql_query (env_filled h u p d port f) = fl_mysql_query f"
  "counts_ok (env_filled h u p d port f) = counts_ok f"
  "fl_create_if_missing (env_filled h u p d port f) = fl_create_if_missing f"
  "fl_schema_json_path (env_filled h u p d port f) = fl_schema_json_path f"
  "fl_kafka_catchup (env_filled h u p d port f) = fl_kafka_catchup f"
  "fl_kafka_watermark_set (env_filled h u p d port f) = fl_kafka_watermark_set f"
  by (simp_all add: env_filled_def counts_ok_def Let_def split: option.split)

lemma fill_env_frame:
  "fl_config_path (FillMysqlFlagsFromEnv H f) = fl_config_path f"
  "fl_index_name (FillMysqlFlagsFromEnv H f) = fl_index_name f"
  "fl_input_files (FillMysqlFlagsFromEnv H f) = fl_input_files f"
  "fl_mysql_query (FillMysqlFlagsFromEnv H f) = fl_mysql_query f"
  "counts_ok (FillMysqlFlagsFromEnv H f) = counts_ok f"
  "fl_create_if_missing (FillMysqlFlagsFromEnv H f) = fl_create_if_missing f"
  "fl_schema_json_path (FillMysqlFlagsFromEnv H f) = fl_schema_json_path f"
  "fl_kafka_catchup (FillMysqlFlagsFromEnv H f) = fl_kafka_catchup f"
  "fl_kafka_watermark_set (FillMysqlFlagsFromEnv H f) = fl_kafka_watermark_set f"
  using fill_env [of H f] env_filled_frame by metis+

lemma mysql_flags_ok:
  assumes "mysql_flags H f = Inr g"
  shows "fl_config_path g = fl_config_path f" "fl_index_name g = fl_index_name f"
    "fl_input_files g = fl_input_files f" "counts_ok g = counts_ok f"
    "fl_mysql_query g \<noteq> []" "fl_mysql_host g \<noteq> []" "fl_mysql_user g \<noteq> []" "fl_mysql_database g \<noteq> []"
proof -
  from assms obtain query where q: "query \<noteq> []" "g = FillMysqlFlagsFromEnv H (f\<lparr>fl_mysql_query := query\<rparr>)"
    "fl_mysql_host g \<noteq> []" "fl_mysql_user g \<noteq> []" "fl_mysql_database g \<noteq> []"
    by (auto simp: mysql_flags_def Let_def split: if_splits sum.splits)
  then show "fl_config_path g = fl_config_path f" "fl_index_name g = fl_index_name f"
    "fl_input_files g = fl_input_files f" "counts_ok g = counts_ok f" "fl_mysql_query g \<noteq> []"
    "fl_mysql_host g \<noteq> []" "fl_mysql_user g \<noteq> []" "fl_mysql_database g \<noteq> []"
    by (simp_all add: fill_env_frame) (simp add: counts_ok_def)
qed

lemma check_flags_cases:
  assumes "check_flags H f = Inr g"
  shows "fl_config_path f \<noteq> []" "fl_index_name f \<noteq> []"
    "(\<not> mysql_mode f \<and> g = f \<and> fl_input_files f \<noteq> []) \<or> (mysql_mode f \<and> mysql_flags H f = Inr g)"
    "fl_create_if_missing g \<longrightarrow> fl_schema_json_path g \<noteq> []" "fl_kafka_catchup g \<longrightarrow> fl_kafka_watermark_set g"
  using assms by (auto simp: check_flags_def split: if_splits sum.splits)

text \<open>
  C33: Accepted flags are complete. When the command line is accepted, it names a configuration, an
  index and something to import, input files or a MySQL query with its host, user and database; a
  schema is named when the index may be created, a watermark is set when the Kafka catch-up is
  asked for; and the numbers of readers, of queued batches and of rows per batch are at least
  one, whatever text was given for them.
\<close>

theorem parse_flags_valid:
  assumes "ParseFlags H args = Inr f"
  shows "fl_config_path f \<noteq> [] \<and> fl_index_name f \<noteq> [] \<and>
    (if fl_mysql_query f = [] then fl_input_files f \<noteq> []
     else fl_mysql_host f \<noteq> [] \<and> fl_mysql_user f \<noteq> [] \<and> fl_mysql_database f \<noteq> []) \<and>
    (fl_create_if_missing f \<longrightarrow> fl_schema_json_path f \<noteq> []) \<and>
    (fl_kafka_catchup f \<longrightarrow> fl_kafka_watermark_set f) \<and>
    1 \<le> fl_import_io_workers f \<and> 1 \<le> fl_import_queue_batches f \<and> 1 \<le> fl_mysql_batch_rows f"
proof -
  from assms obtain f0 where f0: "parse_args H args Flags_init = Inr f0" "check_flags H f0 = Inr f"
    by (auto simp: ParseFlags_def split: sum.splits)
  have "counts_ok Flags_init" by (simp add: counts_ok_def Flags_init_def)
  with parse_args_counts [OF f0(1)] have counts: "counts_ok f0" by simp
  note check = check_flags_cases [OF f0(2)]
  from check(3) show ?thesis
  proof (elim disjE conjE)
    assume "\<not> mysql_mode f0" "f = f0" "fl_input_files f0 \<noteq> []"
    with check counts show ?thesis by (simp add: counts_ok_def mysql_mode_def)
  next
    assume "mysql_flags H f0 = Inr f"
    from mysql_flags_ok [OF this] check counts show ?thesis by (simp add: counts_ok_def)
  qed
qed

text \<open>A negative count is a huge one: the text is read as an unsigned number, then cut to 32 bits.\<close>

lemma negative_workers:
  "value_flag H ''--import_io_workers'' ''-1'' f = Some (Inr (f\<lparr>fl_import_io_workers := 4294967295\<rparr>))"
proof -
  have "ucast (c_strtoull ''-1'') = (4294967295 :: u32)" by code_simp
  then show ?thesis by (simp add: value_flag_def Let_def)
qed

section \<open>A command line for given flags\<close>

lemma unat_u64_bound: "unat (w :: u64) < 2 ^ 64"
  using unsigned_less [of w, where ?'a = nat] by simp

lemma c_strtoull_dec_nat: "n < 2 ^ 64 \<Longrightarrow> c_strtoull (dec_nat n) = of_nat n"
  using strtol_raw_dec_int [of "int n"] by (simp add: c_strtoull_def dec_int_def)

lemma c_strtoull_print: "c_strtoull (to_string_u w) = w" for w :: u64
  by (simp add: to_string_u_def c_strtoull_dec_nat [OF unat_u64_bound])

lemma print_small:
  fixes w :: "'a :: len word"
  assumes "LENGTH('a) \<le> 64"
  shows "c_strtoull (to_string_u w) = ucast w"
proof -
  have "unat w < 2 ^ LENGTH('a)" by (rule unsigned_less)
  also have "\<dots> \<le> 2 ^ 64" using assms by (intro power_increasing) simp_all
  finally have "c_strtoull (to_string_u w) = of_nat (unat w)"
    by (simp add: to_string_u_def c_strtoull_dec_nat)
  then show ?thesis by (simp add: unsigned_ucast_eq of_nat_unat)
qed

lemma c_strtol_print: "word_of_int (fst (c_strtol (to_string_i64 w))) = w"
  using sint_i64_bounds [of w] c_strtol_dec_int [of "sint w"] by (simp add: to_string_i64_def)

lemma c_atoi_print: "c_atoi (to_string_i32 w) = w"
  using sint_i32_bounds [of w] c_strtol_dec_int [of "sint w"]
  by (simp add: to_string_i32_def c_atoi_def int32_min_def int32_max_def int64_min_def int64_max_def)

definition input_args :: "string list \<Rightarrow> string list" where
  "input_args paths = concat (map (\<lambda>p. [''--input'', p]) paths)"

definition setting_args :: "flags \<Rightarrow> string list" where
  "setting_args f =
     [''--config'', fl_config_path f, ''--index'', fl_index_name f, ''--schema_json'', fl_schema_json_path f,
      ''--import_io_workers'', to_string_u (fl_import_io_workers f),
      ''--import_queue_batches'', to_string_u (fl_import_queue_batches f),
      ''--mysql_host'', fl_mysql_host f, ''--mysql_user'', fl_mysql_user f, ''--mysql_password'', fl_mysql_password f,
      ''--mysql_database'', fl_mysql_database f, ''--mysql_batch_rows'', to_string_u (fl_mysql_batch_rows f),
      ''--mysql_init_sql'', fl_mysql_init_sql_file f, ''--sql_est_rows'', to_string_u (fl_sql_est_rows f),
      ''--kafka_rewind_minutes'', to_string_u (fl_kafka_rewind_minutes f),
      ''--kafka_catchup_wall_sec'', to_string_i32 (fl_kafka_catchup_wall_sec f)]"

text \<open>The query, in its file or itself, and the two settings that leave a mark when they are given.\<close>

definition query_args :: "flags \<Rightarrow> string list" where
  "query_args f =
     (if fl_mysql_query_file f = [] then [''--mysql_query'', fl_mysql_query f]
      else [''--mysql_query_file'', fl_mysql_query_file f])"

definition port_args :: "flags \<Rightarrow> string list" where
  "port_args f = (if fl_mysql_port_from_cli f then [''--mysql_port'', to_string_u (fl_mysql_port f)] else [])"

definition watermark_args :: "flags \<Rightarrow> string list" where
  "watermark_args f =
     (if fl_kafka_watermark_set f
      then [''--kafka_offline_watermark_sec'', to_string_i64 (fl_kafka_offline_watermark_sec f)] else [])"

definition switch_args :: "flags \<Rightarrow> string list" where
  "switch_args f =
     (if fl_create_if_missing f then [''--create_if_missing''] else []) @
     (if fl_recreate f then [''--recreate''] else []) @
     (if fl_no_arena_lock f then [''--no_arena_lock''] else []) @
     (if fl_kafka_catchup f then [''--kafka_catchup''] else [])"

definition render_flags :: "flags \<Rightarrow> string list" where
  "render_flags f = input_args (fl_input_files f) @ setting_args f @ query_args f @ port_args f @ watermark_args f @
     switch_args f"

text \<open>
  The flags a command line can give, before the environment fills the gaps: the fields of the
  configuration file are as they start, so are the port and the watermark where none was given,
  and a query that comes from a file is what the file holds.
\<close>

definition cli_defaults :: "flags \<Rightarrow> bool" where
  "cli_defaults f \<longleftrightarrow>
     fl_db_path f = [] \<and> fl_exclusive_arena_lock_from_cfg f \<and> fl_arena_seg_gb f = 0 \<and> fl_arena_max_gb f = 0 \<and>
     fl_kafka_default_brokers f = [] \<and> (\<not> fl_mysql_port_from_cli f \<longrightarrow> fl_mysql_port f = 3306) \<and>
     (\<not> fl_kafka_watermark_set f \<longrightarrow> fl_kafka_offline_watermark_sec f = 0)"

definition with_env :: "host \<Rightarrow> flags \<Rightarrow> flags" where
  "with_env H f = (if fl_mysql_query f = [] then f else FillMysqlFlagsFromEnv H f)"

definition from_cli :: "host \<Rightarrow> flags \<Rightarrow> bool" where
  "from_cli H f \<longleftrightarrow> counts_ok f \<and> cli_defaults f \<and> fl_config_path f \<noteq> [] \<and> fl_index_name f \<noteq> [] \<and>
     (fl_mysql_query_file f \<noteq> [] \<longrightarrow> fl_mysql_query f \<noteq> [] \<and> ReadFile H (fl_mysql_query_file f) = Inr (fl_mysql_query f)) \<and>
     (if fl_mysql_query f = [] then fl_input_files f \<noteq> []
      else fl_mysql_host (with_env H f) \<noteq> [] \<and> fl_mysql_user (with_env H f) \<noteq> [] \<and>
        fl_mysql_database (with_env H f) \<noteq> []) \<and>
     (fl_create_if_missing f \<longrightarrow> fl_schema_json_path f \<noteq> []) \<and>
     (fl_kafka_catchup f \<longrightarrow> fl_kafka_watermark_set f)"

lemma parse_inputs:
  "parse_args H (input_args paths @ rest) f = parse_args H rest (f\<lparr>fl_input_files := fl_input_files f @ paths\<rparr>)"
  by (induction paths arbitrary: f) (simp_all add: input_args_def value_flag_def)

lemma print_counts:
  "counts_ok f \<Longrightarrow> \<not> fl_import_io_workers f < 1 \<and> \<not> fl_import_queue_batches f < 1 \<and> \<not> fl_mysql_batch_rows f < 1"
  by (simp add: counts_ok_def at_least_one)

lemma ucast_back:
  fixes w :: "'a :: len word"
  assumes "LENGTH('a) \<le> LENGTH('b :: len)"
  shows "ucast (ucast w :: 'b word) = w"
proof -
  have "unat w < 2 ^ LENGTH('a)" by (rule unsigned_less)
  moreover have "(2 :: nat) ^ LENGTH('a) \<le> 2 ^ LENGTH('b)" using assms by (intro power_increasing) simp_all
  ultimately have "unat w < 2 ^ LENGTH('b)" by (rule less_le_trans)
  then show ?thesis by (simp add: word_unat_eq_iff unsigned_ucast_eq unsigned_take_bit_eq take_bit_nat_eq_self)
qed

lemma print_u32 [simp]: "ucast (c_strtoull (to_string_u w)) = w" for w :: u32
  by (simp add: print_small ucast_back)

lemma print_port [simp]: "ucast (c_strtoull (to_string_u p)) = p" "\<not> 65535 < c_strtoull (to_string_u p)" for p :: u16
proof -
  show "ucast (c_strtoull (to_string_u p)) = p" by (simp add: print_small ucast_back)
  have "unat (ucast p :: u64) \<le> 65535" using unsigned_less [of p, where ?'a = nat] by (simp add: unsigned_ucast_eq take_bit_nat_eq_self)
  then show "\<not> 65535 < c_strtoull (to_string_u p)" by (simp add: print_small word_less_nat_alt)
qed

lemma parse_switches:
  "parse_args H (switch_args f) g =
   Inr (g\<lparr>fl_create_if_missing := fl_create_if_missing g \<or> fl_create_if_missing f,
     fl_recreate := fl_recreate g \<or> fl_recreate f, fl_no_arena_lock := fl_no_arena_lock g \<or> fl_no_arena_lock f,
     fl_kafka_catchup := fl_kafka_catchup g \<or> fl_kafka_catchup f\<rparr>)"
  unfolding switch_args_def
  by (cases "fl_create_if_missing f"; cases "fl_recreate f"; cases "fl_no_arena_lock f"; cases "fl_kafka_catchup f")
    (simp_all add: plain_flag_def value_flag_def)

lemma parse_settings:
  assumes "counts_ok f"
  shows "parse_args H (setting_args f @ rest) g =
    parse_args H rest (g\<lparr>fl_config_path := fl_config_path f, fl_index_name := fl_index_name f,
      fl_schema_json_path := fl_schema_json_path f, fl_import_io_workers := fl_import_io_workers f,
      fl_import_queue_batches := fl_import_queue_batches f, fl_mysql_host := fl_mysql_host f,
      fl_mysql_user := fl_mysql_user f, fl_mysql_password := fl_mysql_password f,
      fl_mysql_database := fl_mysql_database f, fl_mysql_batch_rows := fl_mysql_batch_rows f,
      fl_mysql_init_sql_file := fl_mysql_init_sql_file f, fl_sql_est_rows := fl_sql_est_rows f,
      fl_kafka_rewind_minutes := fl_kafka_rewind_minutes f, fl_kafka_catchup_wall_sec := fl_kafka_catchup_wall_sec f\<rparr>)"
  using print_counts [OF assms]
  by (simp add: setting_args_def value_flag_def Let_def c_strtoull_print c_atoi_print)

lemma parse_query_args:
  "parse_args H (query_args f @ rest) g =
   parse_args H rest (if fl_mysql_query_file f = [] then g\<lparr>fl_mysql_query := fl_mysql_query f\<rparr>
     else g\<lparr>fl_mysql_query_file := fl_mysql_query_file f\<rparr>)"
  by (simp add: query_args_def value_flag_def)

lemma parse_port_args:
  "parse_args H (port_args f @ rest) g =
   parse_args H rest (if fl_mysql_port_from_cli f
     then g\<lparr>fl_mysql_port_from_cli := True, fl_mysql_port := fl_mysql_port f\<rparr> else g)"
  by (simp add: port_args_def value_flag_def Let_def)

lemma parse_watermark_args:
  "parse_args H (watermark_args f @ rest) g =
   parse_args H rest (if fl_kafka_watermark_set f
     then g\<lparr>fl_kafka_watermark_set := True, fl_kafka_offline_watermark_sec := fl_kafka_offline_watermark_sec f\<rparr> else g)"
  by (simp add: watermark_args_def value_flag_def c_strtol_print)

lemma parse_render:
  assumes "from_cli H f"
  shows "parse_args H (render_flags f) Flags_init =
    Inr (if fl_mysql_query_file f = [] then f else f\<lparr>fl_mysql_query := []\<rparr>)"
proof -
  from assms have c: "counts_ok f" by (simp add: from_cli_def)
  from assms have d: "fl_db_path f = []" "fl_exclusive_arena_lock_from_cfg f" "fl_arena_seg_gb f = 0"
    "fl_arena_max_gb f = 0" "fl_kafka_default_brokers f = []" "fl_mysql_port_from_cli f \<or> fl_mysql_port f = 3306"
    "fl_kafka_watermark_set f \<or> fl_kafka_offline_watermark_sec f = 0"
    by (auto simp: from_cli_def cli_defaults_def)
  show ?thesis
    unfolding render_flags_def parse_inputs parse_settings [OF c] parse_query_args parse_port_args
      parse_watermark_args parse_switches
    using d
    by (cases f; cases "fl_mysql_query_file f = []"; cases "fl_mysql_port_from_cli f"; cases "fl_kafka_watermark_set f")
      (simp_all add: Flags_init_def)
qed

lemma check_cli:
  assumes "from_cli H f"
  shows "check_flags H (if fl_mysql_query_file f = [] then f else f\<lparr>fl_mysql_query := []\<rparr>) = Inr (with_env H f)"
proof -
  note cli = assms [unfolded from_cli_def]
  have same: "f\<lparr>fl_mysql_query := fl_mysql_query f\<rparr> = f" by simp
  show ?thesis
  proof (cases "fl_mysql_query f = []")
    case True
    with cli show ?thesis by (auto simp: check_flags_def mysql_mode_def with_env_def)
  next
    case False
    with cli have "mysql_flags H (if fl_mysql_query_file f = [] then f else f\<lparr>fl_mysql_query := []\<rparr>) = Inr (with_env H f)"
      by (auto simp: mysql_flags_def with_env_def Let_def)
    with False cli show ?thesis
      by (auto simp: check_flags_def mysql_mode_def with_env_def fill_env_frame)
  qed
qed

text \<open>And conversely: whatever is accepted is the flags of a command line, with the environment.\<close>

lemma value_flag_config:
  assumes "value_flag H a v f = Some (Inr f')"
  shows "fl_db_path f' = fl_db_path f" "fl_exclusive_arena_lock_from_cfg f' = fl_exclusive_arena_lock_from_cfg f"
    "fl_arena_seg_gb f' = fl_arena_seg_gb f" "fl_arena_max_gb f' = fl_arena_max_gb f"
    "fl_kafka_default_brokers f' = fl_kafka_default_brokers f"
  using assms unfolding value_flag_def Let_def
  by (simp_all split: if_splits option.splits sum.splits) (auto split: if_splits)

lemma value_flag_marks:
  assumes "value_flag H a v f = Some (Inr f')"
  shows "fl_mysql_port_from_cli f' \<or>
      fl_mysql_port_from_cli f' = fl_mysql_port_from_cli f \<and> fl_mysql_port f' = fl_mysql_port f"
    and "fl_kafka_watermark_set f' \<or> fl_kafka_watermark_set f' = fl_kafka_watermark_set f \<and>
      fl_kafka_offline_watermark_sec f' = fl_kafka_offline_watermark_sec f"
  using assms unfolding value_flag_def Let_def
  by (auto split: if_splits option.splits sum.splits)

lemma value_flag_defaults: "value_flag H a v f = Some (Inr f') \<Longrightarrow> cli_defaults f \<Longrightarrow> cli_defaults f'"
  using value_flag_config [of H a v f f'] value_flag_marks [of H a v f f'] by (auto simp: cli_defaults_def)

lemma plain_flag_defaults: "plain_flag a f = Inr f' \<Longrightarrow> cli_defaults f \<Longrightarrow> cli_defaults f'"
  by (auto simp: plain_flag_def cli_defaults_def split: if_splits)

lemma parse_args_defaults: "parse_args H args f = Inr f' \<Longrightarrow> cli_defaults f \<Longrightarrow> cli_defaults f'"
  by (induction H args f rule: parse_args.induct)
    (auto split: option.splits sum.splits dest: value_flag_defaults plain_flag_defaults)

lemma accepted_from_cli:
  assumes "ParseFlags H args = Inr g"
  shows "\<exists>f. from_cli H f \<and> g = with_env H f"
proof -
  from assms obtain f where f: "parse_args H args Flags_init = Inr f" "check_flags H f = Inr g"
    by (auto simp: ParseFlags_def split: sum.splits)
  have "counts_ok Flags_init" "cli_defaults Flags_init"
    by (simp_all add: cli_defaults_def counts_ok_def Flags_init_def)
  with parse_args_counts [OF f(1)] parse_args_defaults [OF f(1)] have d: "counts_ok f" "cli_defaults f" by simp_all
  note check = check_flags_cases [OF f(2)]
  show ?thesis
  proof (cases "mysql_mode f")
    case False
    with check d have "from_cli H f \<and> g = with_env H f"
      by (auto simp: from_cli_def with_env_def mysql_mode_def)
    then show ?thesis by blast
  next
    case True
    with check(3) have "mysql_flags H f = Inr g" by simp
    then obtain query where q: "query \<noteq> []"
      "(if fl_mysql_query_file f \<noteq> [] then ReadFile H (fl_mysql_query_file f) else Inr (fl_mysql_query f)) = Inr query"
      "g = FillMysqlFlagsFromEnv H (f\<lparr>fl_mysql_query := query\<rparr>)"
      "fl_mysql_host g \<noteq> []" "fl_mysql_user g \<noteq> []" "fl_mysql_database g \<noteq> []"
      by (auto simp: mysql_flags_def Let_def split: if_splits sum.splits)
    let ?f = "f\<lparr>fl_mysql_query := query\<rparr>"
    have d': "counts_ok ?f" "cli_defaults ?f" using d by (simp_all add: cli_defaults_def counts_ok_def)
    have g: "g = with_env H ?f" using q(1,3) by (simp add: with_env_def)
    have frame: "fl_create_if_missing f \<longrightarrow> fl_schema_json_path f \<noteq> []" "fl_kafka_catchup f \<longrightarrow> fl_kafka_watermark_set f"
      using check(4,5) unfolding q(3) fill_env_frame by simp_all
    have "from_cli H ?f"
      unfolding from_cli_def g [symmetric]
      using d' check(1,2) frame q(1,2,4-6) by (simp split: if_splits)
    with g show ?thesis by blast
  qed
qed

lemma fill_fields:
  "(if fl_mysql_host f = [] then f\<lparr>fl_mysql_host := h\<rparr> else f) =
     f\<lparr>fl_mysql_host := (if fl_mysql_host f = [] then h else fl_mysql_host f)\<rparr>"
  "(if fl_mysql_user f = [] then f\<lparr>fl_mysql_user := h\<rparr> else f) =
     f\<lparr>fl_mysql_user := (if fl_mysql_user f = [] then h else fl_mysql_user f)\<rparr>"
  "(if fl_mysql_password f = [] then f\<lparr>fl_mysql_password := h\<rparr> else f) =
     f\<lparr>fl_mysql_password := (if fl_mysql_password f = [] then h else fl_mysql_password f)\<rparr>"
  "(if fl_mysql_database f = [] then f\<lparr>fl_mysql_database := h\<rparr> else f) =
     f\<lparr>fl_mysql_database := (if fl_mysql_database f = [] then h else fl_mysql_database f)\<rparr>"
  "(if c then f\<lparr>fl_mysql_port := q\<rparr> else f) = f\<lparr>fl_mysql_port := (if c then q else fl_mysql_port f)\<rparr>"
  "(if c then f else f\<lparr>fl_mysql_port := q\<rparr>) = f\<lparr>fl_mysql_port := (if c then fl_mysql_port f else q)\<rparr>"
  "(case x of None \<Rightarrow> f | Some y \<Rightarrow> f\<lparr>fl_mysql_port := r y\<rparr>) =
     f\<lparr>fl_mysql_port := (case x of None \<Rightarrow> fl_mysql_port f | Some y \<Rightarrow> r y)\<rparr>"
  by (cases f, simp split: option.split)+

lemma env_filled_shape:
  "env_filled host user password database port f =
     f\<lparr>fl_mysql_host := (if fl_mysql_host f = [] then host else fl_mysql_host f),
       fl_mysql_user := (if fl_mysql_user f = [] then user else fl_mysql_user f),
       fl_mysql_password := (if fl_mysql_password f = [] then password else fl_mysql_password f),
       fl_mysql_database := (if fl_mysql_database f = [] then database else fl_mysql_database f),
       fl_mysql_port := (if fl_mysql_port_from_cli f then fl_mysql_port f
         else case port of None \<Rightarrow> fl_mysql_port f
         | Some p \<Rightarrow> (if 0 < c_strtoull p \<and> c_strtoull p \<le> 65535 then ucast (c_strtoull p) else fl_mysql_port f))\<rparr>"
  by (simp only: env_filled_def fill_fields Let_def) (simp split del: if_split cong: if_cong option.case_cong)

lemma with_env_frame:
  "with_env H f = f\<lparr>fl_mysql_host := fl_mysql_host (with_env H f), fl_mysql_user := fl_mysql_user (with_env H f),
     fl_mysql_password := fl_mysql_password (with_env H f), fl_mysql_database := fl_mysql_database (with_env H f),
     fl_mysql_port := fl_mysql_port (with_env H f)\<rparr>"
  "fl_mysql_host f \<noteq> [] \<Longrightarrow> fl_mysql_host (with_env H f) = fl_mysql_host f"
  "fl_mysql_user f \<noteq> [] \<Longrightarrow> fl_mysql_user (with_env H f) = fl_mysql_user f"
  "fl_mysql_password f \<noteq> [] \<Longrightarrow> fl_mysql_password (with_env H f) = fl_mysql_password f"
  "fl_mysql_database f \<noteq> [] \<Longrightarrow> fl_mysql_database (with_env H f) = fl_mysql_database f"
  "fl_mysql_port_from_cli f \<Longrightarrow> fl_mysql_port (with_env H f) = fl_mysql_port f"
proof -
  obtain host user password database port where fill: "FillMysqlFlagsFromEnv H f = env_filled host user password database port f"
    using fill_env [of H f] by blast
  have keep: "f = f\<lparr>fl_mysql_host := fl_mysql_host f, fl_mysql_user := fl_mysql_user f,
     fl_mysql_password := fl_mysql_password f, fl_mysql_database := fl_mysql_database f, fl_mysql_port := fl_mysql_port f\<rparr>"
    by simp
  show "with_env H f = f\<lparr>fl_mysql_host := fl_mysql_host (with_env H f), fl_mysql_user := fl_mysql_user (with_env H f),
     fl_mysql_password := fl_mysql_password (with_env H f), fl_mysql_database := fl_mysql_database (with_env H f),
     fl_mysql_port := fl_mysql_port (with_env H f)\<rparr>"
    using keep by (cases "fl_mysql_query f = []") (simp_all add: with_env_def fill env_filled_shape)
  show "fl_mysql_host f \<noteq> [] \<Longrightarrow> fl_mysql_host (with_env H f) = fl_mysql_host f"
    "fl_mysql_user f \<noteq> [] \<Longrightarrow> fl_mysql_user (with_env H f) = fl_mysql_user f"
    "fl_mysql_password f \<noteq> [] \<Longrightarrow> fl_mysql_password (with_env H f) = fl_mysql_password f"
    "fl_mysql_database f \<noteq> [] \<Longrightarrow> fl_mysql_database (with_env H f) = fl_mysql_database f"
    "fl_mysql_port_from_cli f \<Longrightarrow> fl_mysql_port (with_env H f) = fl_mysql_port f"
    by (simp_all add: with_env_def fill env_filled_shape)
qed

text \<open>
  C34: Every flag can be given and lands in its own field. The flags a command line is accepted with
  are exactly those that are complete (\<open>from_cli\<close>), with the gaps in the MySQL login filled from the
  environment when there is a query; each of them is the result of the command line that spells
  it out. The environment changes nothing but the host, the user, the password and the database
  where they are empty, so an empty one that is given is no exception, and the port where none is
  given.
\<close>

theorem flags_roundtrip:
  "(from_cli H f \<longrightarrow> ParseFlags H (render_flags f) = Inr (with_env H f)) \<and>
   (ParseFlags H args = Inr g \<longrightarrow> (\<exists>f'. from_cli H f' \<and> g = with_env H f')) \<and>
   (fl_mysql_query f = [] \<longrightarrow> with_env H f = f) \<and>
   with_env H f = f\<lparr>fl_mysql_host := fl_mysql_host (with_env H f), fl_mysql_user := fl_mysql_user (with_env H f),
     fl_mysql_password := fl_mysql_password (with_env H f), fl_mysql_database := fl_mysql_database (with_env H f),
     fl_mysql_port := fl_mysql_port (with_env H f)\<rparr> \<and>
   (fl_mysql_host f \<noteq> [] \<longrightarrow> fl_mysql_host (with_env H f) = fl_mysql_host f) \<and>
   (fl_mysql_user f \<noteq> [] \<longrightarrow> fl_mysql_user (with_env H f) = fl_mysql_user f) \<and>
   (fl_mysql_password f \<noteq> [] \<longrightarrow> fl_mysql_password (with_env H f) = fl_mysql_password f) \<and>
   (fl_mysql_database f \<noteq> [] \<longrightarrow> fl_mysql_database (with_env H f) = fl_mysql_database f) \<and>
   (fl_mysql_port_from_cli f \<longrightarrow> fl_mysql_port (with_env H f) = fl_mysql_port f)"
proof (intro conjI impI)
  assume cli: "from_cli H f"
  show "ParseFlags H (render_flags f) = Inr (with_env H f)"
    by (simp add: ParseFlags_def parse_render [OF cli] check_cli [OF cli])
next
  show "fl_mysql_query f = [] \<Longrightarrow> with_env H f = f" by (simp add: with_env_def)
qed (rule accepted_from_cli with_env_frame; assumption)+

definition ex_host :: host where
  "ex_host = \<lparr>ho_read = (\<lambda>p. None), ho_exists = (\<lambda>p. False), ho_is_directory = (\<lambda>p. False),
     ho_walk = (\<lambda>p. Inr []), ho_getenv = (\<lambda>k. None)\<rparr>"

definition ex_login_host :: host where
  "ex_login_host = ex_host\<lparr>ho_getenv := (\<lambda>k. if k = ''MYSQL_HOST'' then Some ''h'' else if k = ''MYSQL_USER'' then Some ''u'' else None)\<rparr>"

definition ex_flags :: flags where
  "ex_flags = Flags_init\<lparr>fl_config_path := ''c'', fl_index_name := ''t'', fl_mysql_query := ''q'',
     fl_mysql_user := ''me'', fl_mysql_database := ''d'', fl_import_io_workers := 2\<rparr>"

lemma ex_with_env: "with_env ex_login_host ex_flags = ex_flags\<lparr>fl_mysql_host := ''h''\<rparr>"
  by code_simp

theorem flags_roundtrip_witness:
  "ParseFlags ex_login_host (render_flags ex_flags) = Inr (ex_flags\<lparr>fl_mysql_host := ''h''\<rparr>)"
proof -
  have "from_cli ex_login_host ex_flags"
    unfolding from_cli_def ex_with_env by (simp add: ex_flags_def cli_defaults_def counts_ok_def Flags_init_def)
  then show ?thesis
    unfolding ex_with_env [symmetric] by (rule flags_roundtrip [THEN conjunct1, THEN mp])
qed

definition ex_args :: "string list" where
  "ex_args = [''--config'', ''c'', ''--index'', ''t'', ''--input'', ''a'', ''--import_io_workers'', ''0'']"

definition ex_parsed_flags :: flags where
  "ex_parsed_flags = Flags_init\<lparr>fl_config_path := ''c'', fl_index_name := ''t'', fl_input_files := [''a''],
     fl_import_io_workers := 1\<rparr>"

theorem parse_flags_valid_witness:
  "ParseFlags ex_host ex_args = Inr ex_parsed_flags \<and> 1 \<le> fl_import_io_workers ex_parsed_flags"
proof
  show parsed: "ParseFlags ex_host ex_args = Inr ex_parsed_flags" by code_simp
  show "1 \<le> fl_import_io_workers ex_parsed_flags" using parse_flags_valid [OF parsed] by blast
qed

end
