(* ===== verification/ImportSizing.thy ===== *)
theory ImportSizing
  imports FileSource ImportFlags
begin

text \<open>
  How large a table \<open>import_pipeline_main.cc\<close> creates: the estimate of the number of rows of the
  input files, and the number of bucket bits for it. The loop that finds the bits may run for
  ever, so its value is an option.
\<close>

section \<open>The estimate\<close>

definition EstimateCsvDataRowsByLineCount :: "host \<Rightarrow> string \<Rightarrow> u64" where
  "EstimateCsvDataRowsByLineCount H path =
     (case ho_read H path of
        None \<Rightarrow> 0
      | Some text \<Rightarrow> let lines = of_nat (length (getlines text)) :: u64 in if 0 < lines then lines - 1 else 0)"

definition PathViewEndsWithIgnoreCase :: "string \<Rightarrow> string \<Rightarrow> bool" where
  "PathViewEndsWithIgnoreCase path suf =
     (if length path < length suf then False
      else list_all (\<lambda>i. tolower (path ! (length path - length suf + i)) = suf ! i) [0..<length suf])"

text \<open>The rows a Parquet file declares; \<open>meta_rows\<close> is \<open>None\<close> for a reader without metadata.\<close>

definition parquet_rows ::
  "('b, 'f, 'h, 'p) file_env \<Rightarrow> ('p \<Rightarrow> i64 option) \<Rightarrow> status + 'h \<Rightarrow> u64" where
  "parquet_rows env meta_rows infile =
     (case infile of
        Inl st \<Rightarrow> 0
      | Inr h \<Rightarrow> (case fe_parquet env h of
          Inl st \<Rightarrow> 0
        | Inr reader \<Rightarrow> (case meta_rows reader of None \<Rightarrow> 0 | Some n \<Rightarrow> n)))"

definition estimate_file ::
  "host \<Rightarrow> ('b, 'f, 'h, 'p) file_env \<Rightarrow> ('p \<Rightarrow> i64 option) \<Rightarrow> 'f cloud_file_systems \<Rightarrow> string \<Rightarrow> u64" where
  "estimate_file H env meta_rows cfs path =
     (if IsCloudUri path then
        (case ParseCloudUri path of
           None \<Rightarrow> 0
         | Some (scheme, bucket, key) \<Rightarrow>
             (case FsForScheme cfs scheme of
                None \<Rightarrow> 0
              | Some f \<Rightarrow>
                  if PathViewEndsWithIgnoreCase path ''.csv'' then 0
                  else if \<not> PathViewEndsWithIgnoreCase path ''.parquet'' then 0
                  else parquet_rows env meta_rows (fe_open_file env f (bucket @ ''/'' @ key))))
      else if EndsWithExtensionIgnoreCase path ''.csv'' then EstimateCsvDataRowsByLineCount H path
      else if \<not> EndsWithExtensionIgnoreCase path ''.parquet'' then 0
      else parquet_rows env meta_rows (fe_open env path))"

definition EstimateTotalRows ::
  "host \<Rightarrow> ('b, 'f, 'h, 'p) file_env \<Rightarrow> ('p \<Rightarrow> i64 option) \<Rightarrow> string list \<Rightarrow> 'f cloud_file_systems \<Rightarrow> u64" where
  "EstimateTotalRows H env meta_rows files cfs =
     foldl (\<lambda>total path. total + estimate_file H env meta_rows cfs path) 0 files"

section \<open>The bucket bits\<close>

partial_function (option) bucket_loop :: "u64 \<Rightarrow> u32 \<Rightarrow> u64 \<Rightarrow> u32 option" where
  "bucket_loop n_rows bits buckets =
     (if buckets < n_rows then bucket_loop n_rows (bits + 1) (push_bit 1 buckets) else Some bits)"

definition BucketBitsForRows :: "u64 \<Rightarrow> u32 option" where
  "BucketBitsForRows n_rows =
     (if n_rows = 0 then Some 15
      else map_option (\<lambda>bits. if 28 < bits then 28 else bits) (bucket_loop n_rows 1 2))"

text \<open>After \<open>k\<close> rounds there are \<open>2^k\<close> buckets, until the 64 bits are used up.\<close>

lemma unat_pow: "k < 64 \<Longrightarrow> unat (2 ^ k :: u64) = 2 ^ k"
proof -
  assume k: "k < 64"
  have "(2 :: nat) ^ k < 2 ^ 64" using k by (intro power_strict_increasing) simp_all
  moreover have "(2 ^ k :: u64) = word_of_nat (2 ^ k)" by simp
  then have "unat (2 ^ k :: u64) = unat (word_of_nat (2 ^ k) :: u64)" by (simp only:)
  ultimately show ?thesis using k by (simp add: unsigned_of_nat take_bit_nat_eq_self del: of_nat_power)
qed

lemma bucket_loop_finds:
  assumes "unat n_rows \<le> 2 ^ 63"
  shows "j \<le> 63 \<Longrightarrow> \<exists>m \<ge> j. m \<le> 63 \<and> bucket_loop n_rows (of_nat j) (2 ^ j) = Some (of_nat m) \<and>
    unat n_rows \<le> 2 ^ m \<and> (j < m \<longrightarrow> 2 ^ (m - 1) < unat n_rows)"
proof (induction "63 - j" arbitrary: j)
  case 0
  then have j: "j = 63" by simp
  with assms have "\<not> (2 ^ j :: u64) < n_rows" by (simp add: word_less_nat_alt unat_pow)
  with assms j show ?case by (intro exI [of _ 63]) (simp add: bucket_loop.simps)
next
  case (Suc d)
  show ?case
  proof (cases "unat n_rows \<le> 2 ^ j")
    case True
    with Suc.prems have "\<not> (2 ^ j :: u64) < n_rows" using Suc.hyps(2) by (simp add: word_less_nat_alt unat_pow)
    with True Suc.prems show ?thesis by (intro exI [of _ j]) (simp add: bucket_loop.simps)
  next
    case False
    then have less: "(2 ^ j :: u64) < n_rows" using Suc.hyps(2) by (simp add: word_less_nat_alt unat_pow)
    from Suc.hyps Suc.prems have "d = 63 - Suc j" "Suc j \<le> 63" by simp_all
    from Suc.hyps(1) [OF this] obtain m where m: "m \<ge> Suc j" "m \<le> 63"
      "bucket_loop n_rows (of_nat (Suc j)) (2 ^ Suc j) = Some (of_nat m)" "unat n_rows \<le> 2 ^ m"
      "Suc j < m \<longrightarrow> 2 ^ (m - 1) < unat n_rows" by blast
    have "2 ^ (m - 1) < unat n_rows"
    proof (cases "Suc j < m")
      case True
      with m(5) show ?thesis by blast
    next
      case False
      with m(1) have "m = Suc j" by simp
      with \<open>\<not> unat n_rows \<le> 2 ^ j\<close> show ?thesis by simp
    qed
    moreover have "bucket_loop n_rows (of_nat j) (2 ^ j) = Some (of_nat m)"
      using less m(3) by (subst bucket_loop.simps) (simp add: push_bit_eq_mult ac_simps)
    ultimately show ?thesis using m by (intro exI [of _ m]) simp
  qed
qed

lemma bucket_loop_stays:
  assumes "bucket_loop n_rows bits buckets = Some result"
  shows "\<exists>k. \<not> push_bit k buckets < n_rows"
proof (rule bucket_loop.raw_induct [OF _ assms, where P = "\<lambda>n_rows bits buckets result. \<exists>k. \<not> push_bit k buckets < n_rows"])
  fix loop :: "u64 \<Rightarrow> u32 \<Rightarrow> u64 \<Rightarrow> u32 option" and n_rows bits buckets result
  assume IH: "\<And>n_rows bits buckets result. loop n_rows bits buckets = Some result \<Longrightarrow> \<exists>k. \<not> push_bit k buckets < n_rows"
    and step: "(if buckets < n_rows then loop n_rows (bits + 1) (push_bit 1 buckets) else Some bits) = Some result"
  show "\<exists>k. \<not> push_bit k buckets < n_rows"
  proof (cases "buckets < n_rows")
    case True
    with step have "loop n_rows (bits + 1) (push_bit 1 buckets) = Some result" by simp
    from IH [OF this] obtain k where "\<not> push_bit k (push_bit 1 buckets) < n_rows" by blast
    then show ?thesis by (metis push_bit_push_bit)
  next
    case False
    then show ?thesis by (intro exI [of _ 0]) simp
  qed
qed

lemma push_bit_two: "unat (push_bit k (2 :: u64)) \<le> 2 ^ 63"
proof (cases "k < 63")
  case True
  then have "push_bit k (2 :: u64) = 2 ^ Suc k" by (simp add: push_bit_eq_mult)
  also have "unat \<dots> = 2 ^ Suc k" using True by (intro unat_pow) simp
  also have "\<dots> \<le> 2 ^ 63" using True by (intro power_increasing) simp_all
  finally show ?thesis .
next
  case False
  then obtain d where "k = 63 + d" using le_Suc_ex by (metis not_less)
  then have "push_bit k (2 :: u64) = push_bit d (push_bit 63 2)" by (simp only: push_bit_push_bit add.commute)
  also have "push_bit 63 (2 :: u64) = 0" by code_simp
  finally show ?thesis by simp
qed

lemma bucket_loop_result:
  "unat n \<le> 2 ^ 63 \<Longrightarrow> \<exists>m \<ge> 1. m \<le> 63 \<and> bucket_loop n 1 2 = Some (of_nat m) \<and> unat n \<le> 2 ^ m \<and>
      (1 < m \<longrightarrow> 2 ^ (m - 1) < unat n)"
  using bucket_loop_finds [of n 1] by simp

lemma bucket_bits_ends: "BucketBitsForRows n = None \<longleftrightarrow> 2 ^ 63 < unat n"
proof
  assume "BucketBitsForRows n = None"
  with bucket_loop_result [of n] show "2 ^ 63 < unat n"
    by (auto simp: BucketBitsForRows_def not_le [symmetric] split: if_splits)
next
  assume n: "2 ^ 63 < unat n"
  have "bucket_loop n 1 2 = None"
  proof (rule ccontr)
    assume "bucket_loop n 1 2 \<noteq> None"
    then obtain r where "bucket_loop n 1 2 = Some r" by blast
    from bucket_loop_stays [OF this] obtain k where "\<not> push_bit k 2 < n" by blast
    with push_bit_two [of k] n show False by (simp add: word_less_nat_alt)
  qed
  with n show "BucketBitsForRows n = None" by (auto simp: BucketBitsForRows_def)
qed

text \<open>
  C31: The bucket bits are right, and found whenever there are any. The search ends exactly for
  estimates of at most \<open>2^63\<close> rows. Its result for a positive estimate is between 1 and 28; up to
  \<open>2^28\<close> rows it gives at least as many buckets as rows, and with one bit less (from 3 rows on)
  there would be fewer; without an estimate it is 15.
\<close>

theorem bucket_bits_exact:
  "(BucketBitsForRows n \<noteq> None \<longleftrightarrow> unat n \<le> 2 ^ 63) \<and> BucketBitsForRows 0 = Some 15 \<and>
   (BucketBitsForRows n = Some b \<and> n \<noteq> 0 \<longrightarrow>
      1 \<le> unat b \<and> unat b \<le> 28 \<and>
      (unat n \<le> 2 ^ 28 \<longrightarrow> unat n \<le> 2 ^ unat b \<and> (2 < unat n \<longrightarrow> 2 ^ (unat b - 1) < unat n)) \<and>
      (2 ^ 28 \<le> unat n \<longrightarrow> unat b = 28))"
proof (intro conjI impI)
  show ends: "BucketBitsForRows n \<noteq> None \<longleftrightarrow> unat n \<le> 2 ^ 63" by (simp add: bucket_bits_ends not_less)
  show "BucketBitsForRows 0 = Some 15" by (simp add: BucketBitsForRows_def)
  assume b: "BucketBitsForRows n = Some b \<and> n \<noteq> 0"
  with ends bucket_loop_result [of n] obtain m where m: "1 \<le> m" "m \<le> 63" "bucket_loop n 1 2 = Some (of_nat m)" "unat n \<le> 2 ^ m"
    "1 < m \<longrightarrow> 2 ^ (m - 1) < unat n" by auto
  have um: "unat (of_nat m :: u32) = m" using m(2) by (simp add: unsigned_of_nat take_bit_nat_eq_self)
  with b m(3) have ub: "unat b = (if 28 < m then 28 else m)"
    by (auto simp: BucketBitsForRows_def word_less_nat_alt)
  with m(1) show "1 \<le> unat b" "unat b \<le> 28" by simp_all
  { assume n: "unat n \<le> 2 ^ 28"
    have m28: "m \<le> 28"
    proof (rule ccontr)
      assume "\<not> m \<le> 28"
      then have "(2 :: nat) ^ 28 \<le> 2 ^ (m - 1)" by (intro power_increasing) simp_all
      with m(5) n \<open>\<not> m \<le> 28\<close> show False by simp
    qed
    with ub m(4) show "unat n \<le> 2 ^ unat b" by simp
    assume "2 < unat n"
    with m28 ub m(5,1) show "2 ^ (unat b - 1) < unat n" by (cases "1 < m") auto }
  { assume n: "2 ^ 28 \<le> unat n"
    have "28 \<le> m"
    proof (rule ccontr)
      assume "\<not> 28 \<le> m"
      then have "(2 :: nat) ^ m < 2 ^ 28" by (intro power_strict_increasing) simp_all
      with m(4) n show False by simp
    qed
    with ub show "unat b = 28" by simp }
qed

lemma bucket_loop_1000: "BucketBitsForRows 1000 = Some 10"
  unfolding BucketBitsForRows_def by (simp add: bucket_loop.simps push_bit_eq_mult)

theorem bucket_bits_exact_witness:
  "BucketBitsForRows 1000 = Some 10 \<and> (1000 :: nat) \<le> 2 ^ 10 \<and> BucketBitsForRows (2 ^ 63 + 1) = None"
proof -
  from bucket_bits_exact [of 1000 10] bucket_loop_1000 have "(1000 :: nat) \<le> 2 ^ 10" by simp
  moreover from bucket_bits_exact [of "2 ^ 63 + 1" 0] have "BucketBitsForRows (2 ^ 63 + 1) = None" by simp
  ultimately show ?thesis using bucket_loop_1000 by blast
qed

end
