(* ===== verification/InputFiles.thy ===== *)
theory InputFiles
  imports ImportSizing
begin

text \<open>
  Three parts of the import decide by its name what an input is: the collection of a directory
  (\<open>import_pipeline_main.cc\<close>), the expansion of a cloud prefix (\<open>cloud_filesystem.cc\<close>) and the
  source that opens it (\<open>file_source.cc\<close>), each with a function of its own. Here: they agree.
\<close>

lemma all_nth_drop:
  assumes "length t \<le> length s"
  shows "list_all (\<lambda>i. f (s ! (length s - length t + i)) = t ! i) [0..<length t] \<longleftrightarrow> map f (drop (length s - length t) s) = t"
proof -
  let ?n = "length s - length t"
  have "map f (drop ?n s) = t \<longleftrightarrow> (\<forall>i < length t. f (s ! (?n + i)) = t ! i)"
    using assms by (simp add: list_eq_iff_nth_eq)
  then show ?thesis by (auto simp: list_all_iff)
qed

text \<open>The three suffix tests are one.\<close>

definition suffix_ci :: "string \<Rightarrow> string \<Rightarrow> bool" where
  "suffix_ci s suf \<longleftrightarrow> (\<exists>a b. s = a @ b \<and> map tolower b = suf)"

lemma suffix_ci_drop: "suffix_ci s suf \<longleftrightarrow> length suf \<le> length s \<and> map tolower (drop (length s - length suf) s) = suf"
proof
  assume "suffix_ci s suf"
  then obtain a b where "s = a @ b" "map tolower b = suf" by (auto simp: suffix_ci_def)
  then show "length suf \<le> length s \<and> map tolower (drop (length s - length suf) s) = suf" by auto
next
  assume "length suf \<le> length s \<and> map tolower (drop (length s - length suf) s) = suf"
  then show "suffix_ci s suf"
    unfolding suffix_ci_def
    by (intro exI [of _ "take (length s - length suf) s"] exI [of _ "drop (length s - length suf) s"]) simp
qed

lemma suffix_tests:
  "CloudUri.EndsWithIgnoreCase s suf = suffix_ci s suf"
  "EndsWithIgnoreCaseStr s suf = suffix_ci s suf"
  "PathViewEndsWithIgnoreCase s suf = suffix_ci s suf"
  using all_nth_drop [of suf s tolower]
  by (auto simp: CloudUri.EndsWithIgnoreCase_def EndsWithIgnoreCaseStr_def PathViewEndsWithIgnoreCase_def suffix_ci_drop)

lemma suffix_ci_append: "suffix_ci s suf \<Longrightarrow> suffix_ci (t @ s) suf"
  by (metis suffix_ci_def append.assoc)

lemma after_last_suffix: "\<exists>t. s = t @ after_last x s"
  unfolding after_last_def
  by (metis rev_append rev_rev_ident takeWhile_dropWhile_id)

lemma object_suffix: "IsDataObjectPath p \<Longrightarrow> suffix_ci (t @ p) ''.parquet'' \<or> suffix_ci (t @ p) ''.csv''"
  using after_last_suffix [of p "CHR ''/''"]
  by (metis IsDataObjectPath_def suffix_tests(1) suffix_ci_append)

lemma extension_tests: "EndsWithExtensionIgnoreCase p ext \<longleftrightarrow> FileSource.EndsWithIgnoreCase ext p"
  by (simp add: EndsWithExtensionIgnoreCase_def FileSource.EndsWithIgnoreCase_def)

lemma collected:
  assumes "CollectDataFilesUnderDir H dir = Inr files"
  shows "files \<noteq> []" "f \<in> set files \<Longrightarrow> IsImportPipelineDataFile f"
proof -
  from assms obtain entries where "files = sort_key path_key (map snd (filter (\<lambda>(is_file, path). is_file \<and> IsImportPipelineDataFile path) entries))"
    "map snd (filter (\<lambda>(is_file, path). is_file \<and> IsImportPipelineDataFile path) entries) \<noteq> []"
    by (auto simp: CollectDataFilesUnderDir_def Let_def split: if_splits sum.splits)
  then show "files \<noteq> []" "f \<in> set files \<Longrightarrow> IsImportPipelineDataFile f" by (auto simp: filter_empty_conv dest!: arg_cong [of _ "[]" length])
qed

text \<open>Reading an input as a Parquet or a CSV file, local or in a store.\<close>

definition local_reads :: "('b, 'f, 'h, 'p) file_env \<Rightarrow> schema \<Rightarrow> string \<Rightarrow> 'b opened list" where
  "local_reads env S path = [ReadParquetFileBatches env path, ReadCsvFileBatches env S path]"

definition object_reads :: "('b, 'f, 'h, 'p) file_env \<Rightarrow> 'f \<Rightarrow> schema \<Rightarrow> string \<Rightarrow> 'b opened list" where
  "object_reads env f S fs_path =
     [case fe_open_file env f fs_path of Inl st \<Rightarrow> Open_failed (failure_of st) | Inr h \<Rightarrow> opened_of (parquet_reader env h),
      case fe_open_stream env f fs_path of Inl st \<Rightarrow> Open_failed (failure_of st) | Inr h \<Rightarrow> opened_of (csv_reader env S h)]"

text \<open>
  C32: What is found can be read. No input that the program has chosen itself is refused by name
  later: the source reads every file that the collection of a directory yields, and every object
  that the expansion of a prefix takes from the listing of an open store, as a Parquet or a CSV
  file; and a collection that succeeds yields at least one file.
\<close>

theorem found_inputs_accepted:
  "(CollectDataFilesUnderDir H dir = Inr files \<longrightarrow>
      files \<noteq> [] \<and> (\<forall>f \<in> set files. \<not> IsCloudUri f \<longrightarrow> open_input env cloud S f \<in> set (local_reads env S f))) \<and>
   (IsDataObjectPath p \<and> ParseCloudUri (scheme @ ''://'' @ p) = Some (s, bucket, key) \<and> FsForScheme cloud s = Some f \<longrightarrow>
      open_input env cloud S (scheme @ ''://'' @ p) \<in> set (object_reads env f S (bucket @ ''/'' @ key)))"
proof (intro conjI impI ballI)
  assume c: "CollectDataFilesUnderDir H dir = Inr files"
  from collected(1) [OF c] show "files \<noteq> []" .
  fix f assume "f \<in> set files" "\<not> IsCloudUri f"
  with collected(2) [OF c] show "open_input env cloud S f \<in> set (local_reads env S f)"
    by (auto simp: open_input_def open_local_def local_reads_def IsImportPipelineDataFile_def extension_tests)
next
  assume a: "IsDataObjectPath p \<and> ParseCloudUri (scheme @ ''://'' @ p) = Some (s, bucket, key) \<and> FsForScheme cloud s = Some f"
  let ?u = "scheme @ ''://'' @ p"
  from a have u: "ParseCloudUri ?u = Some (s, bucket, key)" by blast
  have "IsCloudUri ?u" using ParseCloudUri_form [OF u] IsCloudUri_scheme by metis
  moreover have "suffix_ci ?u ''.parquet'' \<or> suffix_ci ?u ''.csv''"
    using a object_suffix [of p "scheme @ ''://''"] by simp
  ultimately show "open_input env cloud S ?u \<in> set (object_reads env f S (bucket @ ''/'' @ key))"
    using a u by (auto simp: open_input_def open_cloud_def object_reads_def suffix_tests Let_def simp del: append.simps)
qed

definition ex_walk_host :: host where
  "ex_walk_host = ex_host\<lparr>ho_exists := (\<lambda>p. True), ho_is_directory := (\<lambda>p. True),
     ho_walk := (\<lambda>p. Inr [(True, ''d/b.txt''), (True, ''d/s/a.CSV''), (False, ''d/x.csv''), (True, ''d/b.parquet'')])\<rparr>"

lemma ex_walk: "CollectDataFilesUnderDir ex_walk_host ''d'' = Inr [''d/b.parquet'', ''d/s/a.CSV'']"
  by code_simp

definition ex_closed_env :: "(unit, unit, string, string) file_env" where
  "ex_closed_env = \<lparr>fe_open = (\<lambda>p. Inl (Arrow_error p)), fe_open_file = (\<lambda>f p. Inl (Arrow_error p)),
     fe_open_stream = (\<lambda>f p. Inl (Arrow_error p)), fe_parquet = Inr, fe_batch_reader = (\<lambda>p. Inl (Arrow_error p)),
     fe_csv = (\<lambda>h opts. Inl (Arrow_error h))\<rparr>"

theorem found_inputs_accepted_witness:
  "\<forall>S. open_input ex_closed_env CloudFileSystems_init S ''d/s/a.CSV'' \<in> set (local_reads ex_closed_env S ''d/s/a.CSV'') \<and>
     open_input ex_closed_env (CloudFileSystems_init\<lparr>cf_s3 := Some ()\<rparr>) S ''s3://b/x.CSV'' \<in>
       set (object_reads ex_closed_env () S ''b/x.CSV'')"
proof (intro allI conjI)
  fix S :: schema
  have "\<not> IsCloudUri ''d/s/a.CSV''" by code_simp
  with found_inputs_accepted [THEN conjunct1, THEN mp, OF ex_walk, of ex_closed_env CloudFileSystems_init S]
  show "open_input ex_closed_env CloudFileSystems_init S ''d/s/a.CSV'' \<in> set (local_reads ex_closed_env S ''d/s/a.CSV'')"
    by simp
  have "IsDataObjectPath ''b/x.CSV''" "ParseCloudUri (''s3'' @ ''://'' @ ''b/x.CSV'') = Some (''s3'', ''b'', ''x.CSV'')"
    "FsForScheme (CloudFileSystems_init\<lparr>cf_s3 := Some ()\<rparr>) ''s3'' = Some ()" by code_simp+
  with found_inputs_accepted [THEN conjunct2, of "''b/x.CSV''" "''s3''" "''s3''" "''b''" "''x.CSV''"
      "CloudFileSystems_init\<lparr>cf_s3 := Some ()\<rparr>" "()" ex_closed_env S]
  show "open_input ex_closed_env (CloudFileSystems_init\<lparr>cf_s3 := Some ()\<rparr>) S ''s3://b/x.CSV'' \<in>
       set (object_reads ex_closed_env () S ''b/x.CSV'')"
    by simp
qed

end
