(* ===== verification/ImportSpec.thy ===== *)
theory ImportSpec
  imports WriteSpec PipelineSafety
begin

text \<open>
  An import into an index, whatever its source: the pipeline with \<open>ProcessBatch\<close> as the work of
  the writer. It reports the truth, and the table it leaves does not depend on the order in which
  the batches arrived.
\<close>

text \<open>\<open>ProcessBatch\<close> as \<open>RunKvWriteLoop\<close> calls it.\<close>

definition write_parsed ::
  "('d, 'k) engine \<Rightarrow> ('a, 'b) arrow \<Rightarrow> schema \<Rightarrow> 'b parsed_batch \<Rightarrow> 'k writer \<Rightarrow> (status \<times> 'k writer) option" where
  "write_parsed E A S item w = ProcessBatch E A S (pb_batch item) w"

definition import_sheet :: "('a, 'b) arrow \<Rightarrow> schema \<Rightarrow> 'b parsed_batch list \<Rightarrow> (string \<times> row_view) list" where
  "import_sheet A S bs = concat (map (\<lambda>pb. sheet A S (pb_batch pb) [0..<num_rows A (pb_batch pb)]) bs)"

definition import_rows :: "('a, 'b) arrow \<Rightarrow> 'b parsed_batch list \<Rightarrow> nat" where
  "import_rows A bs = sum_list (map (\<lambda>pb. num_rows A (pb_batch pb)) bs)"

lemma write_parsed_status:
  "ingest_ok E S \<Longrightarrow> pk_importable S \<Longrightarrow>
   \<exists>st w'. write_parsed E A S pb w = Some (st, w') \<and> (st_ok st \<longleftrightarrow> batch_good A S (pb_batch pb))"
  unfolding write_parsed_def by (rule ProcessBatch_status)

lemma all_processed_good:
  assumes "ingest_ok E S" "pk_importable S"
  shows "all_processed (write_parsed E A S) bs w \<longleftrightarrow> (\<forall>pb \<in> set bs. batch_good A S (pb_batch pb))"
proof (induction bs arbitrary: w)
  case (Cons pb bs)
  from write_parsed_status [OF assms, of A pb w] obtain st w'
    where "write_parsed E A S pb w = Some (st, w')" "st_ok st \<longleftrightarrow> batch_good A S (pb_batch pb)" by auto
  with Cons show ?case by simp
qed simp

lemma sink_after_sheet:
  assumes "ingest_ok E S" "pk_importable S" "put_ok E"
  shows "\<forall>pb \<in> set bs. batch_good A S (pb_batch pb) \<Longrightarrow>
    rows_added (table_view E S (wr_index w)) (import_sheet A S bs)
      (table_view E S (wr_index (sink_after (write_parsed E A S) bs w))) \<and>
    wr_rows_imported (sink_after (write_parsed E A S) bs w) =
      wr_rows_imported w + of_nat (length (import_sheet A S bs)) \<and>
    wr_rows_imported (sink_after (write_parsed E A S) bs w) + wr_skipped_pk_null (sink_after (write_parsed E A S) bs w) =
      wr_rows_imported w + wr_skipped_pk_null w + of_nat (import_rows A bs)"
proof (induction bs arbitrary: w)
  case Nil
  then show ?case by (simp add: sink_after_def import_sheet_def import_rows_def rows_added_nil)
next
  case (Cons pb bs)
  let ?b = "pb_batch pb"
  let ?es = "sheet A S ?b [0..<num_rows A ?b]"
  have sheet: "import_sheet A S (pb # bs) = ?es @ import_sheet A S bs" by (simp add: import_sheet_def)
  from Cons.prems have good: "batch_good A S ?b" by simp
  from write_parsed_status [OF assms(1,2), of A pb w] obtain st w1
    where w1: "ProcessBatch E A S ?b w = Some (st, w1)" by (auto simp: write_parsed_def)
  note effect = ProcessBatch_effect [OF assms(1,2) good assms(3) w1]
  have after: "sink_after (write_parsed E A S) (pb # bs) w = sink_after (write_parsed E A S) bs w1"
    by (simp add: sink_after_def write_parsed_def w1)
  have len: "length ?es \<le> num_rows A ?b"
    by (simp add: sheet_def List.map_filter_def order_trans [OF length_filter_le])
  have rows: "(of_nat (length ?es) + of_nat (num_rows A ?b - length ?es) :: u64) = of_nat (num_rows A ?b)"
    using len by (simp only: of_nat_add [symmetric] le_add_diff_inverse)
  have counted: "wr_rows_imported w1 + wr_skipped_pk_null w1 =
      wr_rows_imported w + wr_skipped_pk_null w + of_nat (num_rows A ?b)"
    unfolding effect(2,3) rows [symmetric] by (simp only: ac_simps)
  let ?w2 = "sink_after (write_parsed E A S) bs w1"
  have ih: "rows_added (table_view E S (wr_index w1)) (import_sheet A S bs) (table_view E S (wr_index ?w2)) \<and>
    wr_rows_imported ?w2 = wr_rows_imported w1 + of_nat (length (import_sheet A S bs)) \<and>
    wr_rows_imported ?w2 + wr_skipped_pk_null ?w2 =
      wr_rows_imported w1 + wr_skipped_pk_null w1 + of_nat (import_rows A bs)"
    by (rule Cons.IH) (use Cons.prems in simp)
  have rows_cons: "import_rows A (pb # bs) = num_rows A ?b + import_rows A bs" by (simp add: import_rows_def)
  show ?case
    unfolding after sheet length_append of_nat_add rows_cons
  proof (intro conjI)
    show "rows_added (table_view E S (wr_index w)) (?es @ import_sheet A S bs) (table_view E S (wr_index ?w2))"
      by (rule rows_added_append [OF effect(1) ih [THEN conjunct1]])
    show "wr_rows_imported ?w2 = wr_rows_imported w + (of_nat (length ?es) + of_nat (length (import_sheet A S bs)))"
      using ih by (simp only: effect(2) add.assoc)
    show "wr_rows_imported ?w2 + wr_skipped_pk_null ?w2 =
        wr_rows_imported w + wr_skipped_pk_null w + (of_nat (num_rows A ?b) + of_nat (import_rows A bs))"
      using ih [THEN conjunct2, THEN conjunct2] by (simp only: counted add.assoc)
  qed
qed

lemma import_sheet_perm:
  assumes "mset bs = mset bs'"
  shows "mset (import_sheet A S bs) = mset (import_sheet A S bs')" and "import_rows A bs = import_rows A bs'"
proof -
  have "mset (import_sheet A S cs) = sum_mset (image_mset (\<lambda>pb. mset (sheet A S (pb_batch pb) [0..<num_rows A (pb_batch pb)])) (mset cs))" for cs
    by (induction cs) (simp_all add: import_sheet_def)
  then show "mset (import_sheet A S bs) = mset (import_sheet A S bs')" using assms by simp
  have "import_rows A cs = sum_mset (image_mset (\<lambda>pb. num_rows A (pb_batch pb)) (mset cs))" for cs
    by (induction cs) (simp_all add: import_rows_def)
  then show "import_rows A bs = import_rows A bs'" using assms by simp
qed

lemma mset_Some_inject: "image_mset Some M = image_mset Some N \<longleftrightarrow> M = N"
proof
  assume "image_mset Some M = image_mset Some N"
  then have "image_mset the (image_mset Some M) = image_mset the (image_mset Some N)" by simp
  then show "M = N" by (simp add: multiset.map_comp comp_def)
qed simp

section \<open>Any source\<close>

locale kv_import = import_run advance todo_src todo_loc doomed agrees weight_src weight_loc "write_parsed E A S" True entry
  for advance :: "bool \<Rightarrow> 's \<Rightarrow> 'l \<Rightarrow> 's \<times> 'l \<times> 'b parsed_batch effect"
    and todo_src :: "'s \<Rightarrow> 'b parsed_batch option multiset"
    and todo_loc :: "'l \<Rightarrow> 'b parsed_batch option multiset"
    and doomed :: "'l \<Rightarrow> bool"
    and agrees :: "'s \<Rightarrow> 'l \<Rightarrow> bool"
    and weight_src :: "'s \<Rightarrow> nat"
    and weight_loc :: "'l \<Rightarrow> nat"
    and E :: "('d, 'k) engine"
    and A :: "('a, 'b) arrow"
    and S :: schema
    and entry :: 'l
begin

lemma good_import_ok:
  assumes "ingest_ok E S" "pk_importable S"
    and "run_step\<^sup>*\<^sup>* (pipeline_init capacity workers src entry w0) p" "pl_main p = M_done ok"
    and "todo_src src = image_mset Some (mset bs)" "\<forall>pb \<in> set bs. batch_good A S (pb_batch pb)"
  shows ok
proof (rule run_succeeds [OF assms(3)])
  show "None \<notin># todo_src src" unfolding assms(5) by simp
  show "st_ok st" if "Some b \<in># todo_src src" "write_parsed E A S b w = Some (st, w')" for b w st w'
  proof -
    from that(1) have "b \<in> set bs" unfolding assms(5) by auto
    with assms(6) write_parsed_status [OF assms(1,2), of A b w] that(2) show ?thesis by auto
  qed
qed (use assms(4) in simp_all)

lemma good_import_exists:
  assumes "ingest_ok E S" "pk_importable S"
    and "todo_src src = image_mset Some (mset bs)" "\<forall>pb \<in> set bs. batch_good A S (pb_batch pb)"
  shows "\<exists>p. run_step\<^sup>*\<^sup>* (pipeline_init capacity workers src entry w0) p \<and> pl_main p = M_done True"
proof -
  obtain p ok where run: "run_step\<^sup>*\<^sup>* (pipeline_init capacity workers src entry w0) p"
    "pl_main p = M_done ok" using run_completes by blast
  from good_import_ok [OF assms(1,2) run assms(3,4)] run show ?thesis by auto
qed

lemma import_written:
  assumes "ingest_ok E S" "pk_importable S"
    and "run_step\<^sup>*\<^sup>* (pipeline_init capacity workers src entry w0) p" "pl_main p = M_done True"
  shows "todo_src src = image_mset Some (mset (pl_written p))"
    and "\<forall>pb \<in> set (pl_written p). batch_good A S (pb_batch pb)"
    and "pl_sink p = sink_after (write_parsed E A S) (pl_written p) w0"
  using run_finished [OF assms(3,4)] by (simp_all add: all_processed_good [OF assms(1,2)])

text \<open>The report, for the batches \<open>B\<close> of the source, or none when it cannot be read to its end.\<close>

lemma import_reports:
  assumes "ingest_ok E S" "pk_importable S"
    and "run_step\<^sup>*\<^sup>* (pipeline_init capacity workers src entry w0) p" "pl_main p = M_done ok"
    and tokens: "case B of None \<Rightarrow> None \<in># todo_src src | Some bs \<Rightarrow> todo_src src = image_mset Some (mset bs)"
  shows "ok \<longleftrightarrow> (\<exists>bs. B = Some bs \<and> (\<forall>pb \<in> set bs. batch_good A S (pb_batch pb)))"
    and "ok \<longrightarrow> mset (pl_written p) = mset (the B)"
proof -
  have good: "(\<exists>bs. B = Some bs \<and> (\<forall>pb \<in> set bs. batch_good A S (pb_batch pb))) \<and> mset (pl_written p) = mset (the B)"
    if ok
  proof -
    from that assms(4) have fin: "pl_main p = M_done True" by simp
    note written = import_written [OF assms(1-3) fin]
    have "None \<notin># todo_src src" unfolding written(1) by auto
    with tokens obtain bs where bs: "B = Some bs" "todo_src src = image_mset Some (mset bs)"
      by (auto split: option.splits)
    with written(1) have same: "mset bs = mset (pl_written p)" by (simp add: mset_Some_inject)
    then have "set bs = set (pl_written p)" by (rule mset_eq_setD)
    with bs(1) same written(2) show ?thesis by simp
  qed
  show "ok \<longrightarrow> mset (pl_written p) = mset (the B)" using good by blast
  show "ok \<longleftrightarrow> (\<exists>bs. B = Some bs \<and> (\<forall>pb \<in> set bs. batch_good A S (pb_batch pb)))"
  proof
    assume "\<exists>bs. B = Some bs \<and> (\<forall>pb \<in> set bs. batch_good A S (pb_batch pb))"
    with tokens obtain bs where "todo_src src = image_mset Some (mset bs)" "\<forall>pb \<in> set bs. batch_good A S (pb_batch pb)"
      by auto
    then show ok by (rule good_import_ok [OF assms(1-4)])
  qed (use good in blast)
qed

lemma import_table:
  assumes "ingest_ok E S" "pk_importable S" "put_ok E"
    and "run_step\<^sup>*\<^sup>* (pipeline_init capacity workers src entry w0) p" "pl_main p = M_done True"
    and "todo_src src = image_mset Some (mset bs)"
  shows "rows_added (table_view E S (wr_index w0)) (import_sheet A S bs) (table_view E S (wr_index (pl_sink p))) \<and>
    wr_rows_imported (pl_sink p) = wr_rows_imported w0 + of_nat (length (import_sheet A S bs)) \<and>
    wr_rows_imported (pl_sink p) + wr_skipped_pk_null (pl_sink p) =
      wr_rows_imported w0 + wr_skipped_pk_null w0 + of_nat (import_rows A bs)"
proof -
  note written = import_written [OF assms(1,2,4,5)]
  have same: "mset (pl_written p) = mset bs"
    using written(1) assms(6) by (simp add: mset_Some_inject)
  note perm = import_sheet_perm(1) [OF same, of A S] import_sheet_perm(2) [OF same, of A]
  have len: "length (import_sheet A S (pl_written p)) = length (import_sheet A S bs)"
    using perm(1) by (rule mset_eq_length)
  from sink_after_sheet [OF assms(1-3) written(2), of w0] rows_added_set [OF mset_eq_setD [OF perm(1)]]
  show ?thesis unfolding written(3) [symmetric] len perm(2) by blast
qed

end

end
