(* ===== verification/FileImport.thy ===== *)
theory FileImport
  imports FileSource ImportSpec
begin

text \<open>
  An import of files from its start to its end: the threads of \<open>FileSource\<close>, the queue and the
  writer with \<open>ProcessBatch\<close>. What the import writes does not depend on how the threads
  interleave.
\<close>

section \<open>The files, read one after the other\<close>

text \<open>The batches of a file; \<open>None\<close> when it cannot be read to its end or a batch lacks a column.\<close>

definition file_batches ::
  "('a, 'b) arrow \<Rightarrow> ('b, 'f, 'h, 'p) file_env \<Rightarrow> 'f cloud_file_systems \<Rightarrow> schema \<Rightarrow> string list \<Rightarrow> nat \<Rightarrow>
   'b parsed_batch list option" where
  "file_batches A env cloud S paths fi =
     (case open_input env cloud S (paths ! fi) of
        Opened rd \<Rightarrow>
          if st_ok (rd_end rd) \<and> list_all (\<lambda>b. st_ok (FileSource.ValidateBatchColumns A b S)) (rd_batches rd)
          then Some (map (\<lambda>b. \<lparr>pb_batch = b, pb_path = paths ! fi, pb_file_index_1based = fi + 1\<rparr>) (rd_batches rd))
          else None
      | _ \<Rightarrow> None)"

definition import_batches ::
  "('a, 'b) arrow \<Rightarrow> ('b, 'f, 'h, 'p) file_env \<Rightarrow> 'f cloud_file_systems \<Rightarrow> schema \<Rightarrow> string list \<Rightarrow>
   'b parsed_batch list option" where
  "import_batches A env cloud S paths =
     map_option concat (those (map (file_batches A env cloud S paths) [0..<length paths]))"

lemma list_all_batch_todo:
  "None \<notin> set (map (batch_todo A S path n) bs) \<longleftrightarrow> list_all (\<lambda>b. st_ok (FileSource.ValidateBatchColumns A b S)) bs"
  by (induction bs) (auto simp: batch_todo_def)

lemma map_batch_todo:
  "list_all (\<lambda>b. st_ok (FileSource.ValidateBatchColumns A b S)) bs \<Longrightarrow>
   map (batch_todo A S path n) bs =
     map Some (map (\<lambda>b. \<lparr>pb_batch = b, pb_path = path, pb_file_index_1based = n\<rparr>) bs)"
  by (induction bs) (auto simp: batch_todo_def)

lemma claimed_todo:
  "case file_batches A env cloud S paths fi of
     None \<Rightarrow> None \<in># loc_todo A (Some S) (claimed env cloud S paths fi)
   | Some bs \<Rightarrow> loc_todo A (Some S) (claimed env cloud S paths fi) = image_mset Some (mset bs)"
proof (cases "open_input env cloud S (paths ! fi)")
  case (Opened rd)
  let ?todo = "map (batch_todo A S (paths ! fi) (fi + 1)) (rd_batches rd)"
  show ?thesis
  proof (cases "list_all (\<lambda>b. st_ok (FileSource.ValidateBatchColumns A b S)) (rd_batches rd)")
    case True
    with Opened map_batch_todo [OF True, of "paths ! fi" "fi + 1"] show ?thesis
      by (simp add: file_batches_def claimed_def reader_todo_def del: mset_map map_map)
        (simp add: multiset.map_comp comp_def)
  next
    case False
    with list_all_batch_todo have "None \<in> set ?todo" by metis
    then have "None \<in># mset ?todo" by (simp only: set_mset_mset)
    with False Opened show ?thesis
      by (simp add: file_batches_def claimed_def reader_todo_def del: mset_map)
  qed
qed (simp_all add: file_batches_def claimed_def)

lemma over_files_todo:
  "case map_option concat (those (map (file_batches A env cloud S paths) fis)) of
     None \<Rightarrow> None \<in># sum_list (map (\<lambda>i. loc_todo A (Some S) (claimed env cloud S paths i)) fis)
   | Some bs \<Rightarrow> sum_list (map (\<lambda>i. loc_todo A (Some S) (claimed env cloud S paths i)) fis) = image_mset Some (mset bs)"
proof (induction fis)
  case (Cons i fis)
  with claimed_todo [where A = A and env = env and cloud = cloud and S = S and paths = paths and fi = i] show ?case
    by (auto split: option.splits)
qed simp

lemma files_todo_batches:
  "case import_batches A env cloud S paths of
     None \<Rightarrow> None \<in># files_todo A env cloud (Some S) paths 0
   | Some bs \<Rightarrow> files_todo A env cloud (Some S) paths 0 = image_mset Some (mset bs)"
  using over_files_todo [where A = A and env = env and cloud = cloud and S = S and paths = paths and fis = "[0..<length paths]"]
  unfolding import_batches_def over_files_def option.sel .

section \<open>The run\<close>

interpretation file_import: kv_import "ProduceLoop A env cloud (Some S) paths"
    "files_todo A env cloud (Some S) paths" "loc_todo A (Some S)" loc_doomed "\<lambda>_ _. True"
    "files_weight env cloud (Some S) paths" loc_weight E A S F_entry
  for A env cloud S paths E
  by unfold_locales (simp_all add: write_parsed_def ProcessBatch_returns)

abbreviation file_import_step ::
  "('d, 'k) engine \<Rightarrow> ('a, 'b) arrow \<Rightarrow> ('b, 'f, 'h, 'p) file_env \<Rightarrow> 'f cloud_file_systems \<Rightarrow> schema \<Rightarrow> string list \<Rightarrow>
   (nat, 'b file_loc, 'b parsed_batch, 'k writer) pipeline \<Rightarrow> (nat, 'b file_loc, 'b parsed_batch, 'k writer) pipeline \<Rightarrow> bool" where
  "file_import_step E A env cloud S paths \<equiv>
     pipeline_step (ProduceLoop A env cloud (Some S) paths) (write_parsed E A S) True"

abbreviation file_import_init ::
  "nat \<Rightarrow> nat \<Rightarrow> 'k writer \<Rightarrow> (nat, 'b file_loc, 'b parsed_batch, 'k writer) pipeline" where
  "file_import_init capacity io_workers w0 \<equiv> pipeline_init capacity io_workers 0 F_entry w0"

section \<open>The whole import\<close>

lemma import_batches_tokens:
  "import_batches A env cloud S paths = Some bs \<Longrightarrow> files_todo A env cloud (Some S) paths 0 = image_mset Some (mset bs)"
  using files_todo_batches [where A = A and env = env and cloud = cloud and S = S and paths = paths] by simp

text \<open>An example: a local Parquet file and a CSV object, one batch each.\<close>

definition ex_batch2 :: ref_batch where
  "ex_batch2 = \<lparr>rb_rows = 1, rb_columns =
     [(''id'', Ref_array AT_INT64 [C_int 7]), (''name'', Ref_array AT_STRING [C_str ''c''])]\<rparr>"

definition ex_env :: "(ref_batch, unit, string, string) file_env" where
  "ex_env = \<lparr>fe_open = (\<lambda>path. if path = ''d/a.parquet'' then Inr path else Inl (Arrow_error ''not found'')),
     fe_open_file = (\<lambda>f path. Inl (Arrow_error ''not found'')),
     fe_open_stream = (\<lambda>f path. if path = ''b/x.csv'' then Inr path else Inl (Arrow_error ''not found'')),
     fe_parquet = (\<lambda>h. Inr h),
     fe_batch_reader = (\<lambda>h. Inr \<lparr>rd_batches = [ex_batch], rd_end = Status_OK\<rparr>),
     fe_csv = (\<lambda>h opts. Inr \<lparr>rd_batches = [ex_batch2], rd_end = Status_OK\<rparr>)\<rparr>"

definition ex_paths :: "string list" where
  "ex_paths = [''d/a.parquet'', ''oss://b/x.csv'']"

abbreviation ex_cloud :: "unit cloud_file_systems" where
  "ex_cloud \<equiv> CloudFileSystems_init\<lparr>cf_oss := Some ()\<rparr>"

definition ex_parsed :: "ref_batch parsed_batch list" where
  "ex_parsed = [\<lparr>pb_batch = ex_batch, pb_path = ''d/a.parquet'', pb_file_index_1based = 1\<rparr>,
     \<lparr>pb_batch = ex_batch2, pb_path = ''oss://b/x.csv'', pb_file_index_1based = 2\<rparr>]"

lemma ex_import_batches: "import_batches ref_arrow ex_env ex_cloud ex_import_schema ex_paths = Some ex_parsed"
  by code_simp

lemma ex_import_good: "\<forall>pb \<in> set ex_parsed. batch_good ref_arrow ex_import_schema (pb_batch pb)"
proof -
  have "list_all (\<lambda>pb. batch_good ref_arrow ex_import_schema (pb_batch pb)) ex_parsed" by code_simp
  then show ?thesis by (simp add: list_all_iff)
qed

lemma ex_files_ok: "ingest_ok (ref_engine ex_import_schema) ex_import_schema" "pk_importable ex_import_schema"
  using ex_import_ok by (simp_all add: import_ok_def)

text \<open>
  C2: An import of files reports the truth, whatever the interleaving of its threads, the number
  of readers and the capacity of the queue: when it has ended, it reports success exactly when
  every file could be opened and read to its end, no batch lacked a column, and every row of
  every batch had a null key or cells that fit the schema. On success the batches that were
  written are exactly the batches of the files, each as often as it occurs, each tagged with its
  file.
\<close>

theorem file_import_truthful:
  assumes "ingest_ok E S" "pk_importable S"
    and "(file_import_step E A env cloud S paths)\<^sup>*\<^sup>* (file_import_init capacity io_workers w0) p"
    and "pl_main p = M_done ok"
  shows "(ok \<longleftrightarrow> (\<exists>bs. import_batches A env cloud S paths = Some bs \<and> (\<forall>pb \<in> set bs. batch_good A S (pb_batch pb)))) \<and>
    (ok \<longrightarrow> mset (pl_written p) = mset (the (import_batches A env cloud S paths)))"
    using file_import.import_reports [OF assms files_todo_batches] by blast

theorem file_import_truthful_witness:
  "\<exists>p. (file_import_step (ref_engine ex_import_schema) ref_arrow ex_env ex_cloud ex_import_schema ex_paths)\<^sup>*\<^sup>*
      (file_import_init 1 2 ex_writer) p \<and> pl_main p = M_done True \<and> mset (pl_written p) = mset ex_parsed"
proof -
  from file_import.good_import_exists [OF ex_files_ok import_batches_tokens [OF ex_import_batches] ex_import_good] obtain p
    where run: "(file_import_step (ref_engine ex_import_schema) ref_arrow ex_env ex_cloud ex_import_schema ex_paths)\<^sup>*\<^sup>*
      (file_import_init 1 2 ex_writer) p" "pl_main p = M_done True" by blast
  from file_import_truthful [OF ex_files_ok run] run show ?thesis
    unfolding ex_import_batches by auto
qed

text \<open>
  C3: What an import of files leaves in the table does not depend on the order in which the
  threads read and write. When it has ended with success, the first counter has grown by the
  number of rows of all files that have a key, and the two counters together by the number of
  rows; a key that no row has holds what it held, and a key of the rows holds one of these rows or
  the row it held before. This determines the table at every key that is new and that one row has.
  So where the rows have keys of their own (no two rows of the files share a key, none is in the
  table), the table is the old one with exactly the keyed rows of all files added; for a key that
  several rows have, which of them it holds may depend on the order.
\<close>

theorem file_import_table:
  assumes "ingest_ok E S" "pk_importable S" "put_ok E"
    and "(file_import_step E A env cloud S paths)\<^sup>*\<^sup>* (file_import_init capacity io_workers w0) p"
    and "pl_main p = M_done True"
    and "import_batches A env cloud S paths = Some bs"
  shows "(let before = table_view E S (wr_index w0); after = table_view E S (wr_index (pl_sink p));
              rows = import_sheet A S bs in
      rows_added before rows after \<and> (fresh_rows before rows \<longrightarrow> after = before ++ map_of rows)) \<and>
    wr_rows_imported (pl_sink p) = wr_rows_imported w0 + of_nat (length (import_sheet A S bs)) \<and>
    wr_rows_imported (pl_sink p) + wr_skipped_pk_null (pl_sink p) =
      wr_rows_imported w0 + wr_skipped_pk_null w0 + of_nat (import_rows A bs)"
  using file_import.import_table [OF assms(1-5) import_batches_tokens [OF assms(6)]] rows_added_fresh
  unfolding Let_def by blast

theorem file_import_table_witness:
  "\<exists>p. (file_import_step (ref_engine ex_import_schema) ref_arrow ex_env ex_cloud ex_import_schema ex_paths)\<^sup>*\<^sup>*
      (file_import_init 1 2 ex_writer) p \<and> pl_main p = M_done True \<and> wr_rows_imported (pl_sink p) = 3"
proof -
  let ?E = "ref_engine ex_import_schema" and ?S = ex_import_schema
  from file_import.good_import_exists [OF ex_files_ok import_batches_tokens [OF ex_import_batches] ex_import_good] obtain p
    where run: "(file_import_step ?E ref_arrow ex_env ex_cloud ?S ex_paths)\<^sup>*\<^sup>* (file_import_init 1 2 ex_writer) p"
      "pl_main p = M_done True" by blast
  have l: "length (import_sheet ref_arrow ?S ex_parsed) = 3" by code_simp
  have "wr_rows_imported (pl_sink p) = wr_rows_imported ex_writer + of_nat 3"
    using file_import_table [OF ex_files_ok ref_put_ok run ex_import_batches] unfolding l by blast
  then show ?thesis using run by (auto simp: ex_writer_def)
qed

text \<open>
  C4: An import of files always ends. No run is longer than a bound computed from the batches of
  the files and the number of threads, so no thread loops or runs for ever, and as long as the
  import has not ended some thread can take a step: the threads never all wait for each other,
  errors and aborts included.
\<close>

theorem file_import_ends:
  "(\<forall>n p. (file_import_step E A env cloud S paths ^^ n) (file_import_init capacity io_workers w0) p \<longrightarrow>
      n \<le> 4 * (files_weight env cloud (Some S) paths 0 + 6 * max 1 io_workers) + 7 \<and>
      ((\<exists>ok. pl_main p = M_done ok) \<or> (\<exists>p'. file_import_step E A env cloud S paths p p'))) \<and>
   (\<exists>p ok. (file_import_step E A env cloud S paths)\<^sup>*\<^sup>* (file_import_init capacity io_workers w0) p \<and> pl_main p = M_done ok)"
proof (intro conjI allI impI)
  fix n p
  assume run: "(file_import_step E A env cloud S paths ^^ n) (file_import_init capacity io_workers w0) p"
  show "n \<le> 4 * (files_weight env cloud (Some S) paths 0 + 6 * max 1 io_workers) + 7"
    using file_import.run_ends(1) [OF run] by simp
  show "(\<exists>ok. pl_main p = M_done ok) \<or> (\<exists>p'. file_import_step E A env cloud S paths p p')"
    by (rule file_import.run_ends(2) [OF run])
next
  show "\<exists>p ok. (file_import_step E A env cloud S paths)\<^sup>*\<^sup>* (file_import_init capacity io_workers w0) p \<and> pl_main p = M_done ok"
    by (rule file_import.run_completes)
qed

theorem file_import_ends_witness:
  "\<exists>p ok. (file_import_step (ref_engine ex_import_schema) ref_arrow ex_env ex_cloud ex_import_schema [''x''])\<^sup>*\<^sup>*
      (file_import_init 1 3 ex_writer) p \<and> pl_main p = M_done ok"
  using file_import_ends by blast

end
