(* ===== verification/MysqlSource.thy ===== *)
theory MysqlSource
  imports WriteWorker PipelineSafety
begin

text \<open>
  \<open>indexer/source/sql/mysql_wire_source.cc\<close>: one thread streams the rows of a query into record
  batches. The MySQL client and Arrow's builders are parameters: what connecting and each
  statement answer, the columns and rows of the result, and the array or error that finishing a
  builder gives. Appending to a builder fails only when memory is exhausted, which is left out.
\<close>

section \<open>Columns\<close>

definition NameEqualInsensitive :: "string \<Rightarrow> string \<Rightarrow> bool" where
  "NameEqualInsensitive a b =
     (if length a \<noteq> length b then False
      else list_all (\<lambda>i. tolower (a ! i) = tolower (b ! i)) [0..<length a])"

definition ValidateNoArrayFields :: "schema \<Rightarrow> status" where
  "ValidateNoArrayFields S =
     (case find fd_array (sc_fields S) of
        Some fp \<Rightarrow> Invalid (''MysqlWireSource: array fields not supported ('' @ fd_name fp @ ''); CAST in SQL or use file import'')
      | None \<Rightarrow> Status_OK)"

definition arrow_type_of :: "field_def \<Rightarrow> arrow_type" where
  "arrow_type_of d =
     (case fd_type d of
        DT_Bool \<Rightarrow> AT_BOOL
      | DT_Int32 \<Rightarrow> AT_INT32
      | DT_Int64 \<Rightarrow> AT_INT64
      | DT_Float32 \<Rightarrow> AT_FLOAT
      | DT_Float64 \<Rightarrow> AT_DOUBLE
      | DT_String \<Rightarrow> AT_STRING
      | DT_Bytes \<Rightarrow> AT_STRING)"

definition ArrowSchemaFromYikv :: "schema \<Rightarrow> (string \<times> arrow_type) list" where
  "ArrowSchemaFromYikv S = map (\<lambda>d. (fd_name d, arrow_type_of d)) (sc_fields S)"

text \<open>The loop over the result's columns for one field: \<open>found\<close> so far, from column \<open>j\<close> on.\<close>

fun find_column :: "field_def \<Rightarrow> string list \<Rightarrow> nat \<Rightarrow> nat option \<Rightarrow> status + nat option" where
  "find_column d [] j found = Inr found"
| "find_column d (colname # cols) j found =
     (if \<not> NameEqualInsensitive (fd_name d) colname then find_column d cols (j + 1) found
      else if found \<noteq> None then
        Inl (Invalid (''MysqlWireSource: ambiguous duplicate name for column '' @ fd_name d))
      else find_column d cols (j + 1) (Some j))"

fun MapColumns :: "field_def list \<Rightarrow> string list \<Rightarrow> status + nat list" where
  "MapColumns [] mfields = Inr []"
| "MapColumns (d # ds) mfields =
     (case find_column d mfields 0 None of
        Inl st \<Rightarrow> Inl st
      | Inr None \<Rightarrow> Inl (Invalid (''MysqlWireSource: result set missing column: '' @ fd_name d))
      | Inr (Some j) \<Rightarrow> (case MapColumns ds mfields of Inl st \<Rightarrow> Inl st | Inr js \<Rightarrow> Inr (j # js)))"

section \<open>Cells\<close>

text \<open>
  A column value is null or its text (\<open>data\<close> up to \<open>len\<close>, followed by a NUL). The result is the
  cell appended. \<open>strncasecmp\<close> with the length of both compares without case.
\<close>

definition AppendBool :: "string option \<Rightarrow> status + cell" where
  "AppendBool data =
     (case data of
        None \<Rightarrow> Inr C_null
      | Some s \<Rightarrow>
          if s = ''0'' \<or> s = ''1'' then Inr (C_bool (s = ''1''))
          else if length s = 4 \<and> lower s = ''true'' then Inr (C_bool True)
          else if length s = 5 \<and> lower s = ''false'' then Inr (C_bool False)
          else (case c_strtol s of
            (v, consumed) \<Rightarrow>
              if consumed = 0 \<or> consumed \<noteq> length s then Inl (Invalid ''MysqlWireSource: bool parse failed'')
              else Inr (C_bool (v \<noteq> 0))))"

definition AppendInt32 :: "string option \<Rightarrow> status + cell" where
  "AppendInt32 data =
     (case data of
        None \<Rightarrow> Inr C_null
      | Some s \<Rightarrow>
          if length s = 0 then Inl (Invalid ''MysqlWireSource: empty int32'')
          else (case c_strtol s of
            (v, consumed) \<Rightarrow>
              if consumed \<noteq> length s then Inl (Invalid ''MysqlWireSource: int32 parse failed'')
              else if v > 2147483647 \<or> v < - 2147483648 then Inl (Invalid ''MysqlWireSource: int32 out of range'')
              else Inr (C_int v)))"

definition AppendInt64 :: "string option \<Rightarrow> status + cell" where
  "AppendInt64 data =
     (case data of
        None \<Rightarrow> Inr C_null
      | Some s \<Rightarrow>
          if length s = 0 then Inl (Invalid ''MysqlWireSource: empty int64'')
          else (case c_strtol s of
            (v, consumed) \<Rightarrow>
              if consumed \<noteq> length s then Inl (Invalid ''MysqlWireSource: int64 parse failed'')
              else Inr (C_int v)))"

text \<open>\<open>strtof\<close> and \<open>strtod\<close> are parameters: the number and the characters consumed.\<close>

definition AppendFloat :: "(string \<Rightarrow> f32 \<times> nat) \<Rightarrow> string option \<Rightarrow> status + cell" where
  "AppendFloat strtof data =
     (case data of
        None \<Rightarrow> Inr C_null
      | Some s \<Rightarrow>
          if length s = 0 then Inl (Invalid ''MysqlWireSource: empty float'')
          else (case strtof s of
            (v, consumed) \<Rightarrow>
              if consumed \<noteq> length s then Inl (Invalid ''MysqlWireSource: float parse failed'')
              else Inr (C_f32 v)))"

definition AppendDouble :: "(string \<Rightarrow> f64 \<times> nat) \<Rightarrow> string option \<Rightarrow> status + cell" where
  "AppendDouble strtod data =
     (case data of
        None \<Rightarrow> Inr C_null
      | Some s \<Rightarrow>
          if length s = 0 then Inl (Invalid ''MysqlWireSource: empty double'')
          else (case strtod s of
            (v, consumed) \<Rightarrow>
              if consumed \<noteq> length s then Inl (Invalid ''MysqlWireSource: double parse failed'')
              else Inr (C_f64 v)))"

definition AppendUtf8 :: "string option \<Rightarrow> status + cell" where
  "AppendUtf8 data = (case data of None \<Rightarrow> Inr C_null | Some s \<Rightarrow> Inr (C_str s))"

definition AppendForField ::
  "(string \<Rightarrow> f32 \<times> nat) \<Rightarrow> (string \<Rightarrow> f64 \<times> nat) \<Rightarrow> field_def \<Rightarrow> string option \<Rightarrow> status + cell" where
  "AppendForField strtof strtod def data =
     (case fd_type def of
        DT_Bool \<Rightarrow> AppendBool data
      | DT_Int32 \<Rightarrow> AppendInt32 data
      | DT_Int64 \<Rightarrow> AppendInt64 data
      | DT_Float32 \<Rightarrow> AppendFloat strtof data
      | DT_Float64 \<Rightarrow> AppendDouble strtod data
      | DT_String \<Rightarrow> AppendUtf8 data
      | DT_Bytes \<Rightarrow> AppendUtf8 data)"

section \<open>The connection\<close>

record mysql_config =
  mc_host :: string
  mc_port :: u16
  mc_user :: string
  mc_password :: string
  mc_database :: string
  mc_query :: string
  mc_init_sql :: "string list"
  mc_batch_rows :: u64

record mysql_result =
  mr_columns :: "string list"
  mr_rows :: "string option list list"
  mr_error :: "string option"

text \<open>
  What the client library answers: \<open>mysql_init\<close>, \<open>mysql_options\<close>, \<open>mysql_real_connect\<close> (the error,
  if any), and for a statement after those already run on the connection its error, its number of
  columns and, for \<open>mysql_use_result\<close>, the result or none with the text of the error.
\<close>

record mysql =
  my_init :: bool
  my_charset :: bool
  my_connect :: "mysql_config \<Rightarrow> string option"
  my_query_error :: "string list \<Rightarrow> string \<Rightarrow> string option"
  my_field_count :: "string list \<Rightarrow> string \<Rightarrow> nat"
  my_use_result :: "string list \<Rightarrow> string \<Rightarrow> mysql_result option"
  my_use_error :: string
  my_strtof :: "string \<Rightarrow> f32 \<times> nat"
  my_strtod :: "string \<Rightarrow> f64 \<times> nat"

text \<open>Arrow's builders: \<open>Finish\<close> on the cells appended, \<open>length\<close> and \<open>RecordBatch::Make\<close>.\<close>

record ('a, 'b) builders =
  bu_finish :: "arrow_type \<Rightarrow> cell list \<Rightarrow> status + 'a"
  bu_length :: "'a \<Rightarrow> nat"
  bu_make :: "(string \<times> arrow_type) list \<Rightarrow> nat \<Rightarrow> 'a list \<Rightarrow> 'b option"

definition mysql_connect :: "mysql \<Rightarrow> mysql_config \<Rightarrow> status" where
  "mysql_connect M cfg =
     (if \<not> my_init M then OutOfMemory ''mysql_init failed''
      else if \<not> my_charset M then Invalid ''MysqlWireSource: mysql_options MYSQL_SET_CHARSET_NAME''
      else case my_connect M cfg of
        Some e \<Rightarrow> Invalid (''MysqlWireSource connect failed: '' @ e)
      | None \<Rightarrow> Status_OK)"

definition RunQuery :: "mysql \<Rightarrow> string list \<Rightarrow> string \<Rightarrow> status" where
  "RunQuery M before sql =
     (case my_query_error M before sql of
        Some e \<Rightarrow> Invalid (''MysqlWireSource SQL error: '' @ e)
      | None \<Rightarrow>
          if my_field_count M before sql \<noteq> 0 then
            Invalid ''MysqlWireSource: init SQL returned a result set (use non-SELECT or consume)''
          else Status_OK)"

text \<open>The query: an error, no result set, or the result.\<close>

definition mysql_run :: "mysql \<Rightarrow> mysql_config \<Rightarrow> string list \<Rightarrow> status + mysql_result option" where
  "mysql_run M cfg before =
     (case my_query_error M before (mc_query cfg) of
        Some e \<Rightarrow> Inl (Invalid (''MysqlWireSource query error: '' @ e))
      | None \<Rightarrow>
          (case my_use_result M before (mc_query cfg) of
             Some result \<Rightarrow> Inr (Some result)
           | None \<Rightarrow>
               if my_field_count M before (mc_query cfg) \<noteq> 0 then
                 Inl (Invalid (''MysqlWireSource: mysql_use_result failed: '' @ my_use_error M))
               else Inr None))"

section \<open>Batches\<close>

text \<open>\<open>FlushBatch\<close> up to its push: an error, nothing to push, or the batch.\<close>

fun finish_all :: "('a, 'b) builders \<Rightarrow> (arrow_type \<times> cell list) list \<Rightarrow> int \<Rightarrow> 'a list \<Rightarrow> status + int \<times> 'a list" where
  "finish_all B [] nrows arrays = Inr (nrows, arrays)"
| "finish_all B ((t, cells) # bs) nrows arrays =
     (case bu_finish B t cells of
        Inl st \<Rightarrow> Inl (if st_ok st then Arrow_error [] else st)
      | Inr arr \<Rightarrow>
          if nrows < 0 then finish_all B bs (int (bu_length B arr)) (arrays @ [arr])
          else if int (bu_length B arr) \<noteq> nrows then Inl (Invalid ''MysqlWireSource: ragged builders'')
          else finish_all B bs nrows (arrays @ [arr]))"

definition FlushBatch ::
  "('a, 'b) builders \<Rightarrow> (string \<times> arrow_type) list \<Rightarrow> (arrow_type \<times> cell list) list \<Rightarrow> status + 'b option" where
  "FlushBatch B aschema bs =
     (case finish_all B bs (- 1) [] of
        Inl st \<Rightarrow> Inl st
      | Inr (nrows, arrays) \<Rightarrow>
          if nrows \<le> 0 then Inr None
          else (case bu_make B aschema (nat nrows) arrays of
            None \<Rightarrow> Inl (Invalid ''MysqlWireSource: RecordBatch::Make failed'')
          | Some batch \<Rightarrow> Inr (Some batch)))"

definition new_builders :: "schema \<Rightarrow> (arrow_type \<times> cell list) list" where
  "new_builders S = map (\<lambda>d. (arrow_type_of d, [])) (sc_fields S)"

definition mysql_batch :: "'b \<Rightarrow> 'b parsed_batch" where
  "mysql_batch b = \<lparr>pb_batch = b, pb_path = ''mysql:'', pb_file_index_1based = 0\<rparr>"

section \<open>The threads\<close>

text \<open>
  Where a thread of \<open>ProduceLoop\<close> stands. \<open>Q_test l\<close>: before a test of the flag that aborts or
  goes on at \<open>l\<close>; \<open>Q_init before rest\<close>: the statements run and to run; \<open>Q_fetch\<close>: the head of the
  loop, with the column indices, the error at the end of the result, the builders, the rows in
  them and the rows to come; \<open>Q_cell\<close>: in a row, with the fields to come; \<open>Q_flush\<close> to
  \<open>Q_flushed\<close>: in \<open>FlushBatch\<close>, in the loop (\<open>Some\<close> of the rows to come) or after it (\<open>None\<close>).
\<close>

type_synonym my_context = "nat list \<times> string option"
type_synonym my_builders = "(arrow_type \<times> cell list) list"
type_synonym my_row = "string option list"

datatype 'b mysql_loc = Q_entry | Q_leader | Q_error status | Q_abort | Q_return
  | Q_test "'b mysql_loc" | Q_connect | Q_init "string list" "string list" | Q_query "string list"
  | Q_fetch my_context my_builders u64 "my_row list"
  | Q_cell my_context my_builders u64 "nat list" my_row "my_row list"
  | Q_last my_context my_builders u64
  | Q_fetch_error string my_context my_builders u64 | Q_fetch_abort my_context my_builders u64
  | Q_flush my_context my_builders "my_row list option"
  | Q_push 'b my_context "my_row list option"
  | Q_flush_error status my_context "my_row list option" | Q_flush_abort status my_context "my_row list option"
  | Q_flushed status my_context "my_row list option" | Q_resume my_context "my_row list"

text \<open>\<open>err.Set(st); if (err.failed) { q.Abort(); return; }\<close>: setting an OK status does nothing.\<close>

definition set_test :: "status \<Rightarrow> 'b mysql_loc \<Rightarrow> 'b mysql_loc" where
  "set_test st l = (if st_ok st then Q_test l else Q_error st)"

definition batch_sz :: "mysql_config \<Rightarrow> u64" where
  "batch_sz cfg = (if mc_batch_rows cfg < 1 then 4096 else mc_batch_rows cfg)"

definition mysql_value :: "my_row \<Rightarrow> nat \<Rightarrow> string option" where
  "mysql_value row j = (if j < length row then row ! j else None)"

text \<open>A field of a row appended to its builder.\<close>

definition append_cell ::
  "mysql \<Rightarrow> schema \<Rightarrow> nat list \<Rightarrow> my_row \<Rightarrow> nat \<Rightarrow> my_builders \<Rightarrow> status + my_builders" where
  "append_cell M S col_index row fi bs =
     (case AppendForField (my_strtof M) (my_strtod M) (sc_fields S ! fi) (mysql_value row (col_index ! fi)) of
        Inl st \<Rightarrow> Inl st
      | Inr c \<Rightarrow> Inr (bs[fi := (fst (bs ! fi), snd (bs ! fi) @ [c])]))"

definition query_loc :: "mysql \<Rightarrow> mysql_config \<Rightarrow> schema \<Rightarrow> string list \<Rightarrow> 'b mysql_loc" where
  "query_loc M cfg S before =
     (case mysql_run M cfg before of
        Inl st \<Rightarrow> Q_error st
      | Inr None \<Rightarrow> Q_return
      | Inr (Some result) \<Rightarrow>
          (case MapColumns (sc_fields S) (mr_columns result) of
             Inl st \<Rightarrow> Q_error st
           | Inr col_index \<Rightarrow> Q_test (Q_fetch (col_index, mr_error result) (new_builders S) 0 (mr_rows result))))"

text \<open>One step inside the loop over the rows and in \<open>FlushBatch\<close>.\<close>

fun rows_step ::
  "mysql \<Rightarrow> mysql_config \<Rightarrow> ('a, 'b) builders \<Rightarrow> schema \<Rightarrow> bool \<Rightarrow> 'b mysql_loc \<Rightarrow>
   'b mysql_loc \<times> 'b parsed_batch effect" where
  "rows_step M cfg B S failed (Q_fetch ctx bs in_batch rows) =
     ((if failed then Q_last ctx bs in_batch
       else case rows of
         [] \<Rightarrow> (case snd ctx of Some e \<Rightarrow> Q_fetch_error e ctx bs in_batch | None \<Rightarrow> Q_last ctx bs in_batch)
       | row # rest \<Rightarrow> Q_cell ctx bs in_batch [0..<length (sc_fields S)] row rest), E_tau)"
| "rows_step M cfg B S failed (Q_cell ctx bs in_batch fis row rows) =
     ((case fis of
         fi # fis \<Rightarrow>
           (case append_cell M S (fst ctx) row fi bs of
              Inl st \<Rightarrow> Q_error st
            | Inr bs \<Rightarrow> Q_test (Q_cell ctx bs in_batch fis row rows))
       | [] \<Rightarrow>
           if batch_sz cfg \<le> in_batch + 1 then Q_flush ctx bs (Some rows)
           else Q_fetch ctx bs (in_batch + 1) rows), E_tau)"
| "rows_step M cfg B S failed (Q_fetch_error e ctx bs in_batch) =
     (Q_fetch_abort ctx bs in_batch, E_set (Invalid (''MysqlWireSource fetch: '' @ e)))"
| "rows_step M cfg B S failed (Q_fetch_abort ctx bs in_batch) = (Q_last ctx bs in_batch, E_abort)"
| "rows_step M cfg B S failed (Q_last ctx bs in_batch) =
     ((if 0 < in_batch then Q_flush ctx bs None else Q_return), E_tau)"
| "rows_step M cfg B S failed (Q_flush ctx bs rest) =
     ((case FlushBatch B (ArrowSchemaFromYikv S) bs of
         Inl st \<Rightarrow> Q_flush_error st ctx rest
       | Inr None \<Rightarrow> Q_flushed Status_OK ctx rest
       | Inr (Some batch) \<Rightarrow> Q_push batch ctx rest), E_tau)"
| "rows_step M cfg B S failed (Q_push batch ctx rest) = (Q_flushed Status_OK ctx rest, E_push (mysql_batch batch))"
| "rows_step M cfg B S failed (Q_flush_error st ctx rest) = (Q_flush_abort st ctx rest, E_set st)"
| "rows_step M cfg B S failed (Q_flush_abort st ctx rest) = (Q_flushed st ctx rest, E_abort)"
| "rows_step M cfg B S failed (Q_flushed st ctx rest) =
     ((case rest of Some rows \<Rightarrow> Q_resume ctx rows | None \<Rightarrow> Q_return), E_set st)"
| "rows_step M cfg B S failed (Q_resume ctx rows) =
     ((if failed then Q_return else Q_fetch ctx (new_builders S) 0 rows), E_tau)"
| "rows_step M cfg B S failed l = (l, E_tau)"

text \<open>One step of a thread; the state is \<open>consumed_\<close>. Statements run outside the shared state.\<close>

fun mysql_ProduceLoop ::
  "mysql \<Rightarrow> mysql_config \<Rightarrow> ('a, 'b) builders \<Rightarrow> schema option \<Rightarrow> bool \<Rightarrow> bool \<Rightarrow> 'b mysql_loc \<Rightarrow>
   bool \<times> 'b mysql_loc \<times> 'b parsed_batch effect" where
  "mysql_ProduceLoop M cfg B schema failed consumed Q_entry =
     (if consumed then (consumed, Q_entry, E_exit) else (True, Q_leader, E_tau))"
| "mysql_ProduceLoop M cfg B schema failed consumed Q_leader =
     (consumed, (case schema of
        None \<Rightarrow> Q_error (Invalid ''MysqlWireSource: null schema'')
      | Some S \<Rightarrow> set_test (ValidateNoArrayFields S) Q_connect), E_tau)"
| "mysql_ProduceLoop M cfg B schema failed consumed Q_connect =
     (consumed, (if \<not> st_ok (mysql_connect M cfg) then Q_error (mysql_connect M cfg) else Q_init [] (mc_init_sql cfg)), E_tau)"
| "mysql_ProduceLoop M cfg B schema failed consumed (Q_init before stmts) =
     (consumed, (case stmts of
        [] \<Rightarrow> Q_query before
      | stmt # rest \<Rightarrow>
          if stmt = [] then Q_init before rest
          else set_test (RunQuery M before stmt) (Q_init (before @ [stmt]) rest)), E_tau)"
| "mysql_ProduceLoop M cfg B schema failed consumed (Q_query before) =
     (consumed, query_loc M cfg (the schema) before, E_tau)"
| "mysql_ProduceLoop M cfg B schema failed consumed (Q_test l) = (consumed, (if failed then Q_abort else l), E_tau)"
| "mysql_ProduceLoop M cfg B schema failed consumed (Q_error st) = (consumed, Q_abort, E_set st)"
| "mysql_ProduceLoop M cfg B schema failed consumed Q_abort = (consumed, Q_return, E_abort)"
| "mysql_ProduceLoop M cfg B schema failed consumed Q_return = (consumed, Q_return, E_exit)"
| "mysql_ProduceLoop M cfg B schema failed consumed l = (consumed, rows_step M cfg B (the schema) failed l)"

section \<open>The contract\<close>

text \<open>A row appended from the fields to come, and what the rows to come will push or report.\<close>

fun fill_row :: "mysql \<Rightarrow> schema \<Rightarrow> nat list \<Rightarrow> my_row \<Rightarrow> nat list \<Rightarrow> my_builders \<Rightarrow> my_builders option" where
  "fill_row M S js row [] bs = Some bs"
| "fill_row M S js row (fi # fis) bs =
     (case append_cell M S js row fi bs of Inl st \<Rightarrow> None | Inr bs \<Rightarrow> fill_row M S js row fis bs)"

definition flush_todo :: "('a, 'b) builders \<Rightarrow> schema \<Rightarrow> my_builders \<Rightarrow> 'b parsed_batch option list" where
  "flush_todo B S bs =
     (case FlushBatch B (ArrowSchemaFromYikv S) bs of
        Inl st \<Rightarrow> [None]
      | Inr None \<Rightarrow> []
      | Inr (Some b) \<Rightarrow> [Some (mysql_batch b)])"

definition last_todo :: "('a, 'b) builders \<Rightarrow> schema \<Rightarrow> my_builders \<Rightarrow> u64 \<Rightarrow> 'b parsed_batch option list" where
  "last_todo B S bs n = (if 0 < n then flush_todo B S bs else [])"

fun rows_todo ::
  "mysql \<Rightarrow> mysql_config \<Rightarrow> ('a, 'b) builders \<Rightarrow> schema \<Rightarrow> my_context \<Rightarrow> my_builders \<Rightarrow> u64 \<Rightarrow> my_row list \<Rightarrow>
   'b parsed_batch option list" where
  "rows_todo M cfg B S ctx bs n [] = last_todo B S bs n @ (if snd ctx = None then [] else [None])"
| "rows_todo M cfg B S ctx bs n (row # rows) =
     (case fill_row M S (fst ctx) row [0..<length (sc_fields S)] bs of
        None \<Rightarrow> [None]
      | Some bs \<Rightarrow>
          if batch_sz cfg \<le> n + 1 then flush_todo B S bs @ rows_todo M cfg B S ctx (new_builders S) 0 rows
          else rows_todo M cfg B S ctx bs (n + 1) rows)"

definition query_todo ::
  "mysql \<Rightarrow> mysql_config \<Rightarrow> ('a, 'b) builders \<Rightarrow> schema \<Rightarrow> string list \<Rightarrow> 'b parsed_batch option list" where
  "query_todo M cfg B S before =
     (case mysql_run M cfg before of
        Inl st \<Rightarrow> [None]
      | Inr None \<Rightarrow> []
      | Inr (Some result) \<Rightarrow>
          (case MapColumns (sc_fields S) (mr_columns result) of
             Inl st \<Rightarrow> [None]
           | Inr js \<Rightarrow> rows_todo M cfg B S (js, mr_error result) (new_builders S) 0 (mr_rows result)))"

fun init_todo ::
  "mysql \<Rightarrow> mysql_config \<Rightarrow> ('a, 'b) builders \<Rightarrow> schema \<Rightarrow> string list \<Rightarrow> string list \<Rightarrow> 'b parsed_batch option list" where
  "init_todo M cfg B S before [] = query_todo M cfg B S before"
| "init_todo M cfg B S before (stmt # rest) =
     (if stmt = [] then init_todo M cfg B S before rest
      else if st_ok (RunQuery M before stmt) then init_todo M cfg B S (before @ [stmt]) rest
      else [None])"

definition connect_todo :: "mysql \<Rightarrow> mysql_config \<Rightarrow> ('a, 'b) builders \<Rightarrow> schema \<Rightarrow> 'b parsed_batch option list" where
  "connect_todo M cfg B S = (if st_ok (mysql_connect M cfg) then init_todo M cfg B S [] (mc_init_sql cfg) else [None])"

definition leader_todo ::
  "mysql \<Rightarrow> mysql_config \<Rightarrow> ('a, 'b) builders \<Rightarrow> schema option \<Rightarrow> 'b parsed_batch option list" where
  "leader_todo M cfg B schema =
     (case schema of
        None \<Rightarrow> [None]
      | Some S \<Rightarrow> if st_ok (ValidateNoArrayFields S) then connect_todo M cfg B S else [None])"

definition rest_todo ::
  "mysql \<Rightarrow> mysql_config \<Rightarrow> ('a, 'b) builders \<Rightarrow> schema \<Rightarrow> my_context \<Rightarrow> my_row list option \<Rightarrow> 'b parsed_batch option list" where
  "rest_todo M cfg B S ctx rest =
     (case rest of None \<Rightarrow> [] | Some rows \<Rightarrow> rows_todo M cfg B S ctx (new_builders S) 0 rows)"

definition row_todo ::
  "mysql \<Rightarrow> mysql_config \<Rightarrow> ('a, 'b) builders \<Rightarrow> schema \<Rightarrow> my_context \<Rightarrow> my_builders \<Rightarrow> u64 \<Rightarrow> nat list \<Rightarrow> my_row \<Rightarrow>
   my_row list \<Rightarrow> 'b parsed_batch option list" where
  "row_todo M cfg B S ctx bs n fis row rows =
     (case fill_row M S (fst ctx) row fis bs of
        None \<Rightarrow> [None]
      | Some bs \<Rightarrow>
          if batch_sz cfg \<le> n + 1 then flush_todo B S bs @ rest_todo M cfg B S ctx (Some rows)
          else rows_todo M cfg B S ctx bs (n + 1) rows)"

fun mysql_todo ::
  "mysql \<Rightarrow> mysql_config \<Rightarrow> ('a, 'b) builders \<Rightarrow> schema option \<Rightarrow> 'b mysql_loc \<Rightarrow> 'b parsed_batch option list" where
  "mysql_todo M cfg B schema Q_leader = leader_todo M cfg B schema"
| "mysql_todo M cfg B schema (Q_error st) = [None]"
| "mysql_todo M cfg B schema (Q_test l) = mysql_todo M cfg B schema l"
| "mysql_todo M cfg B schema Q_connect = connect_todo M cfg B (the schema)"
| "mysql_todo M cfg B schema (Q_init before rest) = init_todo M cfg B (the schema) before rest"
| "mysql_todo M cfg B schema (Q_query before) = query_todo M cfg B (the schema) before"
| "mysql_todo M cfg B schema (Q_fetch ctx bs n rows) = rows_todo M cfg B (the schema) ctx bs n rows"
| "mysql_todo M cfg B schema (Q_cell ctx bs n fis row rows) = row_todo M cfg B (the schema) ctx bs n fis row rows"
| "mysql_todo M cfg B schema (Q_last ctx bs n) = last_todo B (the schema) bs n"
| "mysql_todo M cfg B schema (Q_fetch_error e ctx bs n) = last_todo B (the schema) bs n @ [None]"
| "mysql_todo M cfg B schema (Q_flush ctx bs rest) = flush_todo B (the schema) bs @ rest_todo M cfg B (the schema) ctx rest"
| "mysql_todo M cfg B schema (Q_push b ctx rest) = Some (mysql_batch b) # rest_todo M cfg B (the schema) ctx rest"
| "mysql_todo M cfg B schema (Q_flush_error st ctx rest) = None # rest_todo M cfg B (the schema) ctx rest"
| "mysql_todo M cfg B schema (Q_flushed st ctx rest) = rest_todo M cfg B (the schema) ctx rest"
| "mysql_todo M cfg B schema (Q_resume ctx rows) = rest_todo M cfg B (the schema) ctx (Some rows)"
| "mysql_todo M cfg B schema _ = []"

fun mysql_doomed :: "'b mysql_loc \<Rightarrow> bool" where
  "mysql_doomed (Q_error st) = st_ok st"
| "mysql_doomed (Q_flush_error st ctx rest) = st_ok st"
| "mysql_doomed (Q_flushed st ctx rest) = (\<not> st_ok st)"
| "mysql_doomed (Q_flush_abort st ctx rest) = True"
| "mysql_doomed (Q_fetch_abort ctx bs n) = True"
| "mysql_doomed Q_abort = True"
| "mysql_doomed (Q_test l) = mysql_doomed l"
| "mysql_doomed _ = False"

definition mysql_agrees :: "bool \<Rightarrow> 'b mysql_loc \<Rightarrow> bool" where
  "mysql_agrees consumed l \<longleftrightarrow> l = Q_entry \<or> consumed"

definition rows_weight :: "schema \<Rightarrow> my_row list \<Rightarrow> nat" where
  "rows_weight S rows = 12 + length rows * (3 * length (sc_fields S) + 12)"

definition rest_weight :: "schema \<Rightarrow> my_row list option \<Rightarrow> nat" where
  "rest_weight S rest = (case rest of None \<Rightarrow> 0 | Some rows \<Rightarrow> rows_weight S rows)"

definition query_weight :: "mysql \<Rightarrow> mysql_config \<Rightarrow> schema \<Rightarrow> string list \<Rightarrow> nat" where
  "query_weight M cfg S before =
     5 + (case mysql_run M cfg before of Inr (Some result) \<Rightarrow> rows_weight S (mr_rows result) | _ \<Rightarrow> 0)"

fun init_weight :: "mysql \<Rightarrow> mysql_config \<Rightarrow> schema \<Rightarrow> string list \<Rightarrow> string list \<Rightarrow> nat" where
  "init_weight M cfg S before [] = 1 + query_weight M cfg S before"
| "init_weight M cfg S before (stmt # rest) =
     (if stmt = [] then 1 + init_weight M cfg S before rest else 5 + init_weight M cfg S (before @ [stmt]) rest)"

fun mysql_weight :: "mysql \<Rightarrow> mysql_config \<Rightarrow> schema \<Rightarrow> 'b mysql_loc \<Rightarrow> nat" where
  "mysql_weight M cfg S Q_entry = 1"
| "mysql_weight M cfg S Q_leader = 10 + init_weight M cfg S [] (mc_init_sql cfg)"
| "mysql_weight M cfg S Q_connect = 3 + init_weight M cfg S [] (mc_init_sql cfg)"
| "mysql_weight M cfg S (Q_init before rest) = init_weight M cfg S before rest"
| "mysql_weight M cfg S (Q_query before) = query_weight M cfg S before"
| "mysql_weight M cfg S (Q_test l) = mysql_weight M cfg S l + 2"
| "mysql_weight M cfg S (Q_error st) = 2"
| "mysql_weight M cfg S Q_abort = 1"
| "mysql_weight M cfg S Q_return = 0"
| "mysql_weight M cfg S (Q_fetch ctx bs n rows) = rows_weight S rows"
| "mysql_weight M cfg S (Q_cell ctx bs n fis row rows) = 3 * length fis + 9 + rows_weight S rows"
| "mysql_weight M cfg S (Q_fetch_error e ctx bs n) = 11"
| "mysql_weight M cfg S (Q_fetch_abort ctx bs n) = 10"
| "mysql_weight M cfg S (Q_last ctx bs n) = 9"
| "mysql_weight M cfg S (Q_flush ctx bs rest) = 8 + rest_weight S rest"
| "mysql_weight M cfg S (Q_push b ctx rest) = 7 + rest_weight S rest"
| "mysql_weight M cfg S (Q_flush_error st ctx rest) = 7 + rest_weight S rest"
| "mysql_weight M cfg S (Q_flush_abort st ctx rest) = 6 + rest_weight S rest"
| "mysql_weight M cfg S (Q_flushed st ctx rest) = 5 + rest_weight S rest"
| "mysql_weight M cfg S (Q_resume ctx rows) = 4 + rows_weight S rows"

lemma find_column_bad: "find_column d cols j found = Inl st \<Longrightarrow> \<not> st_ok st"
  by (induction d cols j found rule: find_column.induct) (auto split: if_splits)

lemma MapColumns_bad: "MapColumns ds cols = Inl st \<Longrightarrow> \<not> st_ok st"
  by (induction ds cols rule: MapColumns.induct)
    (auto split: sum.splits option.splits dest: find_column_bad)

lemma mysql_run_bad: "mysql_run M cfg before = Inl st \<Longrightarrow> \<not> st_ok st"
  by (auto simp: mysql_run_def split: option.splits if_splits)

lemma append_cell_bad: "append_cell M S js row fi bs = Inl st \<Longrightarrow> \<not> st_ok st"
  by (auto simp: append_cell_def AppendForField_def AppendBool_def AppendInt32_def AppendInt64_def AppendFloat_def
      AppendDouble_def AppendUtf8_def split: data_type.splits option.splits sum.splits if_splits prod.splits)

lemma finish_all_bad: "finish_all B bs n arrays = Inl st \<Longrightarrow> \<not> st_ok st"
  by (induction B bs n arrays rule: finish_all.induct) (auto split: sum.splits if_splits)

lemma FlushBatch_bad: "FlushBatch B sch bs = Inl st \<Longrightarrow> \<not> st_ok st"
  by (auto simp: FlushBatch_def split: sum.splits prod.splits if_splits option.splits dest: finish_all_bad)

lemma query_loc_cases:
  "query_loc M cfg S before = l \<Longrightarrow>
   (\<exists>st. l = Q_error st \<and> \<not> st_ok st \<and> query_todo M cfg B S before = [None]) \<or>
   l = Q_return \<and> query_todo M cfg B S before = [] \<or>
   (\<exists>ctx rows. l = Q_test (Q_fetch ctx (new_builders S) 0 rows) \<and>
      query_todo M cfg B S before = rows_todo M cfg B S ctx (new_builders S) 0 rows \<and>
      query_weight M cfg S before = 5 + rows_weight S rows)"
  by (auto simp: query_loc_def query_todo_def query_weight_def
      split: sum.splits option.splits dest: mysql_run_bad MapColumns_bad)

text \<open>The work of a location goes over to the next one.\<close>

lemma rows_step_todo:
  assumes "rows_step M cfg B S False l = (l', e)" "\<not> mysql_doomed l"
  shows "case e of
      E_tau \<Rightarrow> mysql_todo M cfg B (Some S) l' = mysql_todo M cfg B (Some S) l
    | E_push b \<Rightarrow> mysql_todo M cfg B (Some S) l = Some b # mysql_todo M cfg B (Some S) l'
    | E_set st \<Rightarrow> if st_ok st then mysql_todo M cfg B (Some S) l' = mysql_todo M cfg B (Some S) l
        else None \<in> set (mysql_todo M cfg B (Some S) l)
    | E_abort \<Rightarrow> False
    | E_exit \<Rightarrow> False"
proof (cases l)
  case (Q_fetch ctx bs n rows)
  with assms show ?thesis
    by (cases rows) (auto simp: row_todo_def rest_todo_def split: option.splits)
next
  case (Q_cell ctx bs n fis row rows)
  with assms show ?thesis
    by (cases fis) (auto simp: row_todo_def rest_todo_def split: option.splits sum.splits if_splits)
next
  case (Q_flush ctx bs rest)
  with assms show ?thesis
    by (auto simp: flush_todo_def split: option.splits sum.splits)
qed (use assms in \<open>auto simp: last_todo_def rest_todo_def split: option.splits\<close>)

lemma rows_step_weight:
  assumes "rows_step M cfg B S f l = (l', e)" "rows_step M cfg B S f l \<noteq> (l, E_tau)"
  shows "mysql_weight M cfg S l' < mysql_weight M cfg S l"
proof (cases l)
  case (Q_fetch ctx bs n rows)
  with assms show ?thesis
    by (cases rows) (auto simp: rows_weight_def split: option.splits if_splits)
next
  case (Q_cell ctx bs n fis row rows)
  with assms show ?thesis
    by (cases fis) (auto simp: rest_weight_def split: option.splits sum.splits if_splits)
qed (use assms in \<open>auto simp: rest_weight_def rows_weight_def split: option.splits sum.splits if_splits\<close>)

lemma rows_step_doomed:
  "rows_step M cfg B S f l = (l', e) \<Longrightarrow> mysql_doomed l' \<Longrightarrow> mysql_doomed l \<or> f \<or> (\<exists>st. e = E_set st \<and> \<not> st_ok st)"
  by (cases l) (auto dest: append_cell_bad FlushBatch_bad split: option.splits sum.splits list.splits if_splits)

text \<open>The locations of \<open>mysql_ProduceLoop\<close> itself; at all others it does a step of \<open>rows_step\<close>.\<close>

fun own_loc :: "'b mysql_loc \<Rightarrow> bool" where
  "own_loc Q_entry = True" | "own_loc Q_leader = True" | "own_loc Q_connect = True"
| "own_loc (Q_init before rest) = True" | "own_loc (Q_query before) = True" | "own_loc (Q_test l) = True"
| "own_loc (Q_error st) = True" | "own_loc Q_abort = True" | "own_loc Q_return = True"
| "own_loc _ = False"

lemma step_rows:
  "\<not> own_loc l \<Longrightarrow> mysql_ProduceLoop M cfg B schema f c l = (c, rows_step M cfg B (the schema) f l)"
  by (cases l) simp_all

lemma rows_step_moves: "\<not> own_loc l \<Longrightarrow> rows_step M cfg B S f l \<noteq> (l, E_tau)"
  by (cases l) (auto split: option.splits sum.splits list.splits if_splits)

lemma rows_step_exit: "rows_step M cfg B S f l = (l', e) \<Longrightarrow> e \<noteq> E_exit"
  by (cases l) auto

lemma weight_init: "6 \<le> init_weight M cfg S before rest"
  by (induction M cfg S before rest rule: init_weight.induct) (auto simp: query_weight_def)

abbreviation mysql_work ::
  "mysql \<Rightarrow> mysql_config \<Rightarrow> ('a, 'b) builders \<Rightarrow> schema \<Rightarrow> bool \<Rightarrow> 'b parsed_batch option multiset" where
  "mysql_work M cfg B S consumed \<equiv> (if consumed then {#} else mset (leader_todo M cfg B (Some S)))"

lemma own_step_todo:
  assumes "mysql_ProduceLoop M cfg B (Some S) False c l = (c', l', e)" "own_loc l" "\<not> mysql_doomed l"
  shows "case e of
      E_tau \<Rightarrow> mysql_work M cfg B S c' + mset (mysql_todo M cfg B (Some S) l') =
        mysql_work M cfg B S c + mset (mysql_todo M cfg B (Some S) l)
    | E_set st \<Rightarrow> \<not> st_ok st \<and> None \<in> set (mysql_todo M cfg B (Some S) l)
    | E_exit \<Rightarrow> l = Q_entry \<and> c \<and> c' \<or> l = Q_return \<and> c' = c
    | _ \<Rightarrow> False"
proof (cases l)
  case (Q_init before rest)
  with assms show ?thesis by (cases rest) (auto simp: set_test_def split: if_splits)
next
  case (Q_query before)
  with assms have l': "query_loc M cfg S before = l'" "e = E_tau" "c' = c" by auto
  from query_loc_cases [OF l'(1), of B] Q_query l'(2,3) show ?thesis by (elim disjE exE conjE) simp_all
qed (use assms in \<open>auto simp: set_test_def leader_todo_def connect_todo_def split: if_splits\<close>)

lemma own_step_weight:
  assumes "mysql_ProduceLoop M cfg B (Some S) f c l = (c', l', e)" "own_loc l" "e \<noteq> E_exit"
  shows "(if c' then 0 else mysql_weight M cfg S Q_leader) + mysql_weight M cfg S l' <
    (if c then 0 else mysql_weight M cfg S Q_leader) + mysql_weight M cfg S l"
proof (cases l)
  case (Q_init before rest)
  with assms weight_init [of M cfg S] show ?thesis
    by (cases rest) (auto simp: set_test_def query_weight_def split: if_splits)
next
  case (Q_query before)
  with assms have l': "query_loc M cfg S before = l'" "c' = c" by auto
  have "5 \<le> query_weight M cfg S before" by (simp add: query_weight_def)
  with query_loc_cases [OF l'(1), of B] Q_query l'(2) show ?thesis by (elim disjE exE conjE) simp_all
qed (use assms weight_init [of M cfg S "[]" "mc_init_sql cfg"] in \<open>auto simp: set_test_def split: if_splits\<close>)

lemma own_step_doomed:
  assumes "mysql_ProduceLoop M cfg B (Some S) f c l = (c', l', e)" "own_loc l" "mysql_doomed l'"
  shows "mysql_doomed l \<or> f \<or> (\<exists>st. e = E_set st \<and> \<not> st_ok st)"
proof (cases l)
  case (Q_init before rest)
  with assms show ?thesis by (cases rest) (auto simp: set_test_def split: if_splits)
next
  case (Q_query before)
  with assms have l': "query_loc M cfg S before = l'" by auto
  from query_loc_cases [OF l', of B] assms(3) show ?thesis by (elim disjE exE conjE) simp_all
qed (use assms in \<open>auto simp: set_test_def split: if_splits\<close>)

lemma mysql_step_cases:
  assumes "mysql_ProduceLoop M cfg B (Some S) f c l = (c', l', e)"
  obtains (own) "own_loc l" | (rows) "\<not> own_loc l" "c' = c" "rows_step M cfg B S f l = (l', e)"
  using assms step_rows [of l M cfg B "Some S" f c] by (cases "own_loc l") auto

lemma mysql_step_todo:
  assumes "mysql_ProduceLoop M cfg B (Some S) False c l = (c', l', e)" "\<not> mysql_doomed l"
  shows "case e of
      E_tau \<Rightarrow> mysql_work M cfg B S c' + mset (mysql_todo M cfg B (Some S) l') =
        mysql_work M cfg B S c + mset (mysql_todo M cfg B (Some S) l)
    | E_push b \<Rightarrow> mysql_work M cfg B S c' + mset (mysql_todo M cfg B (Some S) l') + {#Some b#} =
        mysql_work M cfg B S c + mset (mysql_todo M cfg B (Some S) l)
    | E_set st \<Rightarrow>
        if st_ok st then mysql_work M cfg B S c' + mset (mysql_todo M cfg B (Some S) l') =
          mysql_work M cfg B S c + mset (mysql_todo M cfg B (Some S) l)
        else None \<in> set (mysql_todo M cfg B (Some S) l)
    | E_abort \<Rightarrow> False
    | E_exit \<Rightarrow> l = Q_entry \<and> c \<and> c' \<or> l = Q_return \<and> c' = c"
  using assms(1)
proof (cases rule: mysql_step_cases)
  case own
  from own_step_todo [OF assms(1) own assms(2)] show ?thesis by (cases e) auto
next
  case rows
  from rows_step_todo [OF rows(3) assms(2)] rows(2) rows_step_exit [OF rows(3)] show ?thesis
    by (cases e) (auto split: if_splits)
qed

lemma mysql_step_weight:
  assumes "mysql_ProduceLoop M cfg B (Some S) f c l = (c', l', e)" "e \<noteq> E_exit"
  shows "(if c' then 0 else mysql_weight M cfg S Q_leader) + mysql_weight M cfg S l' <
    (if c then 0 else mysql_weight M cfg S Q_leader) + mysql_weight M cfg S l"
  using assms(1)
proof (cases rule: mysql_step_cases)
  case own
  from own_step_weight [OF assms(1) own assms(2)] show ?thesis .
next
  case rows
  from rows_step_weight [OF rows(3) rows_step_moves [OF rows(1)]] rows(2) show ?thesis by simp
qed

lemma mysql_step_doomed:
  assumes "mysql_ProduceLoop M cfg B (Some S) f c l = (c', l', e)" "mysql_doomed l'"
  shows "mysql_doomed l \<or> f \<or> (\<exists>st. e = E_set st \<and> \<not> st_ok st)"
  using assms(1)
proof (cases rule: mysql_step_cases)
  case own
  from own_step_doomed [OF assms(1) own assms(2)] show ?thesis .
next
  case rows
  from rows_step_doomed [OF rows(3) assms(2)] show ?thesis .
qed

lemma mysql_step_frame:
  assumes "mysql_ProduceLoop M cfg B (Some S) f c l = (c', l', e)"
  shows "e = E_abort \<Longrightarrow> mysql_doomed l"
    and "c \<Longrightarrow> c'"
    and "mysql_agrees c l \<Longrightarrow> e \<noteq> E_exit \<Longrightarrow> mysql_agrees c' l'"
proof -
  show "c \<Longrightarrow> c'"
    using assms by (cases l) (auto split: if_splits)
  show "e = E_abort \<Longrightarrow> mysql_doomed l"
    using assms by (cases l) (auto split: if_splits)
  show "mysql_agrees c l \<Longrightarrow> e \<noteq> E_exit \<Longrightarrow> mysql_agrees c' l'"
    using assms by (cases l) (auto simp: mysql_agrees_def split: if_splits)
qed

end
