(* ===== verification/MysqlSpec.thy ===== *)
theory MysqlSpec
  imports MysqlSource
begin

text \<open>
  What the result of a query means: its rows as cells, and their batches, the chunks of
  \<open>batch_rows\<close> rows in order. The state machine of \<open>MysqlSource\<close> has exactly these to push.
\<close>

section \<open>Integers\<close>

lemma dec_int_length [simp]: "length (dec_int i) \<noteq> 0"
  by simp

lemma c_strtol_dec_int_low: "i < int64_min \<Longrightarrow> c_strtol (dec_int i) = (int64_min, length (dec_int i))"
  by (simp add: c_strtol_def strtol_raw_dec_int clamp_def int64_max_def int64_min_def)

text \<open>
  C28: Integer columns of a query are read exactly, as far as 64 bits go. The decimal text of an
  integer is stored in a 32-bit field exactly when it is in range and refused otherwise; in a
  64-bit field it is stored as it is when in range. Beyond, the code stores the nearest bound of
  the range without an error: this is how \<open>strtoll\<close> saturates.
\<close>

theorem mysql_int_cells:
  "AppendInt32 (Some (dec_int i)) =
     (if - 2147483648 \<le> i \<and> i \<le> 2147483647 then Inr (C_int i) else Inl (Invalid ''MysqlWireSource: int32 out of range'')) \<and>
   AppendInt64 (Some (dec_int i)) = Inr (C_int (max (- 9223372036854775808) (min 9223372036854775807 i))) \<and>
   AppendInt32 None = Inr C_null \<and> AppendInt64 None = Inr C_null"
proof (intro conjI)
  consider "i < int64_min" | "int64_min \<le> i" "i \<le> int64_max" | "int64_max < i" by linarith
  then have scan: "c_strtol (dec_int i) = (max int64_min (min int64_max i), length (dec_int i))"
    by cases (simp_all add: c_strtol_dec_int c_strtol_dec_int_high c_strtol_dec_int_low int64_max_def int64_min_def)
  show "AppendInt32 (Some (dec_int i)) =
     (if - 2147483648 \<le> i \<and> i \<le> 2147483647 then Inr (C_int i) else Inl (Invalid ''MysqlWireSource: int32 out of range''))"
    by (auto simp: AppendInt32_def scan int64_max_def int64_min_def)
  show "AppendInt64 (Some (dec_int i)) = Inr (C_int (max (- 9223372036854775808) (min 9223372036854775807 i)))"
    by (simp add: AppendInt64_def scan int64_max_def int64_min_def)
qed (simp_all add: AppendInt32_def AppendInt64_def)

section \<open>The rows of a result\<close>

definition parse_row :: "mysql \<Rightarrow> schema \<Rightarrow> nat list \<Rightarrow> my_row \<Rightarrow> cell list option" where
  "parse_row M S js row =
     those (map (\<lambda>fi. case AppendForField (my_strtof M) (my_strtod M) (sc_fields S ! fi) (mysql_value row (js ! fi)) of
        Inl st \<Rightarrow> None | Inr c \<Rightarrow> Some c) [0..<length (sc_fields S)])"

text \<open>The statements run when the initial ones all succeed.\<close>

fun init_runs :: "mysql \<Rightarrow> string list \<Rightarrow> string list \<Rightarrow> string list option" where
  "init_runs M before [] = Some before"
| "init_runs M before (stmt # rest) =
     (if stmt = [] then init_runs M before rest
      else if st_ok (RunQuery M before stmt) then init_runs M (before @ [stmt]) rest else None)"

text \<open>The rows of the result that the query gives after the statements \<open>before\<close>.\<close>

definition result_rows :: "mysql \<Rightarrow> mysql_config \<Rightarrow> schema \<Rightarrow> string list \<Rightarrow> cell list list option" where
  "result_rows M cfg S before =
     (case mysql_run M cfg before of
        Inl st \<Rightarrow> None
      | Inr None \<Rightarrow> Some []
      | Inr (Some result) \<Rightarrow>
          (case MapColumns (sc_fields S) (mr_columns result) of
             Inl st \<Rightarrow> None
           | Inr js \<Rightarrow> if mr_error result \<noteq> None then None else those (map (parse_row M S js) (mr_rows result))))"

definition query_rows :: "mysql \<Rightarrow> mysql_config \<Rightarrow> schema \<Rightarrow> cell list list option" where
  "query_rows M cfg S =
     (if \<not> st_ok (ValidateNoArrayFields S) \<or> \<not> st_ok (mysql_connect M cfg) then None
      else case init_runs M [] (mc_init_sql cfg) of
        None \<Rightarrow> None
      | Some before \<Rightarrow> result_rows M cfg S before)"

function chunks :: "nat \<Rightarrow> 'x list \<Rightarrow> 'x list list" where
  "chunks n xs = (if n = 0 \<or> xs = [] then [] else take n xs # chunks n (drop n xs))"
  by pat_completeness auto
termination by (relation "measure (\<lambda>(n, xs). length xs)") auto

declare chunks.simps [simp del]

lemma concat_chunks: "0 < n \<Longrightarrow> concat (chunks n xs) = xs"
  by (induction n xs rule: chunks.induct) (subst chunks.simps, auto)

definition columns_of :: "schema \<Rightarrow> cell list list \<Rightarrow> my_builders" where
  "columns_of S rows = map (\<lambda>i. (arrow_type_of (sc_fields S ! i), map (\<lambda>r. r ! i) rows)) [0..<length (sc_fields S)]"

definition chunk_todo :: "('a, 'b) builders \<Rightarrow> schema \<Rightarrow> nat \<Rightarrow> cell list list \<Rightarrow> 'b parsed_batch option list" where
  "chunk_todo B S n rows = concat (map (\<lambda>chunk. flush_todo B S (columns_of S chunk)) (chunks n rows))"

definition query_batches ::
  "mysql \<Rightarrow> mysql_config \<Rightarrow> ('a, 'b) builders \<Rightarrow> schema \<Rightarrow> 'b parsed_batch list option" where
  "query_batches M cfg B S =
     (case query_rows M cfg S of
        None \<Rightarrow> None
      | Some rows \<Rightarrow> those (chunk_todo B S (unat (batch_sz cfg)) rows))"

section \<open>The state machine pushes these batches\<close>

lemma those_Some_iff: "those xs = Some ys \<longleftrightarrow> xs = map Some ys"
  by (induction xs arbitrary: ys) (auto split: option.splits)

lemma those_None_iff: "those xs = None \<longleftrightarrow> None \<in> set xs"
  by (induction xs) (auto split: option.splits)

definition push_cells :: "(nat \<times> cell) list \<Rightarrow> my_builders \<Rightarrow> my_builders" where
  "push_cells ics bs = fold (\<lambda>(i, c) bs. bs[i := (fst (bs ! i), snd (bs ! i) @ [c])]) ics bs"

lemma fill_row_cells:
  "fill_row M S js row fis bs =
     (case those (map (\<lambda>fi. case AppendForField (my_strtof M) (my_strtod M) (sc_fields S ! fi) (mysql_value row (js ! fi)) of
        Inl st \<Rightarrow> None | Inr c \<Rightarrow> Some c) fis) of
        None \<Rightarrow> None | Some cs \<Rightarrow> Some (push_cells (zip fis cs) bs))"
  by (induction fis arbitrary: bs) (auto simp: append_cell_def push_cells_def split: sum.splits option.splits)

lemma push_cells_nth:
  "length (push_cells (zip [k..<k + length cs] cs) bs) = length bs \<and>
   (k + length cs \<le> length bs \<longrightarrow> (\<forall>i < length bs. push_cells (zip [k..<k + length cs] cs) bs ! i =
     (if k \<le> i \<and> i < k + length cs then (fst (bs ! i), snd (bs ! i) @ [cs ! (i - k)]) else bs ! i)))"
proof (induction cs arbitrary: k bs)
  case Nil
  then show ?case by (auto simp: push_cells_def)
next
  case (Cons c cs)
  have upt: "[k..<k + length (c # cs)] = k # [Suc k..<Suc k + length cs]" by (simp add: upt_rec)
  let ?bs = "bs[k := (fst (bs ! k), snd (bs ! k) @ [c])]"
  have step: "push_cells (zip [k..<k + length (c # cs)] (c # cs)) bs = push_cells (zip [Suc k..<Suc k + length cs] cs) ?bs"
    unfolding upt by (simp add: push_cells_def)
  from Cons.IH [of "Suc k" ?bs] show ?case
    unfolding step by (auto simp: nth_list_update nth_Cons' not_less_eq_eq)
qed

lemma columns_of_Nil: "columns_of S [] = new_builders S"
  by (rule nth_equalityI) (simp_all add: columns_of_def new_builders_def)

lemma fill_row_columns:
  "fill_row M S js row [0..<length (sc_fields S)] (columns_of S acc) =
     (case parse_row M S js row of None \<Rightarrow> None | Some r \<Rightarrow> Some (columns_of S (acc @ [r])))"
proof (cases "parse_row M S js row")
  case None
  then show ?thesis by (simp add: fill_row_cells parse_row_def)
next
  case (Some r)
  then have len: "length r = length (sc_fields S)"
    unfolding parse_row_def those_Some_iff by (auto dest!: arg_cong [of _ _ length])
  have "push_cells (zip [0..<length (sc_fields S)] r) (columns_of S acc) = columns_of S (acc @ [r])"
    using push_cells_nth [of 0 r "columns_of S acc"]
    by (intro nth_equalityI) (auto simp: len columns_of_def)
  with Some show ?thesis by (simp add: fill_row_cells parse_row_def)
qed

lemma chunks_short: "length xs < n \<Longrightarrow> chunks n xs = (if xs = [] then [] else [xs])"
  by (simp add: chunks.simps)

lemma chunks_full: "0 < length xs \<Longrightarrow> chunks (length xs) (xs @ ys) = xs # chunks (length xs) ys"
  by (subst chunks.simps) auto

lemma batch_sz_pos: "0 < unat (batch_sz cfg)"
  by (auto simp: batch_sz_def unat_gt_0 word_less_1)

lemma unat_of_nat_len: "n < 2 ^ 64 \<Longrightarrow> unat (of_nat n :: u64) = n"
  by (simp add: unsigned_of_nat take_bit_nat_eq_self)

lemma batch_count:
  assumes "length acc < unat (batch_sz cfg)"
  shows "batch_sz cfg \<le> of_nat (length acc) + 1 \<longleftrightarrow> unat (batch_sz cfg) = length acc + 1"
    and "0 < (of_nat (length acc) :: u64) \<longleftrightarrow> acc \<noteq> []"
proof -
  have lt: "length acc + 1 < 2 ^ 64"
    using assms unsigned_less [of "batch_sz cfg", where ?'a = nat] by simp
  then have un: "unat (of_nat (length acc + 1) :: u64) = length acc + 1" by (rule unat_of_nat_len)
  have "batch_sz cfg \<le> of_nat (length acc) + 1 \<longleftrightarrow> unat (batch_sz cfg) \<le> unat (of_nat (length acc + 1) :: u64)"
    by (simp only: of_nat_add of_nat_1 word_le_nat_alt)
  then show "batch_sz cfg \<le> of_nat (length acc) + 1 \<longleftrightarrow> unat (batch_sz cfg) = length acc + 1"
    using assms unfolding un by linarith
  have "unat (of_nat (length acc) :: u64) = length acc" using lt by (intro unat_of_nat_len) simp
  then show "0 < (of_nat (length acc) :: u64) \<longleftrightarrow> acc \<noteq> []"
    by (metis length_greater_0_conv unat_gt_0 word_neq_0_conv)
qed

lemma rows_todo_chunks:
  "length acc < unat (batch_sz cfg) \<Longrightarrow>
   case those (map (parse_row M S (fst ctx)) rows) of
     None \<Rightarrow> None \<in> set (rows_todo M cfg B S ctx (columns_of S acc) (of_nat (length acc)) rows)
   | Some cs \<Rightarrow> rows_todo M cfg B S ctx (columns_of S acc) (of_nat (length acc)) rows =
       chunk_todo B S (unat (batch_sz cfg)) (acc @ cs) @ (if snd ctx = None then [] else [None])"
proof (induction rows arbitrary: acc)
  case Nil
  then show ?case
    by (auto simp: last_todo_def batch_count(2) chunk_todo_def chunks_short)
next
  case (Cons row rows)
  let ?n = "unat (batch_sz cfg)"
  show ?case
  proof (cases "parse_row M S (fst ctx) row")
    case None
    then show ?thesis by (simp add: fill_row_columns)
  next
    case (Some r)
    show ?thesis
    proof (cases "?n = length acc + 1")
      case True
      have full: "chunk_todo B S ?n (acc @ r # cs) = flush_todo B S (columns_of S (acc @ [r])) @ chunk_todo B S ?n cs" for cs
        using chunks_full [of "acc @ [r]" cs] True by (simp add: chunk_todo_def)
      have todo: "rows_todo M cfg B S ctx (columns_of S acc) (of_nat (length acc)) (row # rows) =
          flush_todo B S (columns_of S (acc @ [r])) @ rows_todo M cfg B S ctx (columns_of S []) 0 rows"
        using Some True batch_count(1) [OF Cons.prems] by (simp add: fill_row_columns columns_of_Nil)
      show ?thesis
        using Cons.IH [of "[]"] batch_sz_pos [of cfg] Some
        by (cases "those (map (parse_row M S (fst ctx)) rows)") (simp_all add: todo full del: rows_todo.simps)
    next
      case False
      have todo: "rows_todo M cfg B S ctx (columns_of S acc) (of_nat (length acc)) (row # rows) =
          rows_todo M cfg B S ctx (columns_of S (acc @ [r])) (of_nat (length (acc @ [r]))) rows"
        using Some False batch_count(1) [OF Cons.prems] by (simp add: fill_row_columns add.commute)
      have "length (acc @ [r]) < ?n" using Cons.prems False by simp
      from Cons.IH [OF this] Some show ?thesis
        by (cases "those (map (parse_row M S (fst ctx)) rows)") (simp_all add: todo del: rows_todo.simps)
    qed
  qed
qed

lemma init_todo_runs:
  "init_todo M cfg B S before rest =
     (case init_runs M before rest of None \<Rightarrow> [None] | Some before \<Rightarrow> query_todo M cfg B S before)"
  by (induction M before rest rule: init_runs.induct) auto

lemma rows_todo_all:
  "case those (map (parse_row M S js) rows) of
     None \<Rightarrow> None \<in> set (rows_todo M cfg B S (js, e) (new_builders S) 0 rows)
   | Some cs \<Rightarrow> rows_todo M cfg B S (js, e) (new_builders S) 0 rows =
       chunk_todo B S (unat (batch_sz cfg)) cs @ (if e = None then [] else [None])"
  using rows_todo_chunks [where acc = "[]" and cfg = cfg and M = M and S = S and ctx = "(js, e)" and rows = rows
      and B = B] batch_sz_pos [of cfg]
  by (cases "those (map (parse_row M S js) rows)") (simp_all add: columns_of_Nil)

lemma query_todo_rows:
  "case result_rows M cfg S before of
     None \<Rightarrow> None \<in> set (query_todo M cfg B S before)
   | Some rows \<Rightarrow> query_todo M cfg B S before = chunk_todo B S (unat (batch_sz cfg)) rows"
proof (cases "mysql_run M cfg before")
  case (Inr result)
  have none: "chunk_todo B S n [] = []" for n by (simp add: chunk_todo_def chunks.simps)
  show ?thesis
  proof (cases result)
    case None
    with Inr none show ?thesis by (simp add: result_rows_def query_todo_def)
  next
    case (Some r)
    show ?thesis
    proof (cases "MapColumns (sc_fields S) (mr_columns r)")
      case js: (Inr js)
      from rows_todo_all [where M = M and S = S and js = js and rows = "mr_rows r" and cfg = cfg and B = B
          and e = "mr_error r"] Inr Some js
      show ?thesis
        by (cases "those (map (parse_row M S js) (mr_rows r))"; cases "mr_error r")
          (simp_all add: result_rows_def query_todo_def)
    qed (use Inr Some in \<open>simp add: result_rows_def query_todo_def\<close>)
  qed
qed (simp add: result_rows_def query_todo_def)

lemma leader_todo_batches:
  "case query_batches M cfg B S of
     None \<Rightarrow> None \<in> set (leader_todo M cfg B (Some S))
   | Some bs \<Rightarrow> leader_todo M cfg B (Some S) = map Some bs"
proof (cases "st_ok (ValidateNoArrayFields S) \<and> st_ok (mysql_connect M cfg)")
  case False
  then show ?thesis by (auto simp: query_batches_def query_rows_def leader_todo_def connect_todo_def)
next
  case ok: True
  then have leader: "leader_todo M cfg B (Some S) = init_todo M cfg B S [] (mc_init_sql cfg)"
    by (simp add: leader_todo_def connect_todo_def)
  show ?thesis
  proof (cases "init_runs M [] (mc_init_sql cfg)")
    case None
    with ok show ?thesis by (simp add: query_batches_def query_rows_def leader init_todo_runs)
  next
    case (Some before)
    with ok have rows: "query_rows M cfg S = result_rows M cfg S before"
      by (simp add: query_rows_def)
    from Some leader have todo: "leader_todo M cfg B (Some S) = query_todo M cfg B S before"
      by (simp add: init_todo_runs)
    from query_todo_rows [where M = M and cfg = cfg and S = S and before = before and B = B] show ?thesis
      unfolding query_batches_def rows todo
      by (cases "result_rows M cfg S before"; cases "those (query_todo M cfg B S before)")
        (auto dest: those_None_iff [THEN iffD1] those_Some_iff [THEN iffD1])
  qed
qed

end
