(* ===== verification/MysqlImport.thy ===== *)
theory MysqlImport
  imports MysqlSpec ImportSpec
begin

text \<open>
  An import of a MySQL query from its start to its end. The result of the query is read by one
  thread whatever their number; the batches are what the rows of the result give in order.
\<close>

interpretation mysql_import: kv_import "mysql_ProduceLoop M cfg B (Some S)"
    "mysql_work M cfg B S" "\<lambda>l. mset (mysql_todo M cfg B (Some S) l)" mysql_doomed mysql_agrees
    "\<lambda>consumed. if consumed then 0 else mysql_weight M cfg S Q_leader" "mysql_weight M cfg S" E A S Q_entry
  for M cfg B S E A
proof
  fix c c' l l' e
  assume step: "mysql_ProduceLoop M cfg B (Some S) False c l = (c', l', e)" "\<not> mysql_doomed l"
  note todo = mysql_step_todo [OF step]
  show "e \<in> {E_tau, E_set Status_OK} \<Longrightarrow>
      mysql_work M cfg B S c' + mset (mysql_todo M cfg B (Some S) l') =
      mysql_work M cfg B S c + mset (mysql_todo M cfg B (Some S) l)"
    using todo by auto
next
  fix c c' l l' b
  assume step: "mysql_ProduceLoop M cfg B (Some S) False c l = (c', l', E_push b)" "\<not> mysql_doomed l"
  show "mysql_work M cfg B S c' + mset (mysql_todo M cfg B (Some S) l') + {#Some b#} =
      mysql_work M cfg B S c + mset (mysql_todo M cfg B (Some S) l)"
    using mysql_step_todo [OF step] by simp
next
  fix c c' l l'
  assume step: "mysql_ProduceLoop M cfg B (Some S) False c l = (c', l', E_exit)" "\<not> mysql_doomed l"
    and "mysql_agrees c l"
  with mysql_step_todo [OF step]
  show "mysql_work M cfg B S c = {#} \<and> mysql_work M cfg B S c' = {#} \<and> mset (mysql_todo M cfg B (Some S) l) = {#}"
    by (auto simp: mysql_agrees_def)
next
  fix f c c' l l' e
  assume step: "mysql_ProduceLoop M cfg B (Some S) f c l = (c', l', e)"
  note frame = mysql_step_frame [OF step]
  show "mysql_work M cfg B S c = {#} \<Longrightarrow> mysql_work M cfg B S c' = {#}"
    using frame(2) by (auto split: if_splits)
  show "mysql_agrees c l \<Longrightarrow> e \<noteq> E_exit \<Longrightarrow> mysql_agrees c' l'" by (rule frame(3))
  show "mysql_agrees c k \<Longrightarrow> mysql_agrees c' k" for k
    using frame(2) by (auto simp: mysql_agrees_def)
  show "mysql_doomed l' \<Longrightarrow> mysql_doomed l \<or> f \<or> (\<exists>st. e = E_set st \<and> \<not> st_ok st)"
    by (rule mysql_step_doomed [OF step])
  show "e \<noteq> E_exit \<Longrightarrow>
      (if c' then 0 else mysql_weight M cfg S Q_leader) + mysql_weight M cfg S l' <
      (if c then 0 else mysql_weight M cfg S Q_leader) + mysql_weight M cfg S l"
    by (rule mysql_step_weight [OF step])
next
  fix f c c' l l'
  assume step: "mysql_ProduceLoop M cfg B (Some S) f c l = (c', l', E_abort)"
  show "mysql_doomed l" using mysql_step_frame(1) [OF step] by simp
next
  fix c c' l l' st
  assume step: "mysql_ProduceLoop M cfg B (Some S) False c l = (c', l', E_set st)" and bad: "\<not> st_ok st"
  show "mysql_doomed l \<or> None \<in># mset (mysql_todo M cfg B (Some S) l)"
    using mysql_step_todo [OF step] bad by (cases "mysql_doomed l") auto
next
  fix f c c' l l'
  assume step: "mysql_ProduceLoop M cfg B (Some S) f c l = (c', l', E_exit)"
  show "(if c' then 0 else mysql_weight M cfg S Q_leader) \<le> (if c then 0 else mysql_weight M cfg S Q_leader)"
    using mysql_step_frame(2) [OF step] by (auto split: if_splits)
qed (simp_all add: mysql_agrees_def write_parsed_def ProcessBatch_returns)

abbreviation mysql_import_step ::
  "('d, 'k) engine \<Rightarrow> ('a, 'b) arrow \<Rightarrow> mysql \<Rightarrow> mysql_config \<Rightarrow> ('a, 'b) builders \<Rightarrow> schema \<Rightarrow>
   (bool, 'b mysql_loc, 'b parsed_batch, 'k writer) pipeline \<Rightarrow> (bool, 'b mysql_loc, 'b parsed_batch, 'k writer) pipeline \<Rightarrow> bool" where
  "mysql_import_step E A M cfg B S \<equiv> pipeline_step (mysql_ProduceLoop M cfg B (Some S)) (write_parsed E A S) True"

lemma query_work:
  "case query_batches M cfg B S of
     None \<Rightarrow> None \<in># mysql_work M cfg B S False
   | Some bs \<Rightarrow> mysql_work M cfg B S False = image_mset Some (mset bs)"
  using leader_todo_batches [where M = M and cfg = cfg and B = B and S = S] by (simp split: option.splits)

lemma query_tokens:
  "query_batches M cfg B S = Some bs \<Longrightarrow> mysql_work M cfg B S False = image_mset Some (mset bs)"
  using query_work [where M = M and cfg = cfg and B = B and S = S] by simp

text \<open>
  C27: An import of a query reports the truth, whatever the interleaving and the number of the
  threads: when it has ended, it reports success exactly when the session could be set up, every
  initial statement and the query succeeded, each field has exactly one column of its name, every
  value could be parsed, the result ended without an error, and every row has a null key or
  values that fit. On success the batches written are exactly the result's rows in chunks of
  \<open>batch_rows\<close>, each once, although several threads run the loop.
\<close>

theorem mysql_import_truthful:
  assumes "ingest_ok E S" "pk_importable S"
    and "(mysql_import_step E A M cfg B S)\<^sup>*\<^sup>* (pipeline_init capacity io_workers False Q_entry w0) p"
    and "pl_main p = M_done ok"
  shows "(ok \<longleftrightarrow> (\<exists>bs. query_batches M cfg B S = Some bs \<and> (\<forall>pb \<in> set bs. batch_good A S (pb_batch pb)))) \<and>
    (ok \<longrightarrow> mset (pl_written p) = mset (the (query_batches M cfg B S)))"
  using mysql_import.import_reports [OF assms query_work] by blast

text \<open>An example: a query with three rows, read in batches of two.\<close>

definition ex_result :: mysql_result where
  "ex_result = \<lparr>mr_columns = [''NAME'', ''Id''],
     mr_rows = [[Some ''a'', Some ''1''], [None, Some ''2''], [Some ''b'', None]], mr_error = None\<rparr>"

definition ex_mysql :: mysql where
  "ex_mysql = \<lparr>my_init = True, my_charset = True, my_connect = (\<lambda>cfg. None), my_query_error = (\<lambda>before sql. None),
     my_field_count = (\<lambda>before sql. 0), my_use_result = (\<lambda>before sql. Some ex_result), my_use_error = [],
     my_strtof = (\<lambda>s. (F32 0, 0)), my_strtod = (\<lambda>s. (F64 0, 0))\<rparr>"

definition ex_mysql_config :: mysql_config where
  "ex_mysql_config = \<lparr>mc_host = ''h'', mc_port = 30, mc_user = ''u'', mc_password = [], mc_database = ''d'',
     mc_query = ''q'', mc_init_sql = [''s'', []], mc_batch_rows = 2\<rparr>"

definition ex_builders :: "(ref_array, ref_batch) builders" where
  "ex_builders = \<lparr>bu_finish = (\<lambda>t cs. Inr (Ref_array t cs)), bu_length = (\<lambda>arr. length (ref_cells arr)),
     bu_make = (\<lambda>sch n arrs. Some \<lparr>rb_rows = n, rb_columns = zip (map fst sch) arrs\<rparr>)\<rparr>"

definition ex_query_batches :: "ref_batch parsed_batch list" where
  "ex_query_batches =
     [mysql_batch \<lparr>rb_rows = 2, rb_columns = [(''id'', Ref_array AT_INT64 [C_int 1, C_int 2]),
        (''name'', Ref_array AT_STRING [C_str ''a'', C_null])]\<rparr>,
      mysql_batch \<lparr>rb_rows = 1, rb_columns = [(''id'', Ref_array AT_INT64 [C_null]),
        (''name'', Ref_array AT_STRING [C_str ''b''])]\<rparr>]"

lemma ex_query: "query_batches ex_mysql ex_mysql_config ex_builders ex_import_schema = Some ex_query_batches"
  by code_simp

lemma ex_query_good: "\<forall>pb \<in> set ex_query_batches. batch_good ref_arrow ex_import_schema (pb_batch pb)"
proof -
  have "list_all (\<lambda>pb. batch_good ref_arrow ex_import_schema (pb_batch pb)) ex_query_batches" by code_simp
  then show ?thesis by (simp add: list_all_iff)
qed

lemma ex_mysql_ok: "ingest_ok (ref_engine ex_import_schema) ex_import_schema" "pk_importable ex_import_schema"
  using ex_import_ok by (simp_all add: import_ok_def)

theorem mysql_import_truthful_witness:
  "\<exists>p. (mysql_import_step (ref_engine ex_import_schema) ref_arrow ex_mysql ex_mysql_config ex_builders ex_import_schema)\<^sup>*\<^sup>*
      (pipeline_init 1 3 False Q_entry ex_writer) p \<and> pl_main p = M_done True \<and>
    mset (pl_written p) = mset ex_query_batches"
proof -
  from mysql_import.good_import_exists [OF ex_mysql_ok query_tokens [OF ex_query] ex_query_good] obtain p
    where run: "(mysql_import_step (ref_engine ex_import_schema) ref_arrow ex_mysql ex_mysql_config ex_builders ex_import_schema)\<^sup>*\<^sup>*
      (pipeline_init 1 3 False Q_entry ex_writer) p" "pl_main p = M_done True" by blast
  from mysql_import_truthful [OF ex_mysql_ok run] run show ?thesis
    unfolding ex_query by auto
qed

end
