(* ===== verification/ImportMain.thy ===== *)
theory ImportMain
  imports FileImport MysqlImport ImportSizing KafkaCatchup
begin

text \<open>
  \<open>main\<close> of \<open>import_pipeline_main.cc\<close>: flags, cloud file systems, the index, the source, the
  threads, and what follows their end. The database, the environment and the libraries are a
  parameter record of what their calls answer; what \<open>main\<close> does to them is listed as events, in
  order, the attempt to persist the index with whether it succeeded. The threads in the middle may be scheduled in any way, so \<open>main\<close> is a relation.
\<close>

section \<open>What the calls answer, and what is done\<close>

record import_db_options = db_options +
  do_single_writer :: bool
  do_reclaim_delay_ns :: u64

text \<open>
  An exception is the text of its error. \<open>ie_index\<close> is the index \<open>GetKVIndex\<close> gives, with its
  schema, after it was created with a schema and bucket bits, or opened.
\<close>

record ('a, 'b, 'f, 'h, 'p, 'k) import_env =
  ie_host :: host
  ie_config :: config_env
  ie_json :: json_ops
  ie_s3_init :: status
  ie_s3_defaults :: s3_options
  ie_s3_create :: "s3_options \<Rightarrow> status + 'f"
  ie_gcs_create :: "status + 'f"
  ie_list :: "'f \<Rightarrow> string \<Rightarrow> status + listing"
  ie_files :: "('b, 'f, 'h, 'p) file_env"
  ie_meta_rows :: "'p \<Rightarrow> i64 option"
  ie_mysql :: mysql
  ie_builders :: "('a, 'b) builders"
  ie_is_directory :: "string \<Rightarrow> string + bool"
  ie_remove_all :: "string \<Rightarrow> string option"
  ie_db_init :: "import_db_options \<Rightarrow> string option"
  ie_load_schema :: "string \<Rightarrow> string + schema"
  ie_create :: "string \<Rightarrow> schema \<Rightarrow> u32 \<Rightarrow> string option"
  ie_open :: "string \<Rightarrow> string option"
  ie_index :: "(schema \<times> u32) option \<Rightarrow> ('k \<times> schema option) option"
  ie_persist :: "string \<Rightarrow> 'k \<Rightarrow> string option"
  ie_still_open :: bool
  ie_weakly_canonical :: "string \<Rightarrow> string + string"
  ie_catchup :: catchup_env

datatype 'k event =
    Ev_s3_init | Ev_s3_finalize
  | Ev_remove_all string
  | Ev_db_init import_db_options
  | Ev_create string schema u32
  | Ev_write_schema string
  | Ev_open string
  | Ev_bulk_mode
  | Ev_persist string 'k bool
  | Ev_catchup catchup_options
  | Ev_close_all

text \<open>
  How the program ends: with an exit code, by an exception nobody catches, on a null pointer; or
  it does not: the search for the bucket bits, or the catch-up after all its given readings.
\<close>

datatype import_end = Exits i32 | Uncaught string | Null_pointer | Runs_on

text \<open>A phase: it ends the program or has a result, and the events so far.\<close>

type_synonym ('k, 'r) phase = "(import_end + 'r) \<times> 'k event list"

definition and_then :: "('k, 'r) phase \<Rightarrow> ('r \<Rightarrow> ('k, 's) phase) \<Rightarrow> ('k, 's) phase" where
  "and_then m f = (case m of (Inl e, evs) \<Rightarrow> (Inl e, evs)
     | (Inr r, evs) \<Rightarrow> (case f r of (res, evs') \<Rightarrow> (res, evs @ evs')))"

section \<open>The cloud file systems\<close>

definition need_scheme :: "string \<Rightarrow> string list \<Rightarrow> bool" where
  "need_scheme sch paths = list_ex (\<lambda>p. IsCloudUri p \<and>
     (case ParseCloudUri p of None \<Rightarrow> False | Some (s, _, _) \<Rightarrow> s = sch)) paths"

definition open_store :: "bool \<Rightarrow> status + 'f \<Rightarrow> ('f option \<Rightarrow> status + 'r) \<Rightarrow> status + 'r" where
  "open_store need made rest =
     (if \<not> need then rest None else case made of Inl st \<Rightarrow> Inl st | Inr f \<Rightarrow> rest (Some f))"

definition open_stores :: "('a, 'b, 'f, 'h, 'p, 'k) import_env \<Rightarrow> string list \<Rightarrow> status + 'f cloud_file_systems" where
  "open_stores I paths =
     (let env = ho_getenv (ie_host I); create = ie_s3_create I in
      open_store (need_scheme ''oss'' paths) (MakeOssFileSystem env create) (\<lambda>oss.
      open_store (need_scheme ''s3'' paths) (MakeAwsS3FileSystem (ie_s3_defaults I) create) (\<lambda>s3.
      open_store (need_scheme ''cos'' paths) (MakeTencentCosFileSystem env create) (\<lambda>cos.
      open_store (need_scheme ''obs'' paths) (MakeHuaweiObsFileSystem env create) (\<lambda>obs.
      open_store (need_scheme ''gs'' paths) (MakeGcsFileSystem (ie_gcs_create I)) (\<lambda>gcs.
        Inr \<lparr>cf_oss = oss, cf_s3 = s3, cf_cos = cos, cf_obs = obs, cf_gcs = gcs\<rparr>))))))"

definition need_s3_api :: "string list \<Rightarrow> bool" where
  "need_s3_api paths \<longleftrightarrow> list_ex (\<lambda>s. need_scheme s paths) [''oss'', ''s3'', ''cos'', ''obs'']"

text \<open>The file systems and the expanded inputs.\<close>

definition cloud_phase ::
  "('a, 'b, 'f, 'h, 'p, 'k) import_env \<Rightarrow> string list \<Rightarrow> ('k, 'f cloud_file_systems \<times> string list) phase" where
  "cloud_phase I paths =
     and_then (if need_s3_api paths then (if st_ok (ie_s3_init I) then (Inr (), [Ev_s3_init]) else (Inl (Exits 2), []))
               else (Inr (), []))
       (\<lambda>_. case open_stores I paths of
              Inl st \<Rightarrow> (Inl (Exits 2), [])
            | Inr cloud \<Rightarrow>
                if need_s3_api paths \<or> need_scheme ''gs'' paths then
                  (case ExpandCloudInputs (ie_list I) cloud paths of
                     Inl st \<Rightarrow> (Inl (Exits 2), [])
                   | Inr files \<Rightarrow> (Inr (cloud, files), []))
                else (Inr (cloud, paths), []))"

section \<open>The index\<close>

definition import_options :: "flags \<Rightarrow> import_db_options" where
  "import_options fl =
     (let seg_b = fl_arena_seg_gb fl * 1024 * 1024 * 1024
      in \<lparr>do_db_path = fl_db_path fl, do_arena_size = seg_b, do_segment_size = seg_b,
          do_max_arena_size = fl_arena_max_gb fl * 1024 * 1024 * 1024,
          do_exclusive_arena_lock = (fl_exclusive_arena_lock_from_cfg fl \<and> \<not> fl_no_arena_lock fl),
          do_single_writer = True, do_reclaim_delay_ns = 0\<rparr>)"

text \<open>Whether the index exists, after it was removed if asked.\<close>

definition recreate_phase :: "('a, 'b, 'f, 'h, 'p, 'k) import_env \<Rightarrow> flags \<Rightarrow> ('k, bool) phase" where
  "recreate_phase I fl =
     (let idx_dir = path_join (fl_db_path fl) (fl_index_name fl) in
      case ie_is_directory I idx_dir of
        Inl e \<Rightarrow> (Inl (Uncaught e), [])
      | Inr exists \<Rightarrow>
          if fl_recreate fl \<and> exists then
            (case ie_remove_all I idx_dir of
               Some e \<Rightarrow> (Inl (Uncaught e), [Ev_remove_all idx_dir])
             | None \<Rightarrow> (Inr False, [Ev_remove_all idx_dir]))
          else (Inr exists, []))"

definition estimate :: "('a, 'b, 'f, 'h, 'p, 'k) import_env \<Rightarrow> flags \<Rightarrow> 'f cloud_file_systems \<Rightarrow> u64" where
  "estimate I fl cloud =
     (if fl_mysql_query fl = [] then EstimateTotalRows (ie_host I) (ie_files I) (ie_meta_rows I) (fl_input_files fl) cloud
      else fl_sql_est_rows fl)"

definition bits_phase :: "('a, 'b, 'f, 'h, 'p, 'k) import_env \<Rightarrow> flags \<Rightarrow> 'f cloud_file_systems \<Rightarrow> ('k, u32) phase" where
  "bits_phase I fl cloud =
     (case BucketBitsForRows (estimate I fl cloud) of None \<Rightarrow> (Inl Runs_on, []) | Some b \<Rightarrow> (Inr b, []))"

text \<open>The handle of the index afterwards: how it was made.\<close>

definition create_phase ::
  "('a, 'b, 'f, 'h, 'p, 'k) import_env \<Rightarrow> flags \<Rightarrow> bool \<Rightarrow> u32 \<Rightarrow> ('k, (schema \<times> u32) option) phase" where
  "create_phase I fl exists bucket_bits =
     (let name = fl_index_name fl; opt = import_options fl in
      case ie_db_init I opt of
        Some e \<Rightarrow> (Inl (Exits 1), [Ev_db_init opt])
      | None \<Rightarrow>
          if \<not> exists \<and> fl_create_if_missing fl then
            (case ReadFile (ie_host I) (fl_schema_json_path fl) of
               Inl e \<Rightarrow> (Inl (Exits 1), [Ev_db_init opt])
             | Inr text \<Rightarrow>
                 (case ie_load_schema I text of
                    Inl e \<Rightarrow> (Inl (Exits 1), [Ev_db_init opt])
                  | Inr sch \<Rightarrow>
                      (case ie_create I name sch bucket_bits of
                         Some e \<Rightarrow> (Inl (Exits 1), [Ev_db_init opt, Ev_create name sch bucket_bits])
                       | None \<Rightarrow>
                           (Inr (Some (sch, bucket_bits)),
                            [Ev_db_init opt, Ev_create name sch bucket_bits,
                             Ev_write_schema (path_join (path_join (fl_db_path fl) name) ''schema.json'')]))))
          else (case ie_open I name of
                  Some e \<Rightarrow> (Inl (Exits 1), [Ev_db_init opt, Ev_open name])
                | None \<Rightarrow> (Inr None, [Ev_db_init opt, Ev_open name])))"

section \<open>The source\<close>

datatype import_source = From_files "string list" | From_query mysql_config

definition source_phase :: "('a, 'b, 'f, 'h, 'p, 'k) import_env \<Rightarrow> flags \<Rightarrow> ('k, import_source) phase" where
  "source_phase I fl =
     (if fl_mysql_query fl \<noteq> [] then
        (case (if fl_mysql_init_sql_file fl \<noteq> [] then ReadInitSqlLines (ie_host I) (fl_mysql_init_sql_file fl) else Inr []) of
           Inl e \<Rightarrow> (Inl (Exits 1), [Ev_close_all])
         | Inr init_sql \<Rightarrow>
             (Inr (From_query \<lparr>mc_host = fl_mysql_host fl, mc_port = fl_mysql_port fl, mc_user = fl_mysql_user fl,
                mc_password = fl_mysql_password fl, mc_database = fl_mysql_database fl, mc_query = fl_mysql_query fl,
                mc_init_sql = init_sql, mc_batch_rows = fl_mysql_batch_rows fl\<rparr>), []))
      else (Inr (From_files (fl_input_files fl)), []))"

section \<open>Up to the start of the threads\<close>

record ('f, 'k) import_context =
  cx_flags :: flags
  cx_cloud :: "'f cloud_file_systems"
  cx_created :: "(schema \<times> u32) option"
  cx_index :: 'k
  cx_schema :: "schema option"
  cx_source :: import_source

definition flags_phase :: "('a, 'b, 'f, 'h, 'p, 'k) import_env \<Rightarrow> string list \<Rightarrow> ('k, flags) phase" where
  "flags_phase I args =
     (case ParseFlags (ie_host I) args of
        Inl e \<Rightarrow> (Inl (Exits 2), [])
      | Inr fl \<Rightarrow>
          (case ApplyConfigFile (ie_config I) (ie_json I) fl of
             Inl e \<Rightarrow> (Inl (Exits 2), [])
           | Inr fl \<Rightarrow> (Inr fl, [])))"

definition index_phase ::
  "('a, 'b, 'f, 'h, 'p, 'k) import_env \<Rightarrow> (schema \<times> u32) option \<Rightarrow> ('k, 'k \<times> schema option) phase" where
  "index_phase I created =
     (case ie_index I created of None \<Rightarrow> (Inl Null_pointer, []) | Some r \<Rightarrow> (Inr r, [Ev_bulk_mode]))"

definition index_setup ::
  "('a, 'b, 'f, 'h, 'p, 'k) import_env \<Rightarrow> flags \<Rightarrow> 'f cloud_file_systems \<Rightarrow> ('k, ('f, 'k) import_context) phase" where
  "index_setup I fl cloud =
     and_then (recreate_phase I fl) (\<lambda>exists.
     and_then (bits_phase I fl cloud) (\<lambda>bucket_bits.
     and_then (create_phase I fl exists bucket_bits) (\<lambda>created.
     and_then (index_phase I created) (\<lambda>(idx, sch).
     and_then (source_phase I fl) (\<lambda>source.
       (Inr \<lparr>cx_flags = fl, cx_cloud = cloud, cx_created = created, cx_index = idx, cx_schema = sch,
          cx_source = source\<rparr>, []))))))"

definition import_setup ::
  "('a, 'b, 'f, 'h, 'p, 'k) import_env \<Rightarrow> string list \<Rightarrow> ('k, ('f, 'k) import_context) phase" where
  "import_setup I args =
     and_then (flags_phase I args) (\<lambda>fl.
     and_then (cloud_phase I (fl_input_files fl)) (\<lambda>(cloud, files).
       index_setup I (fl\<lparr>fl_input_files := files\<rparr>) cloud))"

section \<open>After the threads\<close>

definition catchup_opts :: "flags \<Rightarrow> table_kafka_config \<Rightarrow> string \<Rightarrow> catchup_options" where
  "catchup_opts fl kc brokers =
     (let o1 = KafkaImportCatchupOptions_init\<lparr>co_brokers := brokers, co_topic := tk_topic kc,
        co_partition := tk_partition kc, co_offline_watermark_sec := fl_kafka_offline_watermark_sec fl,
        co_rewind_minutes := fl_kafka_rewind_minutes fl\<rparr>
      in if 0 < sint (fl_kafka_catchup_wall_sec fl) then o1\<lparr>co_max_wall_seconds := fl_kafka_catchup_wall_sec fl\<rparr> else o1)"

text \<open>The catch-up: whether it succeeded, and the index and files it leaves.\<close>

definition catchup_phase ::
  "('d, 'k) engine \<Rightarrow> ('a, 'b, 'f, 'h, 'p, 'k) import_env \<Rightarrow> ('f, 'k) import_context \<Rightarrow> 'k \<Rightarrow> ('k, bool \<times> 'k catchup) phase" where
  "catchup_phase E I cx idx =
     (let fl = cx_flags cx; st = \<lparr>cu_index = idx, cu_offset_file = None, cu_meta_file = None\<rparr> in
      case ie_weakly_canonical I (path_join (fl_db_path fl) (fl_index_name fl)) of
        Inl e \<Rightarrow> (Inr (False, st), [])
      | Inr canon \<Rightarrow>
          (case LoadTableConfig (ie_config I) (ie_json I) canon of
             Inl e \<Rightarrow> (Inr (False, st), [])
           | Inr tcfg \<Rightarrow>
               (case tc_kafka tcfg of
                  None \<Rightarrow> (Inr (False, st), [])
                | Some kc \<Rightarrow>
                    let brokers = (if tk_brokers kc = [] then fl_kafka_default_brokers fl else tk_brokers kc) in
                    if brokers = [] then (Inr (False, st), [])
                    else if \<not> ie_still_open I then (Inr (False, st), [])
                    else let copts = catchup_opts fl kc brokers in
                      (case RunKafkaImportCatchup (ie_catchup I) (ie_json I)
                              (ApplyStreamJsonObject E (ie_json I) (the (cx_schema cx))) copts st of
                         None \<Rightarrow> (Inl Runs_on, [Ev_catchup copts])
                       | Some r \<Rightarrow> (Inr r, [Ev_catchup copts])))))"

record 'k import_result =
  ir_end :: import_end
  ir_events :: "'k event list"
  ir_catchup :: "'k catchup option"

definition after_import ::
  "('d, 'k) engine \<Rightarrow> ('a, 'b, 'f, 'h, 'p, 'k) import_env \<Rightarrow> ('f, 'k) import_context \<Rightarrow> bool \<Rightarrow> 'k \<Rightarrow> 'k import_result" where
  "after_import E I cx ok idx =
     (let name = fl_index_name (cx_flags cx) in
      if \<not> ok then \<lparr>ir_end = Exits 1, ir_events = [Ev_close_all], ir_catchup = None\<rparr>
      else case ie_persist I name idx of
        Some e \<Rightarrow> \<lparr>ir_end = Exits 1, ir_events = [Ev_persist name idx False, Ev_close_all], ir_catchup = None\<rparr>
      | None \<Rightarrow>
          if \<not> fl_kafka_catchup (cx_flags cx) then
            \<lparr>ir_end = Exits 0, ir_events = [Ev_persist name idx True, Ev_close_all], ir_catchup = None\<rparr>
          else (case catchup_phase E I cx idx of
              (Inl e, evs) \<Rightarrow> \<lparr>ir_end = e, ir_events = Ev_persist name idx True # evs, ir_catchup = None\<rparr>
            | (Inr (done_ok, st), evs) \<Rightarrow>
                \<lparr>ir_end = Exits (if done_ok then 0 else 1), ir_events = Ev_persist name idx True # evs @ [Ev_close_all],
                  ir_catchup = Some st\<rparr>))"

text \<open>\<open>S3Shutdown\<close>: the destructor that runs when \<open>main\<close> returns.\<close>

definition is_s3_init :: "'k event \<Rightarrow> bool" where
  "is_s3_init ev = (case ev of Ev_s3_init \<Rightarrow> True | _ \<Rightarrow> False)"

definition s3_shutdown :: "'k import_result \<Rightarrow> 'k import_result" where
  "s3_shutdown r =
     (case ir_end r of
        Exits c \<Rightarrow> if list_ex is_s3_init (ir_events r) then r\<lparr>ir_events := ir_events r @ [Ev_s3_finalize]\<rparr> else r
      | _ \<Rightarrow> r)"

definition main_result :: "'k event list \<Rightarrow> 'k import_result \<Rightarrow> 'k import_result" where
  "main_result evs r = s3_shutdown (r\<lparr>ir_events := evs @ ir_events r\<rparr>)"

section \<open>\<open>main\<close>\<close>

definition writer_start :: "'k \<Rightarrow> 'k writer" where
  "writer_start idx = \<lparr>wr_index = idx, wr_rows_imported = 0, wr_skipped_pk_null = 0, wr_progress = ImportProgress_init\<rparr>"

text \<open>The threads, from the start of the writer to its join: whether no error was set, and the index.\<close>

inductive import_threads ::
  "('d, 'k) engine \<Rightarrow> ('a, 'b) arrow \<Rightarrow> ('a, 'b, 'f, 'h, 'p, 'k) import_env \<Rightarrow> ('f, 'k) import_context \<Rightarrow> bool \<Rightarrow> 'k \<Rightarrow> bool"
  for E A I cx where
  threads_files:
    "cx_source cx = From_files paths \<Longrightarrow>
     (pipeline_step (ProduceLoop A (ie_files I) (cx_cloud cx) (cx_schema cx) paths)
        (write_parsed E A (the (cx_schema cx))) (cx_schema cx \<noteq> None))\<^sup>*\<^sup>*
       (pipeline_init (unat (fl_import_queue_batches (cx_flags cx))) (unat (fl_import_io_workers (cx_flags cx)))
          0 F_entry (writer_start (cx_index cx))) p \<Longrightarrow>
     pl_main p = M_done ok \<Longrightarrow> import_threads E A I cx ok (wr_index (pl_sink p))"
| threads_query:
    "cx_source cx = From_query cfg \<Longrightarrow>
     (pipeline_step (mysql_ProduceLoop (ie_mysql I) cfg (ie_builders I) (cx_schema cx))
        (write_parsed E A (the (cx_schema cx))) (cx_schema cx \<noteq> None))\<^sup>*\<^sup>*
       (pipeline_init (unat (fl_import_queue_batches (cx_flags cx))) (unat (fl_import_io_workers (cx_flags cx)))
          False Q_entry (writer_start (cx_index cx))) p \<Longrightarrow>
     pl_main p = M_done ok \<Longrightarrow> import_threads E A I cx ok (wr_index (pl_sink p))"

inductive import_main ::
  "('d, 'k) engine \<Rightarrow> ('a, 'b) arrow \<Rightarrow> ('a, 'b, 'f, 'h, 'p, 'k) import_env \<Rightarrow> string list \<Rightarrow> 'k import_result \<Rightarrow> bool"
  for E A I args where
  main_stops:
    "import_setup I args = (Inl e, evs) \<Longrightarrow>
     import_main E A I args (main_result evs \<lparr>ir_end = e, ir_events = [], ir_catchup = None\<rparr>)"
| main_runs:
    "import_setup I args = (Inr cx, evs) \<Longrightarrow> import_threads E A I cx ok idx \<Longrightarrow>
     import_main E A I args (main_result evs (after_import E I cx ok idx))"

end
