(* ===== verification/ImportMainProps.thy ===== *)
theory ImportMainProps
  imports ImportMain
begin

text \<open>
  What \<open>main\<close> of the import promises: the order of its effects, what its exit codes mean, and
  that it ends.
\<close>

section \<open>Phases\<close>

lemma and_then_cases:
  assumes "and_then m f = (res, evs)"
  obtains (stop) e where "m = (Inl e, evs)" "res = Inl e"
    | (go) r evs1 evs2 where "m = (Inr r, evs1)" "f r = (res, evs2)" "evs = evs1 @ evs2"
proof (cases m)
  case (Pair r evs1)
  with assms that show ?thesis by (cases r; cases "f (projr r)") (auto simp: and_then_def split: prod.splits)
qed

fun prep_event :: "'k event \<Rightarrow> bool" where
  "prep_event (Ev_remove_all _) = True"
| "prep_event (Ev_db_init _) = True"
| "prep_event (Ev_create _ _ _) = True"
| "prep_event (Ev_write_schema _) = True"
| "prep_event (Ev_open _) = True"
| "prep_event _ = False"

lemma flags_phase_shape: "flags_phase I args = (res, evs) \<Longrightarrow> evs = [] \<and> (\<forall>e. res = Inl e \<longrightarrow> e = Exits 2)"
  by (auto simp: flags_phase_def split: sum.splits)

lemma cloud_phase_shape:
  "cloud_phase I paths = (res, evs) \<Longrightarrow> evs \<in> {[], [Ev_s3_init]} \<and> (\<forall>e. res = Inl e \<longrightarrow> e = Exits 2)"
  by (auto simp: cloud_phase_def and_then_def split: sum.splits if_splits prod.splits)

lemma recreate_phase_shape:
  "recreate_phase I fl = (res, evs) \<Longrightarrow> list_all prep_event evs \<and> (\<forall>e. res = Inl e \<longrightarrow> (\<exists>t. e = Uncaught t))"
  by (auto simp: recreate_phase_def Let_def split: sum.splits if_splits option.splits)

lemma bits_phase_shape: "bits_phase I fl cloud = (res, evs) \<Longrightarrow> evs = [] \<and> (\<forall>e. res = Inl e \<longrightarrow> e = Runs_on)"
  by (auto simp: bits_phase_def split: option.splits)

lemma create_phase_shape:
  "create_phase I fl ex bits = (res, evs) \<Longrightarrow> list_all prep_event evs \<and> (\<forall>e. res = Inl e \<longrightarrow> e = Exits 1)"
  by (auto simp: create_phase_def Let_def split: sum.splits if_splits option.splits)

lemma index_phase_shape:
  "index_phase I created = (res, evs) \<Longrightarrow>
   (\<exists>r. res = Inr r \<and> evs = [Ev_bulk_mode]) \<or> (res = Inl Null_pointer \<and> evs = [])"
  by (auto simp: index_phase_def split: option.splits)

lemma source_phase_shape:
  "source_phase I fl = (res, evs) \<Longrightarrow>
   (\<exists>s. res = Inr s \<and> evs = []) \<or> (res = Inl (Exits 1) \<and> evs = [Ev_close_all])"
  by (auto simp: source_phase_def split: sum.splits if_splits)

text \<open>The events of the setup: S3, then the index, then what was done with it.\<close>

definition index_shape :: "import_end + 'r \<Rightarrow> 'k event list \<Rightarrow> bool" where
  "index_shape res evs \<longleftrightarrow> (\<exists>m b. evs = m @ b \<and> list_all prep_event m \<and>
     (case res of Inr cx \<Rightarrow> b = [Ev_bulk_mode]
      | Inl e \<Rightarrow> (e = Exits 1 \<and> b \<in> {[], [Ev_bulk_mode, Ev_close_all]}) \<or> ((\<forall>c. e \<noteq> Exits c) \<and> b = [])))"

lemma index_shape_prep:
  "list_all prep_event evs \<Longrightarrow> index_shape res evs' \<Longrightarrow> index_shape res (evs @ evs')"
  "list_all prep_event evs \<Longrightarrow> (\<forall>c. e = Exits c \<longrightarrow> c = 1) \<Longrightarrow> index_shape (Inl e) evs"
proof -
  assume prep: "list_all prep_event evs"
  { assume "index_shape res evs'"
    then obtain m b where "evs' = m @ b" "list_all prep_event m" and b: "case res of Inr cx \<Rightarrow> b = [Ev_bulk_mode]
      | Inl e \<Rightarrow> (e = Exits 1 \<and> b \<in> {[], [Ev_bulk_mode, Ev_close_all]}) \<or> ((\<forall>c. e \<noteq> Exits c) \<and> b = [])"
      unfolding index_shape_def by blast
    with prep show "index_shape res (evs @ evs')"
      unfolding index_shape_def by (intro exI [of _ "evs @ m"] exI [of _ b]) simp }
  assume "\<forall>c. e = Exits c \<longrightarrow> c = 1"
  with prep show "index_shape (Inl e) evs"
    unfolding index_shape_def by (intro exI [of _ evs] exI [of _ "[]"]) (cases e; simp)
qed

text \<open>A phase of preparation, and what follows it.\<close>

lemma and_then_prep:
  assumes "and_then m f = (res, evs)"
    and "\<And>r evs1. m = (r, evs1) \<Longrightarrow> list_all prep_event evs1 \<and> (\<forall>e c. r = Inl e \<longrightarrow> e = Exits c \<longrightarrow> c = 1)"
    and "\<And>r evs2. f r = (res, evs2) \<Longrightarrow> index_shape res evs2"
  shows "index_shape res evs"
  using assms(1)
proof (cases rule: and_then_cases)
  case (stop e)
  with assms(2) show ?thesis by (simp add: index_shape_prep(2))
next
  case (go r evs1 evs2)
  with assms(2,3) show ?thesis by (simp add: index_shape_prep(1))
qed

lemma last_phase_shape:
  assumes "and_then (index_phase I created) (\<lambda>(idx, sch). and_then (source_phase I fl) (\<lambda>source. (Inr (g idx sch source), []))) = (res, evs)"
  shows "index_shape res evs"
  using assms
proof (cases rule: and_then_cases)
  case (stop e)
  with index_phase_shape [OF stop(1)] show ?thesis by (simp add: index_shape_def)
next
  case (go r evs1 evs2)
  from index_phase_shape [OF go(1)] go(3) have "evs = Ev_bulk_mode # evs2" by simp
  moreover from go(2) have "evs2 = [] \<and> (\<exists>cx. res = Inr cx) \<or> evs2 = [Ev_close_all] \<and> res = Inl (Exits 1)"
    by (cases r) (auto simp: and_then_def split: prod.splits sum.splits dest: source_phase_shape)
  ultimately show ?thesis unfolding index_shape_def by (intro exI [of _ "[]"] exI [of _ evs]) auto
qed

lemma index_setup_shape:
  assumes "index_setup I fl cloud = (res, evs)"
  shows "index_shape res evs"
  using assms unfolding index_setup_def
proof (rule and_then_prep)
  fix ex evs1
  assume "and_then (bits_phase I fl cloud) (\<lambda>bits. and_then (create_phase I fl ex bits) (\<lambda>created.
      and_then (index_phase I created) (\<lambda>(idx, sch). and_then (source_phase I fl) (\<lambda>source.
       (Inr \<lparr>cx_flags = fl, cx_cloud = cloud, cx_created = created, cx_index = idx, cx_schema = sch,
          cx_source = source\<rparr>, []))))) = (res, evs1)"
  then show "index_shape res evs1"
  proof (rule and_then_prep)
    fix bits evs2
    assume "and_then (create_phase I fl ex bits) (\<lambda>created.
      and_then (index_phase I created) (\<lambda>(idx, sch). and_then (source_phase I fl) (\<lambda>source.
       (Inr \<lparr>cx_flags = fl, cx_cloud = cloud, cx_created = created, cx_index = idx, cx_schema = sch,
          cx_source = source\<rparr>, [])))) = (res, evs2)"
    then show "index_shape res evs2"
      by (rule and_then_prep) (auto dest: create_phase_shape intro: last_phase_shape)
  qed (auto dest: bits_phase_shape)
qed (auto dest: recreate_phase_shape)

definition setup_shape :: "import_end + 'r \<Rightarrow> 'k event list \<Rightarrow> bool" where
  "setup_shape res evs \<longleftrightarrow> (\<exists>s evs'. evs = s @ evs' \<and> s \<in> {[], [Ev_s3_init]} \<and>
     (res = Inl (Exits 2) \<and> evs' = [] \<or> index_shape res evs'))"

lemma setup_events:
  assumes "import_setup I args = (res, evs)"
  shows "setup_shape res evs"
  using assms unfolding import_setup_def
proof (cases rule: and_then_cases)
  case (stop e)
  with flags_phase_shape [OF stop(1)] show ?thesis by (auto simp: setup_shape_def)
next
  case (go fl evs0 evs1)
  from flags_phase_shape [OF go(1)] have e0: "evs0 = []" by simp
  from go(2) show ?thesis
  proof (cases rule: and_then_cases)
    case (stop e)
    with cloud_phase_shape [OF stop(1)] e0 go(3) show ?thesis by (auto simp: setup_shape_def)
  next
    case (go p s evs2)
    obtain cloud files where p: "p = (cloud, files)" by (cases p)
    from go(2) have "index_shape res evs2" unfolding p split by (rule index_setup_shape)
    with cloud_phase_shape [OF go(1)] e0 go(3) \<open>evs = evs0 @ evs1\<close> show ?thesis
      unfolding setup_shape_def by (intro exI [of _ s] exI [of _ evs2]) simp
  qed
qed

section \<open>The order of the effects\<close>

text \<open>What follows the threads: close, or persist, the catch-up if asked, close.\<close>

definition persist_then_close :: "'k event list \<Rightarrow> bool" where
  "persist_then_close evs \<longleftrightarrow>
     (\<exists>name idx stored cu. evs = Ev_persist name idx stored # cu @ [Ev_close_all] \<and>
        (cu = [] \<or> stored \<and> (\<exists>opt. cu = [Ev_catchup opt])))"

definition finish_shape :: "import_end \<Rightarrow> 'k event list \<Rightarrow> bool" where
  "finish_shape e evs \<longleftrightarrow>
     (e = Exits 1 \<and> evs = [Ev_close_all]) \<or>
     (e = Exits 0 \<or> e = Exits 1) \<and> persist_then_close evs \<or>
     (\<exists>name idx opt. e = Runs_on \<and> evs = [Ev_persist name idx True, Ev_catchup opt])"

lemma catchup_phase_shape:
  "catchup_phase E I cx idx = (res, evs) \<Longrightarrow>
   (evs = [] \<or> (\<exists>opt. evs = [Ev_catchup opt])) \<and> (\<forall>e. res = Inl e \<longrightarrow> e = Runs_on \<and> evs \<noteq> [])"
  by (auto simp: catchup_phase_def Let_def split: sum.splits option.splits if_splits)

lemma after_import_shape: "finish_shape (ir_end (after_import E I cx ok idx)) (ir_events (after_import E I cx ok idx))"
  unfolding after_import_def finish_shape_def persist_then_close_def Let_def
  by (auto split: option.split prod.split sum.split dest!: catchup_phase_shape)

lemma s3_shutdown_end [simp]: "ir_end (s3_shutdown r) = ir_end r" "ir_catchup (s3_shutdown r) = ir_catchup r"
  by (simp_all add: s3_shutdown_def split: import_end.split)

lemma main_result_end [simp]: "ir_end (main_result evs r) = ir_end r" "ir_catchup (main_result evs r) = ir_catchup r"
  by (simp_all add: main_result_def)

lemma s3_shutdown_events:
  assumes "ir_events r = s @ rest" "s \<in> {[], [Ev_s3_init]}" "list_all (\<lambda>ev. \<not> is_s3_init ev) rest" "ir_end r = Exits c"
  shows "ir_events (s3_shutdown r) = s @ rest @ (if s = [] then [] else [Ev_s3_finalize])"
proof -
  have "\<not> list_ex is_s3_init rest" using assms(3) by (simp add: list_ex_iff list_all_iff)
  with assms show ?thesis by (auto simp: s3_shutdown_def is_s3_init_def)
qed

lemma prep_not_s3: "list_all prep_event m \<Longrightarrow> list_all (\<lambda>ev. \<not> is_s3_init ev) m"
  by (induction m) (auto simp: is_s3_init_def split: event.split)

text \<open>The effects between those of S3: preparation, then bulk mode and what follows it.\<close>

definition body_shape :: "i32 \<Rightarrow> 'k event list \<Rightarrow> bool" where
  "body_shape c evs \<longleftrightarrow> (c = 2 \<and> evs = []) \<or>
     (\<exists>prep rest. evs = prep @ rest \<and> list_all prep_event prep \<and>
        ((c = 1 \<and> rest \<in> {[], [Ev_bulk_mode, Ev_close_all]}) \<or>
         (\<exists>last. (c = 0 \<or> c = 1) \<and> rest = Ev_bulk_mode # last \<and> persist_then_close last)))"

lemma body_no_s3: "body_shape c evs \<Longrightarrow> list_all (\<lambda>ev. \<not> is_s3_init ev) evs"
  by (auto simp: body_shape_def persist_then_close_def is_s3_init_def dest: prep_not_s3)

lemma main_body:
  assumes "import_main E A I args r" "ir_end r = Exits c"
  obtains s evs where "s \<in> {[], [Ev_s3_init]}" "body_shape c evs"
    "ir_events r = s @ evs @ (if s = [] then [] else [Ev_s3_finalize])"
proof -
  have "\<exists>r0 s evs. r = s3_shutdown r0 \<and> ir_end r0 = Exits c \<and> s \<in> {[], [Ev_s3_init]} \<and> ir_events r0 = s @ evs \<and> body_shape c evs"
    using assms
  proof (cases rule: import_main.cases)
    case (main_stops e evs)
    let ?r0 = "\<lparr>ir_end = e, ir_events = evs, ir_catchup = None\<rparr>"
    from setup_events [OF main_stops(2)] assms(2) main_stops(1) obtain s evs' where
      s: "evs = s @ evs'" "s \<in> {[], [Ev_s3_init]}" "body_shape c evs'"
      by (auto simp: setup_shape_def index_shape_def body_shape_def)
    with main_stops assms(2) show ?thesis
      by (intro exI [of _ ?r0] exI [of _ s] exI [of _ evs']) (simp add: main_result_def)
  next
    case (main_runs cx evs ok idx)
    let ?a = "after_import E I cx ok idx"
    let ?r0 = "?a\<lparr>ir_events := evs @ ir_events ?a\<rparr>"
    from setup_events [OF main_runs(2)] obtain s m where
      s: "evs = s @ m @ [Ev_bulk_mode]" "s \<in> {[], [Ev_s3_init]}" "list_all prep_event m"
      by (auto simp: setup_shape_def index_shape_def)
    have "body_shape c (m @ Ev_bulk_mode # ir_events ?a)"
      using after_import_shape [where E = E and I = I and cx = cx and ok = ok and idx = idx] s(3) assms(2) main_runs(1)
      unfolding body_shape_def
      by (intro disjI2 exI [of _ m] exI [of _ "Ev_bulk_mode # ir_events ?a"]) (auto simp: finish_shape_def)
    with s main_runs assms(2) show ?thesis
      by (intro exI [of _ ?r0] exI [of _ s] exI [of _ "m @ Ev_bulk_mode # ir_events ?a"]) (simp add: main_result_def)
  qed
  then obtain r0 s evs where r0: "r = s3_shutdown r0" "ir_end r0 = Exits c" "s \<in> {[], [Ev_s3_init]}"
    "ir_events r0 = s @ evs" "body_shape c evs" by blast
  from s3_shutdown_events [OF r0(4,3) body_no_s3 [OF r0(5)] r0(2)] r0 that show ?thesis by blast
qed

text \<open>
  Asked to recreate an index without being allowed to create it, the program removes the index and
  then opens what is no longer there.
\<close>

lemma recreate_without_create:
  assumes "ie_is_directory I (path_join (fl_db_path fl) (fl_index_name fl)) = Inr True"
    and "ie_remove_all I (path_join (fl_db_path fl) (fl_index_name fl)) = None" "ie_db_init I (import_options fl) = None"
    and "fl_recreate fl" "\<not> fl_create_if_missing fl"
  shows "snd (and_then (recreate_phase I fl) (\<lambda>exists. create_phase I fl exists bits)) =
    [Ev_remove_all (path_join (fl_db_path fl) (fl_index_name fl)), Ev_db_init (import_options fl), Ev_open (fl_index_name fl)]"
  using assms by (simp add: recreate_phase_def create_phase_def and_then_def Let_def split: option.split)

section \<open>What is persisted\<close>

text \<open>The batches of the source; \<open>None\<close> when it cannot be read to its end.\<close>

definition source_batches ::
  "('a, 'b) arrow \<Rightarrow> ('a, 'b, 'f, 'h, 'p, 'k) import_env \<Rightarrow> ('f, 'k) import_context \<Rightarrow> schema \<Rightarrow> 'b parsed_batch list option" where
  "source_batches A I cx S =
     (case cx_source cx of
        From_files paths \<Rightarrow> import_batches A (ie_files I) (cx_cloud cx) S paths
      | From_query cfg \<Rightarrow> query_batches (ie_mysql I) cfg (ie_builders I) S)"

text \<open>The table after an import: the old one with the rows of the source.\<close>

definition imported_table ::
  "('d, 'k) engine \<Rightarrow> ('a, 'b) arrow \<Rightarrow> schema \<Rightarrow> 'b parsed_batch list \<Rightarrow> 'k \<Rightarrow> 'k \<Rightarrow> bool" where
  "imported_table E A S bs k0 k \<longleftrightarrow>
     (let before = table_view E S k0; after = table_view E S k; rows = import_sheet A S bs in
      rows_added before rows after \<and> (fresh_rows before rows \<longrightarrow> after = before ++ map_of rows))"

lemma threads_report:
  assumes "ingest_ok E S" "pk_importable S" "put_ok E" "cx_schema cx = Some S" "import_threads E A I cx ok idx"
  shows "(ok \<longleftrightarrow> (\<exists>bs. source_batches A I cx S = Some bs \<and> (\<forall>pb \<in> set bs. batch_good A S (pb_batch pb)))) \<and>
    (ok \<longrightarrow> imported_table E A S (the (source_batches A I cx S)) (cx_index cx) idx)"
  using assms(5)
proof (cases rule: import_threads.cases)
  case (threads_files paths p)
  let ?cap = "unat (fl_import_queue_batches (cx_flags cx))" and ?n = "unat (fl_import_io_workers (cx_flags cx))"
  have run: "(file_import_step E A (ie_files I) (cx_cloud cx) S paths)\<^sup>*\<^sup>*
      (file_import_init ?cap ?n (writer_start (cx_index cx))) p"
    using threads_files(3) by (simp add: assms(4))
  have src: "source_batches A I cx S = import_batches A (ie_files I) (cx_cloud cx) S paths"
    by (simp add: source_batches_def threads_files(2))
  note report = file_import.import_reports(1) [OF assms(1,2) run threads_files(4) files_todo_batches, folded src]
  have "imported_table E A S (the (source_batches A I cx S)) (cx_index cx) idx" if ok
  proof -
    from that report obtain bs where bs: "source_batches A I cx S = Some bs" by blast
    then have "files_todo A (ie_files I) (cx_cloud cx) (Some S) paths 0 = image_mset Some (mset bs)"
      unfolding src by (rule import_batches_tokens)
    from file_import.import_table [OF assms(1-3) run _ this] that threads_files(1,4) show ?thesis
      by (auto simp: imported_table_def bs writer_start_def Let_def rows_added_fresh)
  qed
  with report show ?thesis by blast
next
  case (threads_query cfg p)
  let ?cap = "unat (fl_import_queue_batches (cx_flags cx))" and ?n = "unat (fl_import_io_workers (cx_flags cx))"
  have run: "(mysql_import_step E A (ie_mysql I) cfg (ie_builders I) S)\<^sup>*\<^sup>*
      (pipeline_init ?cap ?n False Q_entry (writer_start (cx_index cx))) p"
    using threads_query(3) by (simp add: assms(4))
  have src: "source_batches A I cx S = query_batches (ie_mysql I) cfg (ie_builders I) S"
    by (simp add: source_batches_def threads_query(2))
  note report = mysql_import.import_reports(1) [OF assms(1,2) run threads_query(4) query_work, folded src]
  have "imported_table E A S (the (source_batches A I cx S)) (cx_index cx) idx" if ok
  proof -
    from that report obtain bs where bs: "source_batches A I cx S = Some bs" by blast
    then have "mysql_work (ie_mysql I) cfg (ie_builders I) S False = image_mset Some (mset bs)"
      unfolding src by (rule query_tokens)
    from mysql_import.import_table [OF assms(1-3) run _ this] that threads_query(1,4) show ?thesis
      by (auto simp: imported_table_def bs writer_start_def Let_def rows_added_fresh)
  qed
  with report show ?thesis by blast
qed

lemma catchup_commit_saved:
  "catchup_commit C opt last_offset st = (True, st') \<Longrightarrow> cu_offset_file st' \<noteq> None \<and> cu_meta_file st' \<noteq> None"
  by (auto simp: catchup_commit_def SaveOffsetFile_def WriteMetaFile_def Let_def split: if_splits)

lemma catchup_saved:
  "RunKafkaImportCatchup C J apply opt st = Some (True, st') \<Longrightarrow> cu_offset_file st' \<noteq> None \<and> cu_meta_file st' \<noteq> None"
  using catchup_commit_saved
  by (fastforce simp: RunKafkaImportCatchup_def Let_def split: if_splits times_answer.splits option.splits loop_end.splits)

lemma catchup_phase_saved:
  "catchup_phase E I cx idx = (Inr (True, st), evs) \<Longrightarrow>
   cu_offset_file st \<noteq> None \<and> cu_meta_file st \<noteq> None \<and> (\<exists>opt. evs = [Ev_catchup opt])"
  unfolding catchup_phase_def Let_def
  by (auto split: sum.splits option.splits if_splits dest: catchup_saved)

lemma persist_after: "Ev_persist name k stored \<in> set (ir_events (after_import E I cx ok idx)) \<longleftrightarrow>
    ok \<and> name = fl_index_name (cx_flags cx) \<and> k = idx \<and> stored = (ie_persist I name k = None)"
proof (cases "catchup_phase E I cx idx")
  case (Pair res evs)
  from catchup_phase_shape [OF Pair] have "Ev_persist name k stored \<notin> set evs" by auto
  with Pair show ?thesis by (cases res) (auto simp: after_import_def Let_def split: option.split)
qed

lemma prep_no_persist: "list_all prep_event m \<Longrightarrow> Ev_persist name k stored \<notin> set m"
  by (induction m) auto

lemma setup_no_persist: "import_setup I args = (res, evs) \<Longrightarrow> Ev_persist name k stored \<notin> set evs"
  by (cases res) (auto simp: setup_shape_def index_shape_def prep_no_persist dest!: setup_events)

lemma persist_result:
  "Ev_persist name k stored \<in> set (ir_events (main_result evs r)) \<longleftrightarrow> Ev_persist name k stored \<in> set (evs @ ir_events r)"
  by (auto simp: main_result_def s3_shutdown_def split: import_end.split)

lemma main_persists:
  assumes "import_setup I args = (Inr cx, evs)" "import_main E A I args r"
  obtains ok idx where "import_threads E A I cx ok idx" "r = main_result evs (after_import E I cx ok idx)"
    "\<forall>name k stored. Ev_persist name k stored \<in> set (ir_events r) \<longleftrightarrow>
       ok \<and> name = fl_index_name (cx_flags cx) \<and> k = idx \<and> stored = (ie_persist I name k = None)"
  using assms(2)
proof (cases rule: import_main.cases)
  case (main_stops e evs)
  with assms(1) show ?thesis by simp
next
  case (main_runs cx' evs' ok idx)
  with assms(1) have same: "cx' = cx" "evs' = evs" by simp_all
  have "Ev_persist name k stored \<in> set (ir_events r) \<longleftrightarrow>
      ok \<and> name = fl_index_name (cx_flags cx) \<and> k = idx \<and> stored = (ie_persist I name k = None)" for name k stored
    using setup_no_persist [OF assms(1), of name k stored]
      persist_after [where E = E and I = I and cx = cx and ok = ok and idx = idx and name = name and k = k
        and stored = stored]
    unfolding main_runs(1) same persist_result by simp
  with main_runs same that show ?thesis by blast
qed

lemma exit_zero:
  "ir_end (after_import E I cx ok idx) = Exits 0 \<Longrightarrow>
   ok \<and> ie_persist I (fl_index_name (cx_flags cx)) idx = None \<and> (fl_kafka_catchup (cx_flags cx) \<longrightarrow>
     (\<exists>st. ir_catchup (after_import E I cx ok idx) = Some st \<and> cu_offset_file st \<noteq> None \<and> cu_meta_file st \<noteq> None))"
  unfolding after_import_def Let_def
  by (auto split: if_splits option.splits prod.splits sum.splits dest: catchup_phase_saved catchup_phase_shape)

text \<open>
  C1: An import tool run persists the truth or nothing. Once the setup has succeeded, whatever the
  interleaving of the threads: the tool tries to persist an index exactly when the source, files
  or a query, could be read to its end and every row has a null key or cells that fit, and it has
  persisted it exactly when the database then took it. It is the one index named by the flags,
  and its table is the one that was opened with the rows of the source added: a key that no row
  has holds what it held, a key of the rows holds one of them or the row it held before, and where
  no two rows share a key and the table had none of the keys, exactly the rows of the source are
  added. The exit code 0 is only given when the index was persisted and, if the Kafka catch-up was
  asked for, the offset file and the meta file were written.
\<close>

theorem import_main_truthful:
  assumes "ingest_ok E S" "pk_importable S" "put_ok E"
    and "import_setup I args = (Inr cx, evs)" "cx_schema cx = Some S"
    and "import_main E A I args r"
  shows "((\<exists>name k stored. Ev_persist name k stored \<in> set (ir_events r)) \<longleftrightarrow>
       (\<exists>bs. source_batches A I cx S = Some bs \<and> (\<forall>pb \<in> set bs. batch_good A S (pb_batch pb)))) \<and>
    (\<forall>name k stored. Ev_persist name k stored \<in> set (ir_events r) \<longrightarrow>
       name = fl_index_name (cx_flags cx) \<and> stored = (ie_persist I name k = None) \<and>
       imported_table E A S (the (source_batches A I cx S)) (cx_index cx) k) \<and>
    (ir_end r = Exits 0 \<longrightarrow> (\<exists>name k. Ev_persist name k True \<in> set (ir_events r)) \<and>
       (fl_kafka_catchup (cx_flags cx) \<longrightarrow>
          (\<exists>st. ir_catchup r = Some st \<and> cu_offset_file st \<noteq> None \<and> cu_meta_file st \<noteq> None)))"
proof -
  obtain ok idx where run: "import_threads E A I cx ok idx"
    "r = main_result evs (after_import E I cx ok idx)"
    "\<forall>name k stored. Ev_persist name k stored \<in> set (ir_events r) \<longleftrightarrow>
       ok \<and> name = fl_index_name (cx_flags cx) \<and> k = idx \<and> stored = (ie_persist I name k = None)"
    by (rule main_persists [OF assms(4,6)])
  note report = threads_report [OF assms(1-3,5) run(1)]
  have zero: "ir_end r = Exits 0 \<Longrightarrow> ok \<and> ie_persist I (fl_index_name (cx_flags cx)) idx = None \<and>
      (fl_kafka_catchup (cx_flags cx) \<longrightarrow>
      (\<exists>st. ir_catchup r = Some st \<and> cu_offset_file st \<noteq> None \<and> cu_meta_file st \<noteq> None))"
    unfolding run(2) main_result_end by (rule exit_zero)
  from report run(3) zero show ?thesis by simp
qed

text \<open>
  C29: The effects of the import tool come in one order. When it exits, its code is 0, 1 or 2. With
  2 it has touched nothing but S3. Otherwise it has prepared the database, removing, creating or
  opening the index; from the moment the index is in use the database is closed exactly once and
  last, the index is persisted at most once, and only after that succeeded the catch-up may run,
  at most once; and S3,
  once initialised, is finalised after everything else.
\<close>

theorem import_main_order:
  assumes "import_main E A I args r" "ir_end r = Exits c"
  shows "\<exists>s evs. ir_events r = s @ evs @ (if s = [] then [] else [Ev_s3_finalize]) \<and> s \<in> {[], [Ev_s3_init]} \<and>
    (c = 2 \<and> evs = [] \<or>
     (\<exists>prep rest. evs = prep @ rest \<and> list_all prep_event prep \<and>
        (c = 1 \<and> rest \<in> {[], [Ev_bulk_mode, Ev_close_all]} \<or>
         (\<exists>finish. (c = 0 \<or> c = 1) \<and> rest = Ev_bulk_mode # finish \<and> persist_then_close finish))))"
  using main_body [OF assms] unfolding body_shape_def by metis

section \<open>The tool ends\<close>

lemma threads_exist:
  assumes "cx_schema cx = Some S"
  shows "\<exists>ok idx. import_threads E A I cx ok idx"
proof (cases "cx_source cx")
  case (From_files paths)
  from file_import.run_completes obtain p ok where
    "(file_import_step E A (ie_files I) (cx_cloud cx) S paths)\<^sup>*\<^sup>*
      (file_import_init (unat (fl_import_queue_batches (cx_flags cx))) (unat (fl_import_io_workers (cx_flags cx)))
         (writer_start (cx_index cx))) p" "pl_main p = M_done ok" by blast
  with import_threads.threads_files [OF From_files] assms show ?thesis by fastforce
next
  case (From_query cfg)
  from mysql_import.run_completes obtain p ok where
    "(mysql_import_step E A (ie_mysql I) cfg (ie_builders I) S)\<^sup>*\<^sup>*
      (pipeline_init (unat (fl_import_queue_batches (cx_flags cx))) (unat (fl_import_io_workers (cx_flags cx)))
         False Q_entry (writer_start (cx_index cx))) p" "pl_main p = M_done ok" by blast
  with import_threads.threads_query [OF From_query] assms show ?thesis by fastforce
qed

text \<open>
  The threads of a run, however they are scheduled: there is a bound on the number of steps they
  can take, and until the main thread is done some thread can take one.
\<close>

definition always_ends :: "('p \<Rightarrow> 'p \<Rightarrow> bool) \<Rightarrow> 'p \<Rightarrow> ('p \<Rightarrow> bool) \<Rightarrow> bool" where
  "always_ends step start finished \<longleftrightarrow>
     (\<exists>bound. \<forall>n p. (step ^^ n) start p \<longrightarrow> n \<le> bound \<and> (finished p \<or> (\<exists>p'. step p p')))"

definition threads_end ::
  "('d, 'k) engine \<Rightarrow> ('a, 'b) arrow \<Rightarrow> ('a, 'b, 'f, 'h, 'p, 'k) import_env \<Rightarrow> ('f, 'k) import_context \<Rightarrow> bool" where
  "threads_end E A I cx =
     (let capacity = unat (fl_import_queue_batches (cx_flags cx));
          workers = unat (fl_import_io_workers (cx_flags cx)); w0 = writer_start (cx_index cx) in
      case cx_source cx of
        From_files paths \<Rightarrow>
          always_ends (pipeline_step (ProduceLoop A (ie_files I) (cx_cloud cx) (cx_schema cx) paths)
              (write_parsed E A (the (cx_schema cx))) (cx_schema cx \<noteq> None))
            (pipeline_init capacity workers 0 F_entry w0) (\<lambda>p. \<exists>ok. pl_main p = M_done ok)
      | From_query cfg \<Rightarrow>
          always_ends (pipeline_step (mysql_ProduceLoop (ie_mysql I) cfg (ie_builders I) (cx_schema cx))
              (write_parsed E A (the (cx_schema cx))) (cx_schema cx \<noteq> None))
            (pipeline_init capacity workers False Q_entry w0) (\<lambda>p. \<exists>ok. pl_main p = M_done ok))"

lemma always_endsI:
  "(\<And>n p. (step ^^ n) start p \<Longrightarrow> n \<le> bound) \<Longrightarrow>
   (\<And>n p. (step ^^ n) start p \<Longrightarrow> finished p \<or> (\<exists>p'. step p p')) \<Longrightarrow> always_ends step start finished"
  unfolding always_ends_def by blast

lemma threads_always_end:
  assumes "cx_schema cx = Some S"
  shows "threads_end E A I cx"
proof (cases "cx_source cx")
  case (From_files paths)
  have "always_ends (file_import_step E A (ie_files I) (cx_cloud cx) S paths) (file_import_init capacity workers w0)
      (\<lambda>p. \<exists>ok. pl_main p = M_done ok)" for capacity workers w0
    by (rule always_endsI) (rule file_import.run_ends, assumption)+
  then show ?thesis by (simp add: threads_end_def From_files assms Let_def)
next
  case (From_query cfg)
  have "always_ends (mysql_import_step E A (ie_mysql I) cfg (ie_builders I) S)
      (pipeline_init capacity workers False Q_entry w0) (\<lambda>p. \<exists>ok. pl_main p = M_done ok)" for capacity workers w0
    by (rule always_endsI) (rule mysql_import.run_ends, assumption)+
  then show ?thesis by (simp add: threads_end_def From_query assms Let_def)
qed

lemma setup_schema:
  assumes "import_setup I args = (Inr cx, evs)"
  shows "ie_index I (cx_created cx) = Some (cx_index cx, cx_schema cx)"
  using assms unfolding import_setup_def index_setup_def
  by (auto simp: index_phase_def elim!: and_then_cases split: option.splits)

text \<open>The estimate \<open>main\<close> computes, when it gets to it.\<close>

definition main_estimate :: "('a, 'b, 'f, 'h, 'p, 'k) import_env \<Rightarrow> string list \<Rightarrow> u64 option" where
  "main_estimate I args =
     (case flags_phase I args of
        (Inl e, evs) \<Rightarrow> None
      | (Inr fl, evs) \<Rightarrow> (case cloud_phase I (fl_input_files fl) of
          (Inl e, evs') \<Rightarrow> None
        | (Inr (cloud, files), evs') \<Rightarrow> Some (estimate I (fl\<lparr>fl_input_files := files\<rparr>) cloud)))"

lemma index_setup_runs_on:
  assumes "index_setup I fl cloud = (Inl Runs_on, evs)"
  shows "2 ^ 63 < unat (estimate I fl cloud)"
  using assms unfolding index_setup_def
  by (auto simp: bits_phase_def bucket_bits_ends elim!: and_then_cases split: option.splits
      dest: recreate_phase_shape create_phase_shape index_phase_shape source_phase_shape)

lemma setup_runs_on:
  assumes "import_setup I args = (Inl Runs_on, evs)"
  shows "\<exists>n. main_estimate I args = Some n \<and> 2 ^ 63 < unat n"
  using assms unfolding import_setup_def
  by (auto simp: main_estimate_def elim!: and_then_cases dest: flags_phase_shape cloud_phase_shape index_setup_runs_on)

text \<open>The catch-up of a run was started, and none of its readings is at its deadline or past it.\<close>

definition readings_run_out :: "catchup_env \<Rightarrow> 'k event list \<Rightarrow> bool" where
  "readings_run_out C evs \<longleftrightarrow>
     (\<exists>opt start. Ev_catchup opt \<in> set evs \<and> catchup_seek C opt = Some start \<and>
        (\<forall>x \<in> set (ce_readings C (co_topic opt) (co_partition opt) start (catchup_timeout opt)).
           fst x < catchup_deadline C opt))"

lemma catchup_phase_runs_out:
  "catchup_phase E I cx idx = (Inl e, evs) \<Longrightarrow> readings_run_out (ie_catchup I) evs"
  unfolding catchup_phase_def Let_def readings_run_out_def
  by (auto split: sum.splits option.splits if_splits dest: catchup_runs_out)

lemma after_runs_on:
  assumes "ir_end (after_import E I cx ok idx) = Runs_on"
  shows "fl_kafka_catchup (cx_flags cx) \<and> readings_run_out (ie_catchup I) (ir_events (after_import E I cx ok idx))"
proof (cases "catchup_phase E I cx idx")
  case (Pair res evs)
  with assms catchup_phase_runs_out [where evs = evs and E = E and I = I and cx = cx and idx = idx] show ?thesis
    by (cases res) (auto simp: after_import_def Let_def readings_run_out_def split: if_splits option.splits)
qed

lemma readings_run_out_result:
  "readings_run_out C (ir_events r) \<Longrightarrow> readings_run_out C (ir_events (main_result evs r))"
  by (auto simp: readings_run_out_def main_result_def s3_shutdown_def split: import_end.split)

text \<open>
  C30: The import tool ends. If every index has a schema, then whatever the flags, the files and the
  answers of the libraries, it has an outcome; where it starts its threads, there is a bound on the
  number of steps they take, whatever their schedule, and they never all wait for each other: until
  the import is done, some thread can take a step. And no outcome is an endless run, except in two
  cases: the estimated number of rows exceeds \<open>2^63\<close>, so that no number of buckets reaches it, or
  the catch-up was asked for and started, and none of the readings of the clock that are given for
  its loop reaches the deadline.
\<close>

theorem import_main_ends:
  assumes "\<forall>created k sch. ie_index I created = Some (k, sch) \<longrightarrow> sch \<noteq> None"
  shows "(\<exists>r. import_main E A I args r) \<and>
    (\<forall>cx evs. import_setup I args = (Inr cx, evs) \<longrightarrow> threads_end E A I cx) \<and>
    (\<forall>r. import_main E A I args r \<and> ir_end r = Runs_on \<longrightarrow>
       (\<exists>n. main_estimate I args = Some n \<and> 2 ^ 63 < unat n) \<or>
       (\<exists>cx evs. import_setup I args = (Inr cx, evs) \<and> fl_kafka_catchup (cx_flags cx) \<and>
          readings_run_out (ie_catchup I) (ir_events r)))"
proof (intro conjI allI impI)
  obtain res evs where prep: "import_setup I args = (res, evs)" by (cases "import_setup I args")
  show "\<exists>r. import_main E A I args r"
  proof (cases res)
    case (Inl e)
    with prep show ?thesis by (auto intro: import_main.main_stops)
  next
    case (Inr cx)
    with prep setup_schema assms obtain S where "cx_schema cx = Some S" by fastforce
    from threads_exist [OF this] obtain ok idx where "import_threads E A I cx ok idx" by blast
    with prep Inr show ?thesis by (auto intro: import_main.main_runs)
  qed
next
  fix cx evs
  assume "import_setup I args = (Inr cx, evs)"
  with setup_schema assms obtain S where "cx_schema cx = Some S" by fastforce
  then show "threads_end E A I cx" by (rule threads_always_end)
next
  fix r
  assume "import_main E A I args r \<and> ir_end r = Runs_on"
  then have "import_main E A I args r" "ir_end r = Runs_on" by simp_all
  then show "(\<exists>n. main_estimate I args = Some n \<and> 2 ^ 63 < unat n) \<or>
      (\<exists>cx evs. import_setup I args = (Inr cx, evs) \<and> fl_kafka_catchup (cx_flags cx) \<and>
         readings_run_out (ie_catchup I) (ir_events r))"
    by (cases rule: import_main.cases) (auto dest: setup_runs_on after_runs_on intro: readings_run_out_result)
qed

section \<open>An example\<close>

definition ex_store_env :: "string \<Rightarrow> string option" where
  "ex_store_env key = (if starts_with ''OSS_'' key then Some ''v'' else None)"

definition ex_main_env :: "(ref_array, ref_batch, unit, string, string, ref_index) import_env" where
  "ex_main_env = \<lparr>ie_host = ex_host\<lparr>ho_getenv := ex_store_env\<rparr>, ie_config = ex_config_env, ie_json = ref_json,
     ie_s3_init = Status_OK, ie_s3_defaults = \<lparr>so_base = S3_defaults, so_endpoint_override = [], so_scheme = [],
       so_force_virtual_addressing = False, so_region = []\<rparr>,
     ie_s3_create = (\<lambda>_. Inr ()), ie_gcs_create = Inl (Arrow_error ''none''), ie_list = (\<lambda>_ _. Inr []),
     ie_files = ex_env, ie_meta_rows = (\<lambda>_. None), ie_mysql = ex_mysql, ie_builders = ex_builders,
     ie_is_directory = (\<lambda>_. Inr True), ie_remove_all = (\<lambda>_. None), ie_db_init = (\<lambda>_. None),
     ie_load_schema = (\<lambda>_. Inr ex_import_schema), ie_create = (\<lambda>_ _ _. None), ie_open = (\<lambda>_. None),
     ie_index = (\<lambda>_. Some ([], Some ex_import_schema)), ie_persist = (\<lambda>_ _. None), ie_still_open = True,
     ie_weakly_canonical = Inr, ie_catchup = ex_catchup_env\<rparr>"

definition ex_main_args :: "string list" where
  "ex_main_args = [''--config'', ''c'', ''--index'', ''t'', ''--input'', ''d/a.parquet'', ''--input'', ''oss://b/x.csv'']"

definition ex_main_flags :: flags where
  "ex_main_flags = Flags_init\<lparr>fl_config_path := ''c'', fl_index_name := ''t'', fl_input_files := ex_paths,
     fl_db_path := sv_db_path ex_server_config, fl_arena_seg_gb := 1, fl_arena_max_gb := 4\<rparr>"

definition ex_context :: "(unit, ref_index) import_context" where
  "ex_context = \<lparr>cx_flags = ex_main_flags, cx_cloud = ex_cloud, cx_created = None, cx_index = [],
     cx_schema = Some ex_import_schema, cx_source = From_files ex_paths\<rparr>"

lemma ex_main_phases:
  "ParseFlags (ie_host ex_main_env) ex_main_args =
     Inr (Flags_init\<lparr>fl_config_path := ''c'', fl_index_name := ''t'', fl_input_files := ex_paths\<rparr>)"
  "ApplyConfigFile ex_config_env ref_json
     (Flags_init\<lparr>fl_config_path := ''c'', fl_index_name := ''t'', fl_input_files := ex_paths\<rparr>) = Inr ex_main_flags"
  "open_stores ex_main_env ex_paths = Inr ex_cloud" "need_s3_api ex_paths"
  "ExpandCloudInputs (\<lambda>_ _. Inr []) ex_cloud ex_paths = Inr ex_paths"
  "BucketBitsForRows (estimate ex_main_env ex_main_flags ex_cloud) = Some 15"
  by code_simp+

lemma ex_main_setup:
  "import_setup ex_main_env ex_main_args =
     (Inr ex_context, [Ev_s3_init, Ev_db_init (import_options ex_main_flags), Ev_open ''t'', Ev_bulk_mode])"
proof -
  have files: "fl_input_files ex_main_flags = ex_paths" "fl_index_name ex_main_flags = ''t''"
    "fl_mysql_query ex_main_flags = []" "\<not> fl_recreate ex_main_flags"
    by (simp_all add: ex_main_flags_def Flags_init_def)
  then have same: "ex_main_flags\<lparr>fl_input_files := ex_paths\<rparr> = ex_main_flags" by (cases ex_main_flags) simp
  have fields: "ie_config ex_main_env = ex_config_env" "ie_json ex_main_env = ref_json" "ie_s3_init ex_main_env = Status_OK"
    "ie_list ex_main_env = (\<lambda>_ _. Inr [])" "ie_is_directory ex_main_env = (\<lambda>_. Inr True)" "ie_db_init ex_main_env = (\<lambda>_. None)"
    "ie_open ex_main_env = (\<lambda>_. None)" "ie_index ex_main_env = (\<lambda>_. Some ([], Some ex_import_schema))"
    by (simp_all add: ex_main_env_def)
  have flags: "flags_phase ex_main_env ex_main_args = (Inr ex_main_flags, [])"
    by (simp add: flags_phase_def fields ex_main_phases)
  have cloud: "cloud_phase ex_main_env ex_paths = (Inr (ex_cloud, ex_paths), [Ev_s3_init])"
    by (simp add: cloud_phase_def and_then_def fields ex_main_phases)
  show ?thesis
    by (simp add: import_setup_def index_setup_def and_then_def flags cloud same files recreate_phase_def bits_phase_def
        create_phase_def index_phase_def source_phase_def fields ex_main_phases(6) ex_context_def)
qed

lemma ex_context_sel:
  "cx_schema ex_context = Some ex_import_schema" "cx_flags ex_context = ex_main_flags"
  "source_batches ref_arrow ex_main_env ex_context ex_import_schema = Some ex_parsed"
  using ex_import_batches by (simp_all add: ex_context_def source_batches_def ex_main_env_def)

lemma ex_main_run:
  obtains r where "import_main (ref_engine ex_import_schema) ref_arrow ex_main_env ex_main_args r" "ir_end r = Exits 0"
proof -
  from threads_exist [OF ex_context_sel(1)] obtain ok idx
    where run: "import_threads (ref_engine ex_import_schema) ref_arrow ex_main_env ex_context ok idx" by blast
  from threads_report [OF ex_files_ok ref_put_ok ex_context_sel(1) run] ex_import_good have ok: ok
    by (simp add: ex_context_sel)
  have "ir_end (after_import (ref_engine ex_import_schema) ex_main_env ex_context ok idx) = Exits 0"
    using ok by (simp add: after_import_def ex_context_sel ex_main_env_def ex_main_flags_def Flags_init_def)
  with main_runs [OF ex_main_setup run] that show ?thesis by simp
qed

theorem import_main_truthful_witness:
  "\<exists>r k. import_main (ref_engine ex_import_schema) ref_arrow ex_main_env ex_main_args r \<and> ir_end r = Exits 0 \<and>
     Ev_persist ''t'' k True \<in> set (ir_events r) \<and>
     imported_table (ref_engine ex_import_schema) ref_arrow ex_import_schema ex_parsed [] k"
proof -
  from ex_main_run obtain r where r: "import_main (ref_engine ex_import_schema) ref_arrow ex_main_env ex_main_args r"
    "ir_end r = Exits 0" by blast
  have ctx: "fl_index_name (cx_flags ex_context) = ''t''" "cx_index ex_context = []"
    by (simp_all add: ex_context_def ex_main_flags_def)
  note truth = import_main_truthful [OF ex_files_ok ref_put_ok ex_main_setup ex_context_sel(1) r(1),
    unfolded ctx ex_context_sel(3) option.sel]
  from truth r(2) obtain name k where k: "Ev_persist name k True \<in> set (ir_events r)" by blast
  with truth have "name = ''t''"
    "imported_table (ref_engine ex_import_schema) ref_arrow ex_import_schema ex_parsed [] k" by blast+
  with r k show ?thesis by blast
qed

theorem import_main_order_witness:
  "\<exists>r. import_main (ref_engine ex_import_schema) ref_arrow ex_main_env ex_main_args r \<and> Ev_close_all \<in> set (ir_events r)"
proof -
  from ex_main_run obtain r where r: "import_main (ref_engine ex_import_schema) ref_arrow ex_main_env ex_main_args r"
    "ir_end r = Exits 0" by blast
  from import_main_order [OF r] have "Ev_close_all \<in> set (ir_events r)" by (auto simp: persist_then_close_def)
  with r show ?thesis by blast
qed

theorem import_main_ends_witness:
  "(\<forall>args. \<exists>r. import_main (ref_engine ex_import_schema) ref_arrow ex_main_env args r) \<and>
   threads_end (ref_engine ex_import_schema) ref_arrow ex_main_env ex_context"
proof -
  have ok: "\<forall>created k sch. ie_index ex_main_env created = Some (k, sch) \<longrightarrow> sch \<noteq> None" by (simp add: ex_main_env_def)
  have "\<exists>r. import_main (ref_engine ex_import_schema) ref_arrow ex_main_env args r" for args
    using import_main_ends [OF ok] by blast
  moreover have "threads_end (ref_engine ex_import_schema) ref_arrow ex_main_env ex_context"
    using import_main_ends [OF ok, where args = ex_main_args] ex_main_setup by blast
  ultimately show ?thesis by blast
qed

end
