(* ===== verification/BenchKeys.thy ===== *)
theory BenchKeys
  imports FileImport ImportFlags
begin

text \<open>
  The load generator \<open>bench_main.cc\<close>: its flags and the keys it asks for. Its keys come from a
  file of lines or from the primary key column of a Parquet file; the second kind are exactly the
  keys under which an import of the same file stores its rows.
\<close>

section \<open>Flags\<close>

record bench_flags =
  bf_server :: string
  bf_index :: string
  bf_workers :: i32
  bf_warmup :: i32
  bf_duration_sec :: f64
  bf_requests :: u64
  bf_max_keys :: u64
  bf_keys_file :: string
  bf_local_parquet :: string
  bf_pk_column :: string
  bf_max_latency_samples :: u64

definition BenchFlags_init :: bench_flags where
  "BenchFlags_init = \<lparr>bf_server = ''127.0.0.1:9000'', bf_index = [], bf_workers = 8, bf_warmup = 32,
     bf_duration_sec = F64 0, bf_requests = 0, bf_max_keys = 200000, bf_keys_file = [], bf_local_parquet = [],
     bf_pk_column = [], bf_max_latency_samples = 0\<rparr>"

text \<open>\<open>x > 0\<close> and \<open>x <= 0\<close> on the bits of a double; neither holds of a NaN.\<close>

definition f64_nan :: "f64 \<Rightarrow> bool" where
  "f64_nan x = (case x of F64 w \<Rightarrow> 0x7FF0000000000000 < take_bit 63 w)"

definition f64_pos :: "f64 \<Rightarrow> bool" where
  "f64_pos x \<longleftrightarrow> \<not> f64_nan x \<and> (case x of F64 w \<Rightarrow> 0 < sint w)"

definition f64_nonpos :: "f64 \<Rightarrow> bool" where
  "f64_nonpos x \<longleftrightarrow> \<not> f64_nan x \<and> \<not> f64_pos x"

definition max_i32 :: "int \<Rightarrow> i32 \<Rightarrow> i32" where
  "max_i32 lo n = (if sint n < lo then word_of_int lo else n)"

text \<open>One flag with its value; \<open>strtod\<close> is the C library's.\<close>

definition bench_flag :: "(string \<Rightarrow> f64) \<Rightarrow> string \<Rightarrow> string \<Rightarrow> bench_flags \<Rightarrow> bench_flags option" where
  "bench_flag strtod a v f =
     (if a = ''--server'' \<or> a = ''--grpc_target'' then Some (f\<lparr>bf_server := v\<rparr>)
      else if a = ''--index'' \<or> a = ''--table'' then Some (f\<lparr>bf_index := v\<rparr>)
      else if a = ''--workers'' then Some (f\<lparr>bf_workers := max_i32 1 (c_atoi v)\<rparr>)
      else if a = ''--warmup'' then Some (f\<lparr>bf_warmup := max_i32 0 (c_atoi v)\<rparr>)
      else if a = ''--duration_sec'' then Some (f\<lparr>bf_duration_sec := strtod v\<rparr>)
      else if a = ''--requests'' then Some (f\<lparr>bf_requests := c_strtoull v\<rparr>)
      else if a = ''--max_keys'' then Some (f\<lparr>bf_max_keys := c_strtoull v\<rparr>)
      else if a = ''--keys_file'' then Some (f\<lparr>bf_keys_file := v\<rparr>)
      else if a = ''--local_parquet'' then Some (f\<lparr>bf_local_parquet := v\<rparr>)
      else if a = ''--pk'' then Some (f\<lparr>bf_pk_column := v\<rparr>)
      else if a = ''--max_latency_samples'' then Some (f\<lparr>bf_max_latency_samples := c_strtoull v\<rparr>)
      else None)"

fun bench_args :: "(string \<Rightarrow> f64) \<Rightarrow> string list \<Rightarrow> bench_flags \<Rightarrow> string + bench_flags" where
  "bench_args strtod [] f = Inr f"
| "bench_args strtod [a] f = Inl (''Unknown arg: '' @ a)"
| "bench_args strtod (a # v # rest) f =
     (case bench_flag strtod a v f of
        None \<Rightarrow> Inl (''Unknown arg: '' @ a)
      | Some f' \<Rightarrow> bench_args strtod rest f')"

definition bench_check :: "bench_flags \<Rightarrow> string + bench_flags" where
  "bench_check f =
     (if bf_index f = [] then Inl ''--index TABLE is required (e.g. --index dsp_test3)''
      else if (bf_keys_file f = []) = (bf_local_parquet f = []) then
        Inl ''Exactly one of --keys_file or --local_parquet is required.''
      else if bf_local_parquet f \<noteq> [] \<and> bf_pk_column f = [] then Inl ''--local_parquet requires --pk''
      else if f64_pos (bf_duration_sec f) \<and> 0 < bf_requests f then
        Inl ''Specify only one of --duration_sec or --requests''
      else if f64_nonpos (bf_duration_sec f) \<and> bf_requests f = 0 then Inr (f\<lparr>bf_requests := 50000\<rparr>)
      else Inr f)"

definition bench_ParseFlags :: "(string \<Rightarrow> f64) \<Rightarrow> string list \<Rightarrow> string + bench_flags" where
  "bench_ParseFlags strtod args =
     (case bench_args strtod args BenchFlags_init of Inl e \<Rightarrow> Inl e | Inr f \<Rightarrow> bench_check f)"

section \<open>Keys\<close>

text \<open>
  \<open>arrow::Scalar\<close> as \<open>GetScalar\<close> gives it: whether it is valid, and its value by type. The eight
  integer types share a constructor, as \<open>std::to_string\<close> prints the number of each in decimal. A
  binary scalar may hold no buffer.
\<close>

datatype scalar = S_null | S_bool bool | S_int int | S_float f32 | S_double f64 | S_binary "string option" | S_other string

record 'a scalars =
  sl_get :: "'a \<Rightarrow> nat \<Rightarrow> status + (bool \<times> scalar)"
  sl_show_float :: "f32 \<Rightarrow> string"
  sl_show_double :: "f64 \<Rightarrow> string"

definition AppendPkString :: "('a, 'b) arrow \<Rightarrow> 'a scalars \<Rightarrow> 'a \<Rightarrow> nat \<Rightarrow> string \<Rightarrow> status \<times> string" where
  "AppendPkString A L col r out =
     (if is_null_at A col r then (Status_OK, out)
      else case sl_get L col r of
        Inl st \<Rightarrow> (failure_of st, out)
      | Inr (valid, sc) \<Rightarrow>
          if \<not> valid then (Status_OK, out)
          else (case sc of
              S_null \<Rightarrow> (Status_OK, out)
            | S_bool b \<Rightarrow> (Status_OK, if b then ''1'' else ''0'')
            | S_int i \<Rightarrow> (Status_OK, dec_int i)
            | S_float x \<Rightarrow> (Status_OK, sl_show_float L x)
            | S_double x \<Rightarrow> (Status_OK, sl_show_double L x)
            | S_binary None \<Rightarrow> (Status_OK, out)
            | S_binary (Some s) \<Rightarrow> (Status_OK, s)
            | S_other t \<Rightarrow> (Invalid (''unsupported pk arrow type: '' @ t), out)))"

fun load_rows ::
  "('a, 'b) arrow \<Rightarrow> 'a scalars \<Rightarrow> u64 \<Rightarrow> 'a \<Rightarrow> nat list \<Rightarrow> string list \<Rightarrow> status \<times> string list" where
  "load_rows A L max_keys col [] keys = (Status_OK, keys)"
| "load_rows A L max_keys col (r # rs) keys =
     (if \<not> length keys < unat max_keys then (Status_OK, keys)
      else case AppendPkString A L col r [] of
        (st, k) \<Rightarrow>
          if \<not> st_ok st then (st, keys)
          else load_rows A L max_keys col rs (if k \<noteq> [] then keys @ [k] else keys))"

fun load_batches ::
  "('a, 'b) arrow \<Rightarrow> 'a scalars \<Rightarrow> string \<Rightarrow> u64 \<Rightarrow> status \<Rightarrow> 'b list \<Rightarrow> string list \<Rightarrow> status \<times> string list" where
  "load_batches A L pk max_keys end [] keys =
     (if \<not> length keys < unat max_keys then (Status_OK, keys) else (end, keys))"
| "load_batches A L pk max_keys end (b # bs) keys =
     (if \<not> length keys < unat max_keys then (Status_OK, keys)
      else case column_by_name A b pk of
        None \<Rightarrow> (Invalid (''no column: '' @ pk), keys)
      | Some col \<Rightarrow>
          (case load_rows A L max_keys col [0..<num_rows A b] keys of
             (st, keys') \<Rightarrow> if \<not> st_ok st then (st, keys') else load_batches A L pk max_keys end bs keys'))"

definition LoadKeysParquet ::
  "('a, 'b) arrow \<Rightarrow> 'a scalars \<Rightarrow> ('b, 'f, 'h, 'p) file_env \<Rightarrow> string \<Rightarrow> string \<Rightarrow> u64 \<Rightarrow> status \<times> string list" where
  "LoadKeysParquet A L env path pk max_keys =
     (case fe_open env path of
        Inl st \<Rightarrow> (failure_of st, [])
      | Inr infile \<Rightarrow>
          (case fe_parquet env infile of
             Inl st \<Rightarrow> (failure_of st, [])
           | Inr reader \<Rightarrow>
               (case fe_batch_reader env reader of
                  Inl st \<Rightarrow> (failure_of st, [])
                | Inr rb_reader \<Rightarrow>
                    (case load_batches A L pk max_keys (rd_end rb_reader) (rd_batches rb_reader) [] of
                       (st, keys) \<Rightarrow>
                         if \<not> st_ok st then (st, keys)
                         else if keys = [] then (Invalid ''no keys loaded from parquet'', keys)
                         else (Status_OK, keys)))))"

fun load_lines :: "u64 \<Rightarrow> string list \<Rightarrow> string list \<Rightarrow> string list" where
  "load_lines max_keys [] keys = keys"
| "load_lines max_keys (l # ls) keys =
     (if \<not> length keys < unat max_keys then keys
      else let line = rtrim line_end_blank l in
        if line = [] then load_lines max_keys ls keys
        else if starts_with ''oss://'' line then load_lines max_keys ls keys
        else load_lines max_keys ls (keys @ [line]))"

definition LoadKeysFile :: "host \<Rightarrow> string \<Rightarrow> u64 \<Rightarrow> string + string list" where
  "LoadKeysFile H path max_keys =
     (case ho_read H path of
        None \<Rightarrow> Inl (''cannot open keys_file: '' @ path)
      | Some text \<Rightarrow>
          let keys = load_lines max_keys (getlines text) [] in
          if keys = [] then Inl ''no keys in file'' else Inr keys)"

section \<open>The keys of a file are the keys of its rows\<close>

text \<open>What Arrow documents of \<open>GetScalar\<close>: the value of the cell, valid when it is not null.\<close>

definition scalar_ok :: "('a, 'b) arrow \<Rightarrow> 'a scalars \<Rightarrow> bool" where
  "scalar_ok A L \<longleftrightarrow> (\<forall>col r. \<not> is_null_at A col r \<longrightarrow>
     (case scalar_cell A col r of
        Some (C_bool b) \<Rightarrow> sl_get L col r = Inr (True, S_bool b)
      | Some (C_int i) \<Rightarrow> sl_get L col r = Inr (True, S_int i)
      | Some (C_str s) \<Rightarrow> sl_get L col r = Inr (True, S_binary (Some s))
      | _ \<Rightarrow> True))"

lemma pk_text:
  assumes "scalar_ok A L" "\<not> fd_array p" "fd_type p \<in> {DT_Bool, DT_Int32, DT_Int64, DT_String, DT_Bytes}"
    and "\<not> is_null_at A col r" "field_meaning A p col r = Some (Some v)"
  shows "AppendPkString A L col r out = (Status_OK, cval_text v)"
proof -
  from assms(2,4,5) have m: "scalar_meaning A p col r = Some v" by (simp add: field_meaning_def)
  have one: "dec_int 1 = ''1''" "dec_int 0 = ''0''" by code_simp+
  note sc = assms(1) [unfolded scalar_ok_def, THEN spec [of _ col], THEN spec [of _ r], THEN mp, OF assms(4)]
  from assms(3) consider "fd_type p = DT_Bool" | "fd_type p = DT_Int32" | "fd_type p = DT_Int64"
    | "fd_type p = DT_String \<or> fd_type p = DT_Bytes" by auto
  then show ?thesis
  proof cases
    case 3
    with m obtain i where i: "scalar_cell A col r = Some (C_int i)" "type_id A col \<in> set int64_columns"
      "i \<le> int64_max" "v = V_I64 (word_of_int i)"
      by (auto simp: scalar_meaning_def split: option.splits cell.splits if_splits)
    with int64_column_min [OF i(1,2)] sc assms(4) show ?thesis
      by (simp add: AppendPkString_def to_string_i64_def sint_of_int_i64)
  qed (use m sc assms(4) in \<open>auto simp: AppendPkString_def scalar_meaning_def to_string_i32_def sint_of_int_i32 one
      split: option.splits cell.splits if_splits\<close>)
qed

text \<open>What a row adds to the keys: the key under which it is stored, if it is.\<close>

definition key_of_row :: "('a, 'b) arrow \<Rightarrow> schema \<Rightarrow> 'b \<Rightarrow> nat \<Rightarrow> string list" where
  "key_of_row A S batch r = (case sheet_entry A S batch r of None \<Rightarrow> [] | Some (k, v) \<Rightarrow> [k])"

lemma keys_of_sheet: "map fst (sheet A S batch rs) = concat (map (key_of_row A S batch) rs)"
  by (induction rs) (auto simp: sheet_def key_of_row_def List.map_filter_simps split: option.split)

definition keys_agree :: "('a, 'b) arrow \<Rightarrow> 'a scalars \<Rightarrow> schema \<Rightarrow> bool" where
  "keys_agree A L S \<longleftrightarrow> scalar_ok A L \<and> schema_ok S \<and> pk_ok S \<and> pk_importable S"

lemma pk_facts:
  assumes "keys_agree A L S"
  obtains p where "sc_find S (sc_pk S) = Some p" "p \<in> set (sc_fields S)" "fd_name p = sc_pk S" "\<not> fd_array p"
    "fd_type p \<in> {DT_Bool, DT_Int32, DT_Int64, DT_String, DT_Bytes}"
  using assms schema_find_mem [of S "sc_pk S"] by (auto simp: keys_agree_def pk_ok_def pk_importable_def split: option.splits)

lemma row_adds_key:
  assumes ok: "keys_agree A L S" and col: "column_by_name A batch (sc_pk S) = Some col" and good: "row_good A S batch r"
  shows "AppendPkString A L col r [] = (Status_OK, concat (key_of_row A S batch r))"
proof -
  from pk_facts [OF ok] obtain p where p: "sc_find S (sc_pk S) = Some p" "p \<in> set (sc_fields S)" "fd_name p = sc_pk S"
    "\<not> fd_array p" "fd_type p \<in> {DT_Bool, DT_Int32, DT_Int64, DT_String, DT_Bytes}" .
  show ?thesis
  proof (cases "is_null_at A col r")
    case True
    with col p show ?thesis by (simp add: AppendPkString_def key_of_row_def sheet_entry_def pk_absent_def Let_def)
  next
    case False
    have absent: "\<not> pk_absent A S batch r" using False col p by (simp add: pk_absent_def)
    with good have "cell_at A batch r p \<noteq> None" using p(2) by (auto simp: row_good_def row_accepted_def list_all_iff)
    then obtain w where w: "field_meaning A p col r = Some w" using col p(3) by (auto simp: cell_at_def)
    with False p(4) obtain v where v: "field_meaning A p col r = Some (Some v)" by (auto simp: field_meaning_def)
    have cell: "cell_val A batch r p c = v" for c using col p(3) v by (simp add: cell_val_def cell_at_def)
    have "schema_ok S" "scalar_ok A L" using ok by (simp_all add: keys_agree_def)
    note stored = map_of_stored [OF this(1) p(2) field_meaning_kind [OF v], of "\<lambda>def j. cell_val A batch r def (default_val j)"]
    from stored have "map_of (sheet_row A S batch r) p = Some v"
      by (simp only: sheet_row_def cell)
    then have "row_key S (sheet_row A S batch r) = cval_text v" by (simp add: row_key_def p(1))
    then have "concat (key_of_row A S batch r) = cval_text v"
      using absent by (simp add: key_of_row_def sheet_entry_def Let_def)
    with pk_text [OF \<open>scalar_ok A L\<close> p(4,5) False v] show ?thesis by simp
  qed
qed

lemma key_of_row_add: "(if concat (key_of_row A S b r) \<noteq> [] then keys @ [concat (key_of_row A S b r)] else keys) = keys @ key_of_row A S b r"
  by (auto simp: key_of_row_def sheet_entry_def Let_def split: option.splits if_splits)

lemma load_rows_keys:
  assumes "keys_agree A L S" "column_by_name A batch (sc_pk S) = Some col"
  shows "\<forall>r \<in> set rs. row_good A S batch r \<Longrightarrow> length keys \<le> unat max_keys \<Longrightarrow>
    load_rows A L max_keys col rs keys = (Status_OK, take (unat max_keys) (keys @ map fst (sheet A S batch rs)))"
proof (induction rs arbitrary: keys)
  case (Cons r rs)
  show ?case
  proof (cases "length keys < unat max_keys")
    case True
    have one: "length (key_of_row A S batch r) \<le> 1" by (simp add: key_of_row_def split: option.split)
    have add: "AppendPkString A L col r [] = (Status_OK, concat (key_of_row A S batch r))"
      by (rule row_adds_key [OF assms]) (use Cons.prems in simp)
    have "load_rows A L max_keys col rs (keys @ key_of_row A S batch r) =
        (Status_OK, take (unat max_keys) ((keys @ key_of_row A S batch r) @ map fst (sheet A S batch rs)))"
      by (rule Cons.IH) (use Cons.prems True one in auto)
    then show ?thesis using True
      by (simp only: load_rows.simps add prod.case st_ok_simps if_True not_not if_False key_of_row_add) (simp add: keys_of_sheet)
  qed (use Cons.prems in simp)
qed (simp add: sheet_def List.map_filter_simps)

lemma load_batches_keys:
  assumes "keys_agree A L S"
  shows "\<forall>b \<in> set bs. batch_good A S b \<Longrightarrow> length keys \<le> unat max_keys \<Longrightarrow>
    load_batches A L (sc_pk S) max_keys Status_OK bs keys =
      (Status_OK, take (unat max_keys) (keys @ concat (map (\<lambda>b. map fst (sheet A S b [0..<num_rows A b])) bs)))"
proof (induction bs arbitrary: keys)
  case (Cons b bs)
  show ?case
  proof (cases "length keys < unat max_keys")
    case True
    from pk_facts [OF assms] obtain p where p: "p \<in> set (sc_fields S)" "fd_name p = sc_pk S" by metis
    from Cons.prems have good: "batch_good A S b" by simp
    with p obtain col where col: "column_by_name A b (sc_pk S) = Some col"
      by (auto simp: batch_good_def columns_present_def list_all_iff)
    let ?ks = "map fst (sheet A S b [0..<num_rows A b])"
    have rows: "load_rows A L max_keys col [0..<num_rows A b] keys = (Status_OK, take (unat max_keys) (keys @ ?ks))"
      by (rule load_rows_keys [OF assms col]) (use good True in \<open>auto simp: batch_good_def list_all_iff\<close>)
    have "load_batches A L (sc_pk S) max_keys Status_OK bs (take (unat max_keys) (keys @ ?ks)) = (Status_OK,
        take (unat max_keys) (take (unat max_keys) (keys @ ?ks) @ concat (map (\<lambda>b. map fst (sheet A S b [0..<num_rows A b])) bs)))"
      by (rule Cons.IH) (use Cons.prems in auto)
    with True show ?thesis by (simp add: col rows) (simp add: min_def)
  qed (use Cons.prems in simp)
qed simp


text \<open>A local Parquet file that an import accepts, as the load generator opens it.\<close>

lemma local_parquet_opened:
  assumes "\<not> IsCloudUri path" "EndsWithIgnoreCase ''.parquet'' path" "open_input env cloud S path = Opened rd"
  obtains infile reader where "fe_open env path = Inr infile" "fe_parquet env infile = Inr reader"
    "fe_batch_reader env reader = Inr rd"
  using assms by (auto simp: open_input_def open_local_def ReadParquetFileBatches_def opened_of_def parquet_reader_def
      split: sum.splits)

lemma one_file_batches:
  assumes "import_batches A env cloud S [path] = Some bs"
  obtains rd where "open_input env cloud S path = Opened rd" "st_ok (rd_end rd)" "map pb_batch bs = rd_batches rd"
  using assms by (auto simp: import_batches_def file_batches_def comp_def split: opened.splits if_splits)

text \<open>The keys of a local Parquet file that an import accepts.\<close>

lemma parquet_keys:
  assumes "keys_agree A L S" "\<not> IsCloudUri path" "EndsWithIgnoreCase ''.parquet'' path"
    and "import_batches A env cloud S [path] = Some bs" "\<forall>pb \<in> set bs. batch_good A S (pb_batch pb)"
    and "keys = take (unat max_keys) (map fst (import_sheet A S bs))"
  shows "LoadKeysParquet A L env path (sc_pk S) max_keys =
    (if keys = [] then (Invalid ''no keys loaded from parquet'', []) else (Status_OK, keys))"
proof -
  from one_file_batches [OF assms(4)] obtain rd where rd: "open_input env cloud S path = Opened rd"
    "rd_end rd = Status_OK" "map pb_batch bs = rd_batches rd" by (auto simp: st_ok_def)
  have all: "concat (map (\<lambda>b. map fst (sheet A S b [0..<num_rows A b])) (rd_batches rd)) = map fst (import_sheet A S bs)"
    by (simp add: import_sheet_def map_concat comp_def flip: rd(3))
  have good: "\<forall>b \<in> set (rd_batches rd). batch_good A S b" using assms(5) by (auto simp flip: rd(3))
  from local_parquet_opened [OF assms(2,3) rd(1)] obtain infile reader where
    "fe_open env path = Inr infile" "fe_parquet env infile = Inr reader" "fe_batch_reader env reader = Inr rd" .
  then show ?thesis
    using load_batches_keys [OF assms(1) good, of "[]" max_keys]
    by (simp add: LoadKeysParquet_def rd(2) all assms(6))
qed

text \<open>
  C36: A load generator that takes its keys from a local Parquet file asks for exactly the keys
  under which an import of that file stores its rows, in the order of the rows and up to the limit.
  \<open>AppendPkString\<close> prints the key from the column's own scalar while the import goes through the
  stored document; the two agree on null cells, on empty keys and on every type of primary key an
  import accepts.
\<close>

theorem bench_loads_stored_keys:
  assumes "keys_agree A L S" "\<not> IsCloudUri path" "EndsWithIgnoreCase ''.parquet'' path"
    and "import_batches A env cloud S [path] = Some bs" "\<forall>pb \<in> set bs. batch_good A S (pb_batch pb)"
    and "import_sheet A S bs \<noteq> []" "0 < max_keys"
  shows "LoadKeysParquet A L env path (sc_pk S) max_keys =
    (Status_OK, take (unat max_keys) (map fst (import_sheet A S bs)))"
proof -
  have "unat max_keys \<noteq> 0" using assms(7) by (simp add: unat_eq_0 word_gt_0)
  with parquet_keys [OF assms(1-5) refl] assms(6) show ?thesis by simp
qed

text \<open>Scalars of the reference columns.\<close>

definition ref_scalars :: "ref_array scalars" where
  "ref_scalars = \<lparr>sl_get = (\<lambda>col r. case scalar_cell ref_arrow col r of
       Some (C_bool b) \<Rightarrow> Inr (True, S_bool b)
     | Some (C_int i) \<Rightarrow> Inr (True, S_int i)
     | Some (C_str s) \<Rightarrow> Inr (True, S_binary (Some s))
     | _ \<Rightarrow> Inr (False, S_null)),
     sl_show_float = (\<lambda>_. ''0.0''), sl_show_double = (\<lambda>_. ''0.0'')\<rparr>"

lemma ref_scalar_ok: "scalar_ok ref_arrow ref_scalars"
  by (auto simp: scalar_ok_def ref_scalars_def split: option.split cell.split)

lemma ex_bench_batches: "import_batches ref_arrow ex_env ex_cloud ex_import_schema [''d/a.parquet''] = Some [hd ex_parsed]"
  by code_simp

lemma bench_loads_stored_keys_witness:
  "LoadKeysParquet ref_arrow ref_scalars ex_env ''d/a.parquet'' ''id'' 200000 = (Status_OK, [''1'', ''30''])"
proof -
  have S: "keys_agree ref_arrow ref_scalars ex_import_schema"
    using ref_scalar_ok ex_files_ok by (simp add: keys_agree_def ingest_ok_def)
  have path: "\<not> IsCloudUri ''d/a.parquet''" "EndsWithIgnoreCase ''.parquet'' ''d/a.parquet''" by code_simp+
  have good: "\<forall>pb \<in> set [hd ex_parsed]. batch_good ref_arrow ex_import_schema (pb_batch pb)"
    using ex_import_good by (simp add: ex_parsed_def)
  have some: "import_sheet ref_arrow ex_import_schema [hd ex_parsed] \<noteq> []" by code_simp
  have keys: "map fst (import_sheet ref_arrow ex_import_schema [hd ex_parsed]) = [''1'', ''30'']"
    by code_simp
  have pk: "sc_pk ex_import_schema = ''id''" by code_simp
  from bench_loads_stored_keys [OF S path ex_bench_batches good some, of 200000] show ?thesis
    unfolding keys pk by simp
qed

end
