(* ===== verification/BenchRun.thy ===== *)
theory BenchRun
  imports BenchKeys Server
begin

text \<open>
  The load generator's run (\<open>bench_main.cc\<close>): \<open>WorkerLoop\<close> in several threads over shared atomic
  counters and a stop flag, and the main thread that waits for the requests or the time to be
  over. Any thread may take the next step, and each load or store of an atomic that another thread
  reads is a step of its own. What the world answers (the channel, the clock, the server) comes
  with each step. The sums of times are only read after the join, so a worker adds to them in
  the step that measures them. The report is the JSON object that \<open>main\<close> prints, as a record; the
  divisions that make milliseconds and averages of its sums are left to the printing.
\<close>

section \<open>One request\<close>

record client_codec =
  cc_en_get :: "get_request \<Rightarrow> string"
  cc_de_get :: "string \<Rightarrow> get_response"

definition BuildGetRequestPayload :: "client_codec \<Rightarrow> string \<Rightarrow> string \<Rightarrow> string" where
  "BuildGetRequestPayload C pk table_name = cc_en_get C (CreateGetRequest (Some pk) (Some table_name))"

text \<open>What the channel makes of a call: \<open>None\<close> when the controller has failed.\<close>

definition OneGetRpc :: "(string \<Rightarrow> string \<Rightarrow> string \<Rightarrow> string option) \<Rightarrow> string \<Rightarrow> bool \<times> string" where
  "OneGetRpc CallMethod req_bytes =
     (case CallMethod kServiceFullName kMethodGet req_bytes of None \<Rightarrow> (True, []) | Some body \<Rightarrow> (False, body))"

text \<open>\<open>sizeof\<close> and \<open>alignof\<close> of \<open>uoffset_t\<close> are 4; \<open>addr\<close> is where the vector puts its bytes.\<close>

definition align_skip :: "u64 \<Rightarrow> nat" where
  "align_skip addr = (4 - unat addr mod 4) mod 4"

definition AlignFlatbufferInVector :: "u64 \<Rightarrow> string \<Rightarrow> (nat \<times> string) option" where
  "AlignFlatbufferInVector addr resp_str =
     (let n = length resp_str in
      if n < 4 then None
      else let base = replicate (n + 4) nul; skip = align_skip addr in
        Some (skip, take skip base @ resp_str @ drop (skip + n) base))"

lemma aligned_copy:
  assumes "AlignFlatbufferInVector addr resp = Some (skip, storage)"
  shows "take (length resp) (drop skip storage) = resp" and "length storage = length resp + 4"
    and "(unat addr + skip) mod 4 = 0"
proof -
  have skip: "skip = align_skip addr" "storage = take skip (replicate (length resp + 4) nul) @ resp @
      drop (skip + length resp) (replicate (length resp + 4) nul)"
    using assms by (auto simp: AlignFlatbufferInVector_def Let_def split: if_splits)
  have "skip < 4" by (simp add: skip(1) align_skip_def)
  then show "take (length resp) (drop skip storage) = resp" "length storage = length resp + 4"
    by (simp_all add: skip(2))
  have "unat addr mod 4 < 4" by simp
  then have "unat addr mod 4 \<in> {0, 1, 2, 3}" by auto
  then have "(unat addr mod 4 + skip) mod 4 = 0" by (auto simp: skip(1) align_skip_def)
  then show "(unat addr + skip) mod 4 = 0" by (simp add: mod_add_left_eq)
qed

section \<open>The counters\<close>

record bench_stats =
  bs_ok :: u64
  bs_rpc_err :: u64
  bs_found :: u64
  bs_not_found :: u64
  bs_encode_ns :: u64
  bs_rpc_ns :: u64
  bs_decode_ns :: u64
  bs_index_get_ns :: u64

definition BenchStats_init :: bench_stats where
  "BenchStats_init = \<lparr>bs_ok = 0, bs_rpc_err = 0, bs_found = 0, bs_not_found = 0, bs_encode_ns = 0,
     bs_rpc_ns = 0, bs_decode_ns = 0, bs_index_get_ns = 0\<rparr>"

record latency_samples =
  ls_rpc_ns :: "u64 list"
  ls_e2e_ns :: "u64 list"
  ls_index_get_ns :: "u64 list"

definition add_sample :: "u64 \<Rightarrow> u64 \<Rightarrow> u64 \<Rightarrow> u64 \<Rightarrow> latency_samples \<Rightarrow> latency_samples" where
  "add_sample max_lat_samples rpc e2e idx_get lat =
     (if max_lat_samples = 0 \<or>
         (length (ls_rpc_ns lat) < unat max_lat_samples \<and> length (ls_e2e_ns lat) < unat max_lat_samples \<and>
          length (ls_index_get_ns lat) < unat max_lat_samples)
      then \<lparr>ls_rpc_ns = ls_rpc_ns lat @ [rpc], ls_e2e_ns = ls_e2e_ns lat @ [e2e],
        ls_index_get_ns = ls_index_get_ns lat @ [idx_get]\<rparr>
      else lat)"

definition percentile_rank :: "nat \<Rightarrow> nat \<Rightarrow> nat" where
  "percentile_rank k n = (let k = (if k = 0 then 1 else k) - 1 in if n \<le> k then n - 1 else k)"

text \<open>\<open>ceil_of\<close> is \<open>std::ceil(p * n)\<close> in double arithmetic; an empty list gives 0.\<close>

definition PercentileSortedNs :: "(nat \<Rightarrow> nat) \<Rightarrow> u64 list \<Rightarrow> u64" where
  "PercentileSortedNs ceil_of sorted_ns =
     (if sorted_ns = [] then 0
      else sorted_ns ! percentile_rank (ceil_of (length sorted_ns)) (length sorted_ns))"

lemma percentile_in: "ns \<noteq> [] \<Longrightarrow> PercentileSortedNs ceil_of ns \<in> set ns"
  by (auto simp: PercentileSortedNs_def percentile_rank_def Let_def intro!: nth_mem)

section \<open>The threads\<close>

text \<open>
  Where a worker stands: before its channel is up, at the head of its loop, before its check, with
  the first of the two counters read, before its request, with an answer in hand, and before it
  counts a success.
\<close>

datatype worker_at =
    B_init | B_head | B_check | B_check_err u64 | B_send | B_answer u64 u64 "bool \<times> string" | B_ok | B_done

record bench_worker =
  wk_at :: worker_at
  wk_idx :: u64
  wk_lat :: latency_samples

datatype bench_main_at = R_sleep | R_poll u64 | R_join | R_done

record bench_run =
  bn_stats :: bench_stats
  bn_stop :: bool
  bn_workers :: "bench_worker list"
  bn_main :: bench_main_at

record bench_context =
  bx_codec :: client_codec
  bx_keys :: "string list"
  bx_table :: string
  bx_cap :: u64
  bx_duration :: bool
  bx_max_samples :: u64

text \<open>What the world answers in a step.\<close>

record moment =
  mo_init :: bool
  mo_late :: bool
  mo_enc_ns :: u64
  mo_rpc_ns :: u64
  mo_dec_ns :: u64
  mo_addr :: u64
  mo_call :: "string \<Rightarrow> string \<Rightarrow> string \<Rightarrow> string option"

text \<open>The part of the loop after the call.\<close>

definition worker_answer ::
  "bench_context \<Rightarrow> moment \<Rightarrow> u64 \<Rightarrow> u64 \<Rightarrow> bool \<times> string \<Rightarrow> bench_stats \<Rightarrow> bench_worker \<Rightarrow> bench_stats \<times> bench_worker" where
  "worker_answer cx mo enc_ns rpc1_ns res st w =
     (case res of (failed, resp_str) \<Rightarrow>
       let err = (st\<lparr>bs_rpc_err := bs_rpc_err st + 1\<rparr>, w\<lparr>wk_at := B_head\<rparr>) in
       if failed then err
       else if length resp_str < 4 then err
       else case AlignFlatbufferInVector (mo_addr mo) resp_str of
         None \<Rightarrow> err
       | Some (skip, storage) \<Rightarrow>
           let gr = cc_de_get (bx_codec cx) (take (length resp_str) (drop skip storage));
               idx_get_ns = get_resp_ns gr;
               st1 = (if get_resp_found gr then st\<lparr>bs_found := bs_found st + 1\<rparr>
                      else st\<lparr>bs_not_found := bs_not_found st + 1\<rparr>)
           in (st1\<lparr>bs_index_get_ns := bs_index_get_ns st1 + idx_get_ns, bs_decode_ns := bs_decode_ns st1 + mo_dec_ns mo\<rparr>,
               w\<lparr>wk_at := B_ok, wk_lat := add_sample (bx_max_samples cx) rpc1_ns
                   (enc_ns + rpc1_ns + mo_dec_ns mo) idx_get_ns (wk_lat w)\<rparr>))"

definition WorkerLoop_step :: "bench_context \<Rightarrow> moment \<Rightarrow> nat \<Rightarrow> bench_run \<Rightarrow> bench_run option" where
  "WorkerLoop_step cx mo i s =
     (if \<not> i < length (bn_workers s) then None
      else let w = bn_workers s ! i; st = bn_stats s;
               goto = (\<lambda>l. bn_workers_update (\<lambda>ws. ws[i := w\<lparr>wk_at := l\<rparr>]) s) in
      case wk_at w of
        B_init \<Rightarrow> Some (if mo_init mo then goto B_head else (goto B_done)\<lparr>bn_stop := True\<rparr>)
      | B_head \<Rightarrow> Some (goto (if bn_stop s then B_done else B_check))
      | B_check \<Rightarrow>
          Some (goto (if \<not> bx_duration cx then B_check_err (bs_ok st) else if mo_late mo then B_done else B_send))
      | B_check_err ok \<Rightarrow> Some (goto (if bx_cap cx \<le> ok + bs_rpc_err st then B_done else B_send))
      | B_send \<Rightarrow>
          let pk = bx_keys cx ! (unat (wk_idx w) mod length (bx_keys cx));
              res = OneGetRpc (mo_call mo) (BuildGetRequestPayload (bx_codec cx) pk (bx_table cx))
          in Some (s\<lparr>bn_stats := st\<lparr>bs_encode_ns := bs_encode_ns st + mo_enc_ns mo, bs_rpc_ns := bs_rpc_ns st + mo_rpc_ns mo\<rparr>,
              bn_workers := (bn_workers s)[i := w\<lparr>wk_at := B_answer (mo_enc_ns mo) (mo_rpc_ns mo) res,
                wk_idx := wk_idx w + of_nat (length (bn_workers s))\<rparr>]\<rparr>)
      | B_answer enc_ns rpc1_ns res \<Rightarrow>
          (case worker_answer cx mo enc_ns rpc1_ns res st w of
             (st', w') \<Rightarrow> Some (s\<lparr>bn_stats := st', bn_workers := (bn_workers s)[i := w']\<rparr>))
      | B_ok \<Rightarrow> Some ((goto B_head)\<lparr>bn_stats := st\<lparr>bs_ok := bs_ok st + 1\<rparr>\<rparr>)
      | B_done \<Rightarrow> None)"

text \<open>The main thread between the start of the workers and their join.\<close>

definition bench_main_step :: "bench_context \<Rightarrow> bench_run \<Rightarrow> bench_run option" where
  "bench_main_step cx s =
     (case bn_main s of
        R_sleep \<Rightarrow>
          Some (if bx_duration cx then s\<lparr>bn_stop := True, bn_main := R_join\<rparr>
                else s\<lparr>bn_main := R_poll (bs_ok (bn_stats s))\<rparr>)
      | R_poll ok \<Rightarrow>
          Some (if bx_cap cx \<le> ok + bs_rpc_err (bn_stats s) then s\<lparr>bn_stop := True, bn_main := R_join\<rparr>
                else s\<lparr>bn_main := R_sleep\<rparr>)
      | R_join \<Rightarrow> if list_all (\<lambda>w. wk_at w = B_done) (bn_workers s) then Some (s\<lparr>bn_main := R_done\<rparr>) else None
      | R_done \<Rightarrow> None)"

text \<open>\<open>world\<close> are the answers that can be given.\<close>

inductive bench_step :: "(moment \<Rightarrow> bool) \<Rightarrow> bench_context \<Rightarrow> bench_run \<Rightarrow> bench_run \<Rightarrow> bool" for world cx where
  step_worker_loop: "world mo \<Longrightarrow> WorkerLoop_step cx mo i s = Some s' \<Longrightarrow> bench_step world cx s s'"
| step_bench_main: "bench_main_step cx s = Some s' \<Longrightarrow> bench_step world cx s s'"

definition bench_start :: "bench_flags \<Rightarrow> bench_run" where
  "bench_start f = \<lparr>bn_stats = BenchStats_init, bn_stop = False,
     bn_workers = map (\<lambda>w. \<lparr>wk_at = B_init, wk_idx = of_nat w,
       wk_lat = \<lparr>ls_rpc_ns = [], ls_e2e_ns = [], ls_index_get_ns = []\<rparr>\<rparr>) [0..<unat (bf_workers f)],
     bn_main = R_sleep\<rparr>"

section \<open>The report and \<open>main\<close>\<close>

record percentiles =
  pc_p50 :: u64
  pc_p95 :: u64
  pc_p99 :: u64

record bench_report =
  rp_stats :: bench_stats
  rp_key_count :: nat
  rp_latency :: "(percentiles \<times> percentiles \<times> percentiles) option"
  rp_sample_count :: nat
  rp_truncated :: bool

definition percentiles_of :: "(nat \<Rightarrow> nat \<Rightarrow> nat) \<Rightarrow> u64 list \<Rightarrow> percentiles" where
  "percentiles_of ceil_of ns = (let sorted = sort ns in
     \<lparr>pc_p50 = PercentileSortedNs (ceil_of 50) sorted, pc_p95 = PercentileSortedNs (ceil_of 95) sorted,
      pc_p99 = PercentileSortedNs (ceil_of 99) sorted\<rparr>)"

definition bench_report_of :: "(nat \<Rightarrow> nat \<Rightarrow> nat) \<Rightarrow> string list \<Rightarrow> bench_run \<Rightarrow> bench_report" where
  "bench_report_of ceil_of keys s =
     (let lats = map wk_lat (bn_workers s); merged_n = sum_list (map (\<lambda>l. length (ls_rpc_ns l)) lats);
          all = (\<lambda>f. percentiles_of ceil_of (concat (map f lats))) in
      \<lparr>rp_stats = bn_stats s, rp_key_count = length keys,
       rp_latency = (if merged_n = 0 then None else Some (all ls_rpc_ns, all ls_e2e_ns, all ls_index_get_ns)),
       rp_sample_count = merged_n, rp_truncated = (merged_n < unat (bs_ok (bn_stats s)))\<rparr>)"

definition bench_keys ::
  "('a, 'b) arrow \<Rightarrow> 'a scalars \<Rightarrow> ('b, 'f, 'h, 'p) file_env \<Rightarrow> host \<Rightarrow> bench_flags \<Rightarrow> string list option" where
  "bench_keys A L env H f =
     (if bf_keys_file f \<noteq> [] then (case LoadKeysFile H (bf_keys_file f) (bf_max_keys f) of Inl e \<Rightarrow> None | Inr keys \<Rightarrow> Some keys)
      else case LoadKeysParquet A L env (bf_local_parquet f) (bf_pk_column f) (bf_max_keys f) of
        (ast, keys) \<Rightarrow> if \<not> st_ok ast then None else Some keys)"

definition bench_context_of :: "client_codec \<Rightarrow> string list \<Rightarrow> bench_flags \<Rightarrow> bench_context" where
  "bench_context_of C keys f = \<lparr>bx_codec = C, bx_keys = keys, bx_table = bf_index f, bx_cap = bf_requests f,
     bx_duration = f64_pos (bf_duration_sec f), bx_max_samples = bf_max_latency_samples f\<rparr>"

definition warmup_requests :: "client_codec \<Rightarrow> string list \<Rightarrow> bench_flags \<Rightarrow> string list" where
  "warmup_requests C keys f =
     map (\<lambda>w. BuildGetRequestPayload C (keys ! (w mod length keys)) (bf_index f)) [0..<unat (bf_warmup f)]"

text \<open>
  \<open>main\<close>: how the command line is parsed, its exit code, the requests of the warm-up and the
  report. The channel of the warm-up may fail to come up.
\<close>

inductive bench_main ::
  "(moment \<Rightarrow> bool) \<Rightarrow> ('a, 'b) arrow \<Rightarrow> 'a scalars \<Rightarrow> ('b, 'f, 'h, 'p) file_env \<Rightarrow> host \<Rightarrow> client_codec \<Rightarrow> (nat \<Rightarrow> nat \<Rightarrow> nat) \<Rightarrow>
   string + bench_flags \<Rightarrow> nat \<Rightarrow> string list \<Rightarrow> bench_report option \<Rightarrow> bool"
  for world A L env H C ceil_of where
  bench_usage: "bench_main world A L env H C ceil_of (Inl e) 2 [] None"
| bench_no_keys: "bench_keys A L env H f = None \<Longrightarrow> bench_main world A L env H C ceil_of (Inr f) 1 [] None"
| bench_no_channel: "bench_keys A L env H f = Some keys \<Longrightarrow> bench_main world A L env H C ceil_of (Inr f) 1 [] None"
| bench_ran: "bench_keys A L env H f = Some keys \<Longrightarrow>
    (bench_step world (bench_context_of C keys f))\<^sup>*\<^sup>* (bench_start f) s \<Longrightarrow> bn_main s = R_done \<Longrightarrow>
    bench_main world A L env H C ceil_of (Inr f) 0 (warmup_requests C keys f) (Some (bench_report_of ceil_of keys s))"

inductive_cases bench_mainE: "bench_main world A L env H C ceil_of args 0 warm report"

section \<open>The counters add up\<close>

text \<open>What a worker in the given place still has to add to the counters.\<close>

definition at_ok :: "bench_worker \<Rightarrow> nat" where
  "at_ok w = (if wk_at w = B_ok then 1 else 0)"

text \<open>Whether a worker has passed the check of its loop, or will with the counter it has read.\<close>

definition in_flight :: "u64 \<Rightarrow> bench_stats \<Rightarrow> bench_worker \<Rightarrow> nat" where
  "in_flight cap st w =
     (case wk_at w of
        B_check_err ok \<Rightarrow> if unat ok + unat (bs_rpc_err st) < unat cap then 1 else 0
      | B_send \<Rightarrow> 1
      | B_answer enc rpc res \<Rightarrow> 1
      | B_ok \<Rightarrow> 1
      | _ \<Rightarrow> 0)"

definition samples_of :: "bench_run \<Rightarrow> nat" where
  "samples_of s = sum_list (map (\<lambda>w. length (ls_rpc_ns (wk_lat w))) (bn_workers s))"

text \<open>
  What a step of a worker does, as its proofs use it: it changes the counters, its own place and
  perhaps the stop flag. The two sums below move together; and either the two counters that the
  checks read stay as they are, or the worker counts its answer and goes back to the head.
\<close>

definition tally_move :: "bench_context \<Rightarrow> bench_stats \<Rightarrow> bench_worker \<Rightarrow> bench_stats \<Rightarrow> bench_worker \<Rightarrow> bool" where
  "tally_move cx st w st' w' \<longleftrightarrow>
     bs_found st' + bs_not_found st' + bs_ok st + of_nat (at_ok w) = bs_found st + bs_not_found st + bs_ok st' + of_nat (at_ok w') \<and>
     (bx_max_samples cx = 0 \<longrightarrow>
       of_nat (length (ls_rpc_ns (wk_lat w'))) + bs_ok st + of_nat (at_ok w) =
       of_nat (length (ls_rpc_ns (wk_lat w))) + bs_ok st' + of_nat (at_ok w'))"

definition checks_move :: "bench_context \<Rightarrow> bench_stats \<Rightarrow> bench_worker \<Rightarrow> bench_stats \<Rightarrow> bench_worker \<Rightarrow> bool" where
  "checks_move cx st w st' w' \<longleftrightarrow>
     (bs_ok st' = bs_ok st \<and> bs_rpc_err st' = bs_rpc_err st \<and>
       ((\<forall>c st. in_flight c st w' \<le> in_flight c st w) \<and> (\<forall>a. wk_at w' \<noteq> B_check_err a) \<or>
        wk_at w = B_check \<and> wk_at w' = B_check_err (bs_ok st) \<or>
        (\<exists>a. wk_at w = B_check_err a \<and> wk_at w' = B_send \<and> \<not> bx_cap cx \<le> a + bs_rpc_err st))) \<or>
     (\<forall>c st. in_flight c st w = 1) \<and> wk_at w' = B_head \<and>
       (bs_ok st' = bs_ok st + 1 \<and> bs_rpc_err st' = bs_rpc_err st \<or> bs_ok st' = bs_ok st \<and> bs_rpc_err st' = bs_rpc_err st + 1)"

lemmas move_defs = tally_move_def checks_move_def at_ok_def in_flight_def

lemma add_sample_all: "length (ls_rpc_ns (add_sample 0 rpc e2e i lat)) = Suc (length (ls_rpc_ns lat))"
  by (simp add: add_sample_def)

lemma worker_answer_cases:
  assumes "worker_answer cx mo enc rpc res st w = (st', w')"
  obtains (failed) "st' = st\<lparr>bs_rpc_err := bs_rpc_err st + 1\<rparr>" "w' = w\<lparr>wk_at := B_head\<rparr>"
  | (answered) e2e idx_get where "bs_ok st' = bs_ok st" "bs_rpc_err st' = bs_rpc_err st"
      "bs_found st' + bs_not_found st' = bs_found st + bs_not_found st + 1"
      "w' = w\<lparr>wk_at := B_ok, wk_lat := add_sample (bx_max_samples cx) rpc e2e idx_get (wk_lat w)\<rparr>"
proof (cases "fst res \<or> length (snd res) < 4 \<or> AlignFlatbufferInVector (mo_addr mo) (snd res) = None")
  case True
  with assms have "st' = st\<lparr>bs_rpc_err := bs_rpc_err st + 1\<rparr>" "w' = w\<lparr>wk_at := B_head\<rparr>"
    by (cases res; cases "fst res"; cases "length (snd res) < 4"; simp add: worker_answer_def Let_def)+
  then show ?thesis by (rule failed)
next
  case False
  then obtain skip storage where "AlignFlatbufferInVector (mo_addr mo) (snd res) = Some (skip, storage)" by auto
  with False assms show ?thesis
    by (cases res) (auto simp: worker_answer_def Let_def intro!: answered)
qed

lemma answer_moves:
  assumes "wk_at w = B_answer enc rpc res" "worker_answer cx mo enc rpc res st w = (st', w')"
  shows "tally_move cx st w st' w' \<and> checks_move cx st w st' w'"
  using assms(2)
proof (cases rule: worker_answer_cases)
  case failed
  with assms(1) show ?thesis by (simp add: move_defs)
next
  case answered
  with assms(1) show ?thesis by (auto simp: move_defs add_sample_all)
qed

lemma worker_moves:
  assumes "WorkerLoop_step cx mo i s = Some s'"
  obtains st' w' b where "i < length (bn_workers s)" "s' = s\<lparr>bn_stats := st', bn_stop := b, bn_workers := (bn_workers s)[i := w']\<rparr>"
    "tally_move cx (bn_stats s) (bn_workers s ! i) st' w'"
    "\<not> bx_duration cx \<Longrightarrow> checks_move cx (bn_stats s) (bn_workers s ! i) st' w'"
proof -
  let ?w = "bn_workers s ! i" and ?st' = "bn_stats s'" and ?w' = "bn_workers s' ! i"
  have i: "i < length (bn_workers s)" using assms by (simp add: WorkerLoop_step_def split: if_splits)
  have "s' = s\<lparr>bn_stats := ?st', bn_stop := bn_stop s', bn_workers := (bn_workers s)[i := ?w']\<rparr> \<and>
    tally_move cx (bn_stats s) ?w ?st' ?w' \<and> (\<not> bx_duration cx \<longrightarrow> checks_move cx (bn_stats s) ?w ?st' ?w')"
  proof (cases "wk_at ?w")
    case (B_answer enc rpc res)
    obtain st' w' where a: "worker_answer cx mo enc rpc res (bn_stats s) ?w = (st', w')" by force
    with assms i B_answer have "s' = s\<lparr>bn_stats := st', bn_workers := (bn_workers s)[i := w']\<rparr>"
      by (simp add: WorkerLoop_step_def Let_def)
    with answer_moves [OF B_answer a] i show ?thesis by simp
  qed (insert assms i, simp_all add: WorkerLoop_step_def Let_def split: if_splits, auto simp: move_defs)
  with i that show ?thesis by blast
qed

definition tally_ok :: "bench_context \<Rightarrow> bench_run \<Rightarrow> bool" where
  "tally_ok cx s \<longleftrightarrow>
     bs_found (bn_stats s) + bs_not_found (bn_stats s) =
       bs_ok (bn_stats s) + of_nat (sum_list (map at_ok (bn_workers s))) \<and>
     (bx_max_samples cx = 0 \<longrightarrow>
       of_nat (samples_of s) = bs_ok (bn_stats s) + of_nat (sum_list (map at_ok (bn_workers s)))) \<and>
     (bn_main s = R_done \<longrightarrow> list_all (\<lambda>w. wk_at w = B_done) (bn_workers s))"

text \<open>
  The counters that the checks read, while requests are counted: nothing has been counted that
  was not allowed, and the main thread goes on only when all has been counted.
\<close>

definition checks_ok :: "bench_context \<Rightarrow> nat \<Rightarrow> bench_run \<Rightarrow> bool" where
  "checks_ok cx W s \<longleftrightarrow>
     length (bn_workers s) = W \<and>
     unat (bs_ok (bn_stats s)) + unat (bs_rpc_err (bn_stats s)) +
       sum_list (map (in_flight (bx_cap cx) (bn_stats s)) (bn_workers s)) \<le> unat (bx_cap cx) + W - 1 \<and>
     (\<forall>w \<in> set (bn_workers s). \<forall>a. wk_at w = B_check_err a \<longrightarrow> a \<le> bs_ok (bn_stats s)) \<and>
     (case bn_main s of
        R_sleep \<Rightarrow> True
      | R_poll a \<Rightarrow> a \<le> bs_ok (bn_stats s)
      | _ \<Rightarrow> unat (bx_cap cx) \<le> unat (bs_ok (bn_stats s)) + unat (bs_rpc_err (bn_stats s)))"

lemma tally_ok_start: "tally_ok (bench_context_of C keys f) (bench_start f)"
  by (simp add: tally_ok_def bench_start_def BenchStats_init_def samples_of_def at_ok_def comp_def)

lemma checks_ok_start:
  "0 < unat (bf_workers f) \<Longrightarrow> checks_ok (bench_context_of C keys f) (unat (bf_workers f)) (bench_start f)"
  by (auto simp: checks_ok_def bench_start_def BenchStats_init_def in_flight_def comp_def)

lemma ring_balance:
  fixes x ok a :: "'a :: ring"
  shows "x + ok + a = x0 + ok' + a' \<Longrightarrow> x0 = ok + n \<Longrightarrow> n' + a = n + a' \<Longrightarrow> x = ok' + n'"
    and "l' + ok + a = l + ok' + a' \<Longrightarrow> x + l = x0 + l' \<Longrightarrow> x + ok + a = x0 + ok' + a'"
proof -
  assume h: "x + ok + a = x0 + ok' + a'" "x0 = ok + n" "n' + a = n + a'"
  have "x + (ok + a) = ok + ok' + (n + a')" using h(1,2) by (simp add: algebra_simps)
  also have "\<dots> = ok' + n' + (ok + a)" unfolding h(3) [symmetric] by (simp add: algebra_simps)
  finally show "x = ok' + n'" by simp
next
  assume h: "l' + ok + a = l + ok' + a'" "x + l = x0 + l'"
  have "x + ok + a + l = x0 + (l' + ok + a)" using h(2) by (simp add: algebra_simps)
  also have "\<dots> = x0 + ok' + a' + l" unfolding h(1) by (simp add: algebra_simps)
  finally show "x + ok + a = x0 + ok' + a'" by simp
qed

lemma tally_worker:
  assumes "tally_ok cx s" "bn_main s \<noteq> R_done" "WorkerLoop_step cx mo i s = Some s'"
  shows "tally_ok cx s'"
proof -
  from worker_moves [OF assms(3)] obtain st' w' b where i: "i < length (bn_workers s)"
    and s': "s' = s\<lparr>bn_stats := st', bn_stop := b, bn_workers := (bn_workers s)[i := w']\<rparr>"
    and m: "tally_move cx (bn_stats s) (bn_workers s ! i) st' w'" by blast
  let ?n = "\<lambda>f ws. of_nat (sum_list (map f ws)) :: u64" and ?ws = "(bn_workers s)[i := w']"
  have sums: "?n f ?ws + of_nat (f (bn_workers s ! i)) = ?n f (bn_workers s) + of_nat (f w')" for f
    using sum_list_update_nat [OF i, of f w'] by (simp flip: of_nat_add)
  from m have "bs_found st' + bs_not_found st' + bs_ok (bn_stats s) + of_nat (at_ok (bn_workers s ! i)) =
      bs_found (bn_stats s) + bs_not_found (bn_stats s) + bs_ok st' + of_nat (at_ok w')"
    by (simp add: tally_move_def)
  then have "bs_found st' + bs_not_found st' = bs_ok st' + ?n at_ok ?ws"
    by (rule ring_balance(1) [OF _ _ sums [of at_ok]]) (use assms(1) in \<open>simp add: tally_ok_def\<close>)
  moreover have "of_nat (samples_of s') = bs_ok st' + ?n at_ok ?ws" if "bx_max_samples cx = 0"
  proof -
    let ?l = "\<lambda>w. length (ls_rpc_ns (wk_lat w))"
    have "of_nat (?l w') + bs_ok (bn_stats s) + of_nat (at_ok (bn_workers s ! i)) =
        of_nat (?l (bn_workers s ! i)) + bs_ok st' + of_nat (at_ok w')"
      using m that by (simp add: tally_move_def)
    from ring_balance(2) [OF this sums [of ?l]]
    show ?thesis unfolding samples_of_def s'
      by (simp, intro ring_balance(1) [OF _ _ sums [of at_ok]]) (use assms(1) that in \<open>simp_all add: tally_ok_def samples_of_def\<close>)
  qed
  ultimately show ?thesis using assms(2) by (simp add: tally_ok_def s')
qed

lemma tally_step:
  assumes "tally_ok cx s" "bench_step world cx s s'" shows "tally_ok cx s'"
  using assms(2)
proof cases
  case (step_worker_loop mo i)
  show ?thesis
  proof (cases "bn_main s = R_done")
    case True
    with assms(1) step_worker_loop show ?thesis
      by (auto simp: tally_ok_def list_all_length WorkerLoop_step_def Let_def split: if_splits)
  qed (use tally_worker assms(1) step_worker_loop in blast)
next
  case step_bench_main
  with assms(1) show ?thesis
    by (auto simp: tally_ok_def samples_of_def bench_main_step_def split: bench_main_at.splits if_splits)
qed


lemma in_flight_le: "in_flight c st w \<le> 1"
  by (simp add: in_flight_def split: worker_at.split)

lemma in_flight_sum_le: "sum_list (map (in_flight c st) ws) \<le> length ws"
proof (induction ws)
  case (Cons w ws)
  then show ?case using in_flight_le [of c st w] by simp
qed simp

lemma in_flight_err_mono:
  "unat (bs_rpc_err st) \<le> unat (bs_rpc_err st') \<Longrightarrow>
   sum_list (map (in_flight c st') ws) \<le> sum_list (map (in_flight c st) ws)"
  by (intro sum_list_mono) (auto simp: in_flight_def split: worker_at.split)

lemma in_flight_cong: "bs_rpc_err st' = bs_rpc_err st \<Longrightarrow> in_flight c st' = in_flight c st"
  by (rule ext) (simp add: in_flight_def split: worker_at.split)

lemma in_flight_mem: "i < length ws \<Longrightarrow> in_flight c st (ws ! i) \<le> sum_list (map (in_flight c st) ws)"
  by (rule elem_le_sum_list [of i "map (in_flight c st) ws", simplified])

lemma unat_plus_small: "unat a + unat b < 2 ^ 64 \<Longrightarrow> unat (a + b :: u64) = unat a + unat b"
  by (simp add: unat_word_ariths)

text \<open>The two counters never overflow while they are bounded.\<close>

lemma checks_worker:
  assumes ok: "checks_ok cx W s" and step: "WorkerLoop_step cx mo i s = Some s'"
    and mode: "\<not> bx_duration cx" and small: "unat (bx_cap cx) + W \<le> 2 ^ 64"
  shows "checks_ok cx W s'"
proof -
  from worker_moves [OF step] mode obtain st' w' b where i: "i < length (bn_workers s)"
    and s': "s' = s\<lparr>bn_stats := st', bn_stop := b, bn_workers := (bn_workers s)[i := w']\<rparr>"
    and m: "checks_move cx (bn_stats s) (bn_workers s ! i) st' w'" by metis
  let ?st = "bn_stats s" and ?w = "bn_workers s ! i" and ?ws = "(bn_workers s)[i := w']"
  let ?q = "\<lambda>st ws. sum_list (map (in_flight (bx_cap cx) st) ws)"
  have W: "length (bn_workers s) = W" "W > 0" using ok i by (auto simp: checks_ok_def)
  have bound: "unat (bs_ok ?st) + unat (bs_rpc_err ?st) + ?q ?st (bn_workers s) \<le> unat (bx_cap cx) + W - 1"
    using ok by (simp add: checks_ok_def)
  have upd: "?q st ?ws + in_flight (bx_cap cx) st ?w = ?q st (bn_workers s) + in_flight (bx_cap cx) st w'" for st
    by (rule sum_list_update_nat [OF i])
  note mem = in_flight_mem [OF i, of "bx_cap cx" ?st]
  have read: "\<forall>w \<in> set (bn_workers s). \<forall>a. wk_at w = B_check_err a \<longrightarrow> a \<le> bs_ok ?st"
    using ok by (simp add: checks_ok_def)
  have sets: "set ?ws \<subseteq> insert w' (set (bn_workers s))" by (rule set_update_subset_insert)
  from m consider
      (place) "bs_ok st' = bs_ok ?st" "bs_rpc_err st' = bs_rpc_err ?st"
        "\<forall>c st. in_flight c st w' \<le> in_flight c st ?w" "\<forall>a. wk_at w' \<noteq> B_check_err a"
    | (read_ok) "bs_ok st' = bs_ok ?st" "bs_rpc_err st' = bs_rpc_err ?st" "wk_at ?w = B_check" "wk_at w' = B_check_err (bs_ok ?st)"
    | (passed) a where "bs_ok st' = bs_ok ?st" "bs_rpc_err st' = bs_rpc_err ?st" "wk_at ?w = B_check_err a"
        "wk_at w' = B_send" "\<not> bx_cap cx \<le> a + bs_rpc_err ?st"
    | (counted) "\<forall>c st. in_flight c st ?w = 1" "wk_at w' = B_head"
        "bs_ok st' = bs_ok ?st + 1 \<and> bs_rpc_err st' = bs_rpc_err ?st \<or> bs_ok st' = bs_ok ?st \<and> bs_rpc_err st' = bs_rpc_err ?st + 1"
    unfolding checks_move_def by blast
  then show ?thesis
  proof cases
    case place
    have "?q st' ?ws \<le> ?q ?st (bn_workers s)"
      using upd [of st'] place(3) in_flight_cong [OF place(2)] by (metis add_le_cancel_right add_mono_thms_linordered_semiring(2))
    then show ?thesis using ok place sets read
      by (auto simp: checks_ok_def s' split: bench_main_at.splits)
  next
    case read_ok
    have "?q st' ?ws + unat (bs_ok ?st) + unat (bs_rpc_err ?st) \<le> unat (bx_cap cx) + W - 1"
    proof (cases "unat (bs_ok ?st) + unat (bs_rpc_err ?st) < unat (bx_cap cx)")
      case True
      with in_flight_sum_le [of "bx_cap cx" st' ?ws] W show ?thesis by simp
    next
      case False
      with read_ok upd [of st'] have "?q st' ?ws = ?q st' (bn_workers s)" by (simp add: in_flight_def)
      with bound in_flight_cong [OF read_ok(2)] show ?thesis by simp
    qed
    then show ?thesis using ok read_ok sets read
      by (auto simp: checks_ok_def s' split: bench_main_at.splits)
  next
    case passed
    have a: "unat a \<le> unat (bs_ok ?st)" using read passed(3) i by (auto simp: word_le_nat_alt)
    have "unat (a + bs_rpc_err ?st) = unat a + unat (bs_rpc_err ?st)"
      by (rule unat_plus_small) (use a bound small W in linarith)
    with passed have "in_flight (bx_cap cx) st' w' = in_flight (bx_cap cx) st' ?w"
      by (simp add: in_flight_def word_le_nat_alt)
    with upd [of st'] have "?q st' ?ws = ?q ?st (bn_workers s)" using in_flight_cong [OF passed(2)] by simp
    then show ?thesis using ok passed sets read
      by (auto simp: checks_ok_def s' split: bench_main_at.splits)
  next
    case counted
    let ?n = "unat (bs_ok ?st) + unat (bs_rpc_err ?st)"
    have room: "?n + 1 < 2 ^ 64" using bound small mem counted(1) W by simp
    have n': "unat (bs_ok st') + unat (bs_rpc_err st') = ?n + 1" "unat (bs_rpc_err ?st) \<le> unat (bs_rpc_err st')"
      "unat (bs_ok ?st) \<le> unat (bs_ok st')"
      using counted(3) room unat_plus_small [of _ 1] by auto
    have "?q st' ?ws + 1 \<le> ?q ?st (bn_workers s)"
      using upd [of st'] in_flight_err_mono [OF n'(2), of "bx_cap cx" "bn_workers s"] counted(1,2)
      by (simp add: in_flight_def)
    with bound have "unat (bs_ok st') + unat (bs_rpc_err st') + ?q st' ?ws \<le> unat (bx_cap cx) + W - 1" by (simp add: n')
    moreover have "\<forall>w \<in> set ?ws. \<forall>a. wk_at w = B_check_err a \<longrightarrow> unat a \<le> unat (bs_ok st')"
      using sets read counted(2) n'(3) by (fastforce simp: word_le_nat_alt)
    ultimately show ?thesis using ok n'
      by (auto simp: checks_ok_def s' word_le_nat_alt split: bench_main_at.splits)
  qed
qed

lemma checks_step:
  assumes "checks_ok cx W s" "bench_step world cx s s'" "\<not> bx_duration cx" "unat (bx_cap cx) + W \<le> 2 ^ 64" "0 < W"
  shows "checks_ok cx W s'"
  using assms(2)
proof cases
  case (step_worker_loop mo i)
  show ?thesis by (rule checks_worker [OF assms(1) step_worker_loop(2) assms(3,4)])
next
  case step_bench_main
  let ?st = "bn_stats s"
  have "unat (bx_cap cx) \<le> unat (bs_ok ?st) + unat (bs_rpc_err ?st)" if "bn_main s = R_poll a" "bx_cap cx \<le> a + bs_rpc_err ?st" for a
  proof -
    from assms(1) that(1) have "unat a \<le> unat (bs_ok ?st)"
      and b: "unat (bs_ok ?st) + unat (bs_rpc_err ?st) \<le> unat (bx_cap cx) + W - 1"
      by (auto simp: checks_ok_def word_le_nat_alt)
    moreover from this have "unat (a + bs_rpc_err ?st) = unat a + unat (bs_rpc_err ?st)"
      by (intro unat_plus_small) (use assms(4,5) in linarith)
    ultimately show ?thesis using that(2) by (simp add: word_le_nat_alt)
  qed
  with assms(1,3) step_bench_main show ?thesis
    by (auto simp: checks_ok_def bench_main_step_def split: bench_main_at.splits if_splits)
qed


lemma run_tally:
  assumes "(bench_step world (bench_context_of C keys f))\<^sup>*\<^sup>* (bench_start f) s"
  shows "tally_ok (bench_context_of C keys f) s"
  using assms by (induction rule: rtranclp_induct) (use tally_ok_start tally_step in blast)+

lemma run_checks:
  assumes "(bench_step world (bench_context_of C keys f))\<^sup>*\<^sup>* (bench_start f) s" "0 < unat (bf_workers f)"
    "\<not> f64_pos (bf_duration_sec f)" "unat (bf_requests f) + unat (bf_workers f) \<le> 2 ^ 64"
  shows "checks_ok (bench_context_of C keys f) (unat (bf_workers f)) s"
  using assms(1)
proof (induction rule: rtranclp_induct)
  case base
  show ?case by (rule checks_ok_start [OF assms(2)])
next
  case (step s s')
  show ?case
    by (rule checks_step [OF step.IH step.hyps(2)]) (use assms(2-4) in \<open>simp_all add: bench_context_of_def\<close>)
qed

text \<open>A parsed command line asks for at least one worker.\<close>

lemma bench_flag_workers: "bench_flag strtod a v f = Some f' \<Longrightarrow> 0 < sint (bf_workers f) \<Longrightarrow> 0 < sint (bf_workers f')"
proof -
  assume "0 < sint (bf_workers f)"
  then have "pred_option (\<lambda>f'. 0 < sint (bf_workers f')) (bench_flag strtod a v f)"
    by (simp add: bench_flag_def max_i32_def)
  then show "bench_flag strtod a v f = Some f' \<Longrightarrow> 0 < sint (bf_workers f')" by simp
qed

lemma bench_args_workers: "bench_args strtod args f = Inr f' \<Longrightarrow> 0 < sint (bf_workers f) \<Longrightarrow> 0 < sint (bf_workers f')"
  by (induction strtod args f rule: bench_args.induct) (auto split: option.splits dest: bench_flag_workers)

lemma bench_workers_pos:
  assumes "bench_ParseFlags strtod args = Inr f" shows "0 < unat (bf_workers f)"
proof -
  have "0 < sint (bf_workers BenchFlags_init)" by (simp add: BenchFlags_init_def)
  with assms have "0 < sint (bf_workers f)"
    by (auto simp: bench_ParseFlags_def bench_check_def dest: bench_args_workers split: sum.splits if_splits)
  then show ?thesis by (cases "bf_workers f = 0") (auto simp: unat_eq_0 zero_less_iff_neq_zero)
qed

lemma keys_loaded: "bench_keys A L env H f = Some keys \<Longrightarrow> keys \<noteq> []"
  by (auto simp: bench_keys_def LoadKeysFile_def LoadKeysParquet_def Let_def st_ok_def failure_of_def
      split: if_splits sum.splits prod.splits option.splits)

text \<open>
  C35: The report of the load generator adds up, however its threads interleave and whatever the
  server, the channels and the clock do: each answered request is counted once as found or not
  found; without a limit of samples each has its latencies recorded and the report is not marked as
  truncated; and in the mode that counts requests at least the requested number has been sent and
  fewer than one more per worker.
\<close>

theorem bench_report_exact:
  assumes "bench_ParseFlags strtod args = Inr f"
    and "bench_main world A L env H C ceil_of (bench_ParseFlags strtod args) 0 warm report"
  shows "\<exists>r. report = Some r \<and>
    bs_found (rp_stats r) + bs_not_found (rp_stats r) = bs_ok (rp_stats r) \<and>
    (bf_max_latency_samples f = 0 \<longrightarrow> of_nat (rp_sample_count r) = bs_ok (rp_stats r) \<and> \<not> rp_truncated r) \<and>
    (\<not> f64_pos (bf_duration_sec f) \<longrightarrow> unat (bf_requests f) + unat (bf_workers f) \<le> 2 ^ 64 \<longrightarrow>
      unat (bf_requests f) \<le> unat (bs_ok (rp_stats r)) + unat (bs_rpc_err (rp_stats r)) \<and>
      unat (bs_ok (rp_stats r)) + unat (bs_rpc_err (rp_stats r)) < unat (bf_requests f) + unat (bf_workers f))"
proof -
  from assms obtain keys s where run: "(bench_step world (bench_context_of C keys f))\<^sup>*\<^sup>* (bench_start f) s" "bn_main s = R_done"
    and r: "report = Some (bench_report_of ceil_of keys s)"
    by (auto elim: bench_mainE)
  let ?r = "bench_report_of ceil_of keys s"
  have parts: "rp_stats ?r = bn_stats s" "rp_sample_count ?r = samples_of s"
    "rp_truncated ?r = (samples_of s < unat (bs_ok (bn_stats s)))"
    by (simp_all add: bench_report_of_def samples_of_def comp_def Let_def)
  from run_tally [OF run(1)] run(2) have "list_all (\<lambda>w. wk_at w = B_done) (bn_workers s)" by (simp add: tally_ok_def)
  then have none: "sum_list (map at_ok (bn_workers s)) = 0" by (auto simp: at_ok_def list_all_iff)
  note tally = run_tally [OF run(1), unfolded tally_ok_def none]
  have "\<not> rp_truncated ?r" if "of_nat (samples_of s) = bs_ok (bn_stats s)"
    unfolding parts that [symmetric] by (simp add: unat_of_nat not_less)
  moreover have "unat (bf_requests f) \<le> unat (bs_ok (bn_stats s)) + unat (bs_rpc_err (bn_stats s)) \<and>
      unat (bs_ok (bn_stats s)) + unat (bs_rpc_err (bn_stats s)) < unat (bf_requests f) + unat (bf_workers f)"
    if "\<not> f64_pos (bf_duration_sec f)" "unat (bf_requests f) + unat (bf_workers f) \<le> 2 ^ 64"
  proof -
    from run_checks [OF run(1) bench_workers_pos [OF assms(1)] that] run(2)
    have "unat (bf_requests f) \<le> unat (bs_ok (bn_stats s)) + unat (bs_rpc_err (bn_stats s))"
      "unat (bs_ok (bn_stats s)) + unat (bs_rpc_err (bn_stats s)) \<le> unat (bf_requests f) + unat (bf_workers f) - 1"
      by (simp_all add: checks_ok_def bench_context_of_def)
    with bench_workers_pos [OF assms(1)] show ?thesis by linarith
  qed
  ultimately show ?thesis using tally by (simp add: r parts bench_context_of_def)
qed

section \<open>Schedules, and a run that never ends\<close>

text \<open>The steps of a schedule: a worker at a moment, or the main thread.\<close>

fun play :: "bench_context \<Rightarrow> (nat \<times> moment) option list \<Rightarrow> bench_run \<Rightarrow> bench_run option" where
  "play cx [] s = Some s"
| "play cx (None # sch) s = (case bench_main_step cx s of None \<Rightarrow> None | Some s' \<Rightarrow> play cx sch s')"
| "play cx (Some (i, mo) # sch) s = (case WorkerLoop_step cx mo i s of None \<Rightarrow> None | Some s' \<Rightarrow> play cx sch s')"

definition in_world :: "(moment \<Rightarrow> bool) \<Rightarrow> (nat \<times> moment) option list \<Rightarrow> bool" where
  "in_world world sch \<longleftrightarrow> list_all (\<lambda>e. case e of None \<Rightarrow> True | Some (i, mo) \<Rightarrow> world mo) sch"

lemma in_world_all [simp]: "in_world (\<lambda>_. True) sch"
  by (simp add: in_world_def list_all_iff split: option.split prod.split)

lemma play_runs: "play cx sch s = Some s' \<Longrightarrow> in_world world sch \<Longrightarrow> (bench_step world cx)\<^sup>*\<^sup>* s s'"
  by (induction cx sch s rule: play.induct)
    (auto simp: in_world_def split: option.splits intro: converse_rtranclp_into_rtranclp bench_step.intros)

definition ex_moment :: moment where
  "ex_moment = \<lparr>mo_init = True, mo_late = False, mo_enc_ns = 10, mo_rpc_ns = 20, mo_dec_ns = 3, mo_addr = 6,
     mo_call = (\<lambda>service name req. Some ''yikv'')\<rparr>"

definition ex_client :: client_codec where
  "ex_client = \<lparr>cc_en_get = (\<lambda>t. case get_req_pk t of None \<Rightarrow> [] | Some k \<Rightarrow> k),
     cc_de_get = (\<lambda>bytes. CreateGetResponse (bytes = ''yikv'') None None 7)\<rparr>"

definition ex_bench_args :: "string list" where
  "ex_bench_args = [''--index'', ''t'', ''--keys_file'', ''k'', ''--workers'', ''1'', ''--requests'', ''1'', ''--warmup'', ''0'', ''--max_keys'', ''5'']"

definition ex_bench_flags :: bench_flags where
  "ex_bench_flags = BenchFlags_init\<lparr>bf_index := ''t'', bf_keys_file := ''k'', bf_workers := 1, bf_requests := 1, bf_warmup := 0, bf_max_keys := 5\<rparr>"

definition ex_keys_host :: host where
  "ex_keys_host = ex_host\<lparr>ho_read := (\<lambda>p. Some ''a'')\<rparr>"

definition ex_schedule :: "(nat \<times> moment) option list" where
  "ex_schedule = replicate 7 (Some (0, ex_moment)) @ [None, None] @ replicate 1 (Some (0, ex_moment)) @ [None]"

lemma ex_bench_parsed: "bench_ParseFlags (\<lambda>_. F64 0) ex_bench_args = Inr ex_bench_flags"
  by code_simp

lemma ex_bench_played:
  "map_option bn_main (play (bench_context_of ex_client [''a''] ex_bench_flags) ex_schedule (bench_start ex_bench_flags)) = Some R_done"
  by code_simp

theorem bench_report_exact_witness:
  "\<exists>r. bench_main (\<lambda>_. True) ref_arrow ref_scalars ex_env ex_keys_host ex_client (\<lambda>p n. p * n div 100)
     (bench_ParseFlags (\<lambda>_. F64 0) ex_bench_args) 0 [] (Some r) \<and>
   unat (bs_ok (rp_stats r)) + unat (bs_rpc_err (rp_stats r)) = 1 \<and> \<not> rp_truncated r"
proof -
  let ?cx = "bench_context_of ex_client [''a''] ex_bench_flags"
  from ex_bench_played obtain s where s: "play ?cx ex_schedule (bench_start ex_bench_flags) = Some s" "bn_main s = R_done"
    by (auto simp: map_option_eq_Some)
  have keys: "bench_keys ref_arrow ref_scalars ex_env ex_keys_host ex_bench_flags = Some [''a'']" by code_simp
  have "bench_main (\<lambda>_. True) ref_arrow ref_scalars ex_env ex_keys_host ex_client (\<lambda>p n. p * n div 100)
      (bench_ParseFlags (\<lambda>_. F64 0) ex_bench_args) 0 (warmup_requests ex_client [''a''] ex_bench_flags)
      (Some (bench_report_of (\<lambda>p n. p * n div 100) [''a''] s))"
    unfolding ex_bench_parsed by (rule bench_ran [OF keys play_runs [OF s(1) in_world_all] s(2)])
  moreover have "warmup_requests ex_client [''a''] ex_bench_flags = []" by code_simp
  ultimately have run: "bench_main (\<lambda>_. True) ref_arrow ref_scalars ex_env ex_keys_host ex_client (\<lambda>p n. p * n div 100)
      (bench_ParseFlags (\<lambda>_. F64 0) ex_bench_args) 0 [] (Some (bench_report_of (\<lambda>p n. p * n div 100) [''a''] s))" by simp
  have flags: "\<not> f64_pos (bf_duration_sec ex_bench_flags)" "bf_requests ex_bench_flags = 1" "bf_workers ex_bench_flags = 1"
    "bf_max_latency_samples ex_bench_flags = 0" by code_simp+
  from bench_report_exact [OF ex_bench_parsed run] run show ?thesis by (auto simp: flags)
qed


text \<open>
  A worker whose channel does not come up sets the stop flag, and all workers end. The main thread
  of the mode that counts requests then waits for a count that nobody raises any more.
\<close>

definition stuck :: "bench_context \<Rightarrow> bench_run \<Rightarrow> bool" where
  "stuck cx s \<longleftrightarrow> \<not> bx_duration cx \<and> list_all (\<lambda>w. wk_at w = B_done) (bn_workers s) \<and>
     bs_ok (bn_stats s) + bs_rpc_err (bn_stats s) < bx_cap cx \<and>
     (bn_main s = R_sleep \<or> bn_main s = R_poll (bs_ok (bn_stats s)))"

lemma stuck_step: "stuck cx s \<Longrightarrow> bench_step world cx s s' \<Longrightarrow> stuck cx s'"
  by (auto simp: stuck_def list_all_length WorkerLoop_step_def bench_main_step_def Let_def
      elim!: bench_step.cases split: if_splits)

lemma stuck_never_ends: "(bench_step world cx)\<^sup>*\<^sup>* s s' \<Longrightarrow> stuck cx s \<Longrightarrow> bn_main s' \<noteq> R_done"
proof -
  assume "(bench_step world cx)\<^sup>*\<^sup>* s s'" "stuck cx s"
  then have "stuck cx s'" by (induction rule: rtranclp_induct) (auto dest: stuck_step)
  then show ?thesis by (auto simp: stuck_def)
qed

theorem failed_channel_hangs:
  "\<exists>s. (bench_step (\<lambda>_. True) (bench_context_of ex_client [''a''] ex_bench_flags))\<^sup>*\<^sup>* (bench_start ex_bench_flags) s \<and>
     (\<forall>s'. (bench_step (\<lambda>_. True) (bench_context_of ex_client [''a''] ex_bench_flags))\<^sup>*\<^sup>* s s' \<longrightarrow> bn_main s' \<noteq> R_done)"
proof -
  let ?cx = "bench_context_of ex_client [''a''] ex_bench_flags"
  have "case play ?cx [Some (0, ex_moment\<lparr>mo_init := False\<rparr>)] (bench_start ex_bench_flags) of None \<Rightarrow> False | Some s \<Rightarrow> stuck ?cx s"
    by code_simp
  then obtain s where "play ?cx [Some (0, ex_moment\<lparr>mo_init := False\<rparr>)] (bench_start ex_bench_flags) = Some s" "stuck ?cx s"
    by (auto split: option.splits)
  then show ?thesis using play_runs [OF _ in_world_all] stuck_never_ends by blast
qed

end
