(* ===== verification/BenchServer.thy ===== *)
theory BenchServer
  imports BenchRun HandlersProps
begin

text \<open>
  The load generator against the server it was written for, with a table that an import has
  filled: import, key loading, RPC dispatch, request handler and worker loop together.
\<close>

section \<open>The world is the server\<close>

text \<open>
  What the two sides need of the FlatBuffers bytes: a request for a key of a table is read as it
  was written, a response keeps its \<open>found\<close> and has at least the four bytes of its root offset.
\<close>

definition codecs_agree :: "codec \<Rightarrow> client_codec \<Rightarrow> bool" where
  "codecs_agree C CC \<longleftrightarrow>
     (\<forall>pk t. de_get C (cc_en_get CC (CreateGetRequest (Some pk) (Some t))) = CreateGetRequest (Some pk) (Some t)) \<and>
     (\<forall>r. get_resp_found (cc_de_get CC (en_get C r)) = get_resp_found r \<and> 4 \<le> length (en_get C r))"

text \<open>The states in which the server has a table with the given keys; it may have others too.\<close>

definition serving :: "('d, 'k) engine \<Rightarrow> string \<Rightarrow> string set \<Rightarrow> ('w, 'r, 'k) server \<Rightarrow> bool" where
  "serving E t ks s \<longleftrightarrow>
     (\<exists>slot. table_of s t = Some slot \<and> ingest_ok E (ts_schema slot) \<and> ks \<subseteq> dom (rows_of E s slot))"

text \<open>
  Each call fails or is answered by \<open>ProcessRpcRequest\<close> in one of the states \<open>states\<close>: between the
  requests the server may do anything that keeps it in them.
\<close>

definition answered_by ::
  "('d, 'k) engine \<Rightarrow> codec \<Rightarrow> (('w, 'r, 'k) server \<Rightarrow> bool) \<Rightarrow> moment \<Rightarrow> bool" where
  "answered_by E C states mo \<longleftrightarrow>
     (\<forall>service name req body. mo_call mo service name req = Some body \<longrightarrow>
       (\<exists>s ns. states s \<and> fst (ProcessRpcRequest E C ns (Some (service, name)) req s) = Inr body))"

lemma rpc_get_found:
  assumes "codecs_agree C CC" "serving E t ks s" "pk \<in> ks"
    and "fst (ProcessRpcRequest E C ns (Some (kServiceFullName, kMethodGet)) (BuildGetRequestPayload CC pk t) s) = Inr body"
  shows "get_resp_found (cc_de_get CC body) \<and> 4 \<le> length body"
proof -
  let ?req = "BuildGetRequestPayload CC pk t"
  have q: "de_get C ?req = CreateGetRequest (Some pk) (Some t)"
    using assms(1) by (simp add: codecs_agree_def BuildGetRequestPayload_def)
  from assms(2,3) obtain slot v where slot: "table_of s t = Some slot" "ingest_ok E (ts_schema slot)" "rows_of E s slot pk = Some v"
    by (auto simp: serving_def)
  have "get_resp_found (fst (HandleGet E ns (de_get C ?req) s))"
    unfolding q HandleGet_refines [OF slot(2,1)] by (simp add: get_spec_def slot(3))
  moreover have "body = en_get C (fst (HandleGet E ns (de_get C ?req) s))"
    using assms(4) by (simp add: ProcessRpcRequest_def Let_def)
  ultimately show ?thesis using assms(1) by (simp add: codecs_agree_def)
qed

section \<open>Every key is found\<close>

text \<open>A worker with an answer in hand: it is a failure or says that the key was found.\<close>

definition finding :: "bench_context \<Rightarrow> bench_worker \<Rightarrow> bool" where
  "finding cx w =
     (case wk_at w of
        B_answer enc rpc res \<Rightarrow> fst res \<or> get_resp_found (cc_de_get (bx_codec cx) (snd res))
      | _ \<Rightarrow> True)"

definition finds :: "bench_context \<Rightarrow> bench_run \<Rightarrow> bool" where
  "finds cx s \<longleftrightarrow> bs_not_found (bn_stats s) = 0 \<and> (\<forall>w \<in> set (bn_workers s). finding cx w)"

lemma answer_finds:
  assumes "worker_answer cx mo enc rpc res st w = (st', w')" "wk_at w = B_answer enc rpc res" "finding cx w"
  shows "bs_not_found st' = bs_not_found st \<and> finding cx w'"
  using assms
  by (auto simp: worker_answer_def finding_def Let_def aligned_copy(1) split: option.splits prod.splits if_splits)

lemma worker_finds:
  assumes mo: "answered_by E C (serving E (bx_table cx) ks) mo" and step: "WorkerLoop_step cx mo i s = Some s'"
    and found: "finding cx (bn_workers s ! i)"
    and agree: "codecs_agree C (bx_codec cx)" and keys: "bx_keys cx \<noteq> []" "set (bx_keys cx) \<subseteq> ks"
  shows "bs_not_found (bn_stats s') = bs_not_found (bn_stats s) \<and> finding cx (bn_workers s' ! i)"
proof -
  let ?w = "bn_workers s ! i"
  have i: "i < length (bn_workers s)" using step by (simp add: WorkerLoop_step_def split: if_splits)
  show ?thesis
  proof (cases "wk_at ?w")
    case (B_answer enc rpc res)
    obtain st' w' where a: "worker_answer cx mo enc rpc res (bn_stats s) ?w = (st', w')" by force
    with step i B_answer have "s' = s\<lparr>bn_stats := st', bn_workers := (bn_workers s)[i := w']\<rparr>"
      by (simp add: WorkerLoop_step_def Let_def)
    with answer_finds [OF a B_answer found] i show ?thesis by simp
  next
    case B_send
    let ?pk = "bx_keys cx ! (unat (wk_idx ?w) mod length (bx_keys cx))"
    let ?res = "OneGetRpc (mo_call mo) (BuildGetRequestPayload (bx_codec cx) ?pk (bx_table cx))"
    have "?pk \<in> ks" using keys by (auto intro!: nth_mem)
    have "fst ?res \<or> get_resp_found (cc_de_get (bx_codec cx) (snd ?res))"
    proof (cases "mo_call mo kServiceFullName kMethodGet (BuildGetRequestPayload (bx_codec cx) ?pk (bx_table cx))")
      case (Some body)
      from mo [unfolded answered_by_def, rule_format, OF this] rpc_get_found [OF agree _ \<open>?pk \<in> ks\<close>]
      have "get_resp_found (cc_de_get (bx_codec cx) body)" by blast
      then show ?thesis by (simp add: OneGetRpc_def Some)
    qed (simp add: OneGetRpc_def)
    then show ?thesis using step i B_send by (auto simp: WorkerLoop_step_def Let_def finding_def)
  qed (insert step i, simp_all add: WorkerLoop_step_def Let_def split: if_splits, auto simp: finding_def)
qed

lemma finds_step:
  assumes ok: "finds cx s" and step: "bench_step (answered_by E C (serving E (bx_table cx) ks)) cx s s'"
    and agree: "codecs_agree C (bx_codec cx)" and keys: "bx_keys cx \<noteq> []" "set (bx_keys cx) \<subseteq> ks"
  shows "finds cx s'"
  using step
proof cases
  case step_bench_main
  with ok show ?thesis by (auto simp: finds_def bench_main_step_def split: bench_main_at.splits if_splits)
next
  case (step_worker_loop mo i)
  from worker_moves [OF step_worker_loop(2)] obtain st' w' b where i: "i < length (bn_workers s)"
    and s': "s' = s\<lparr>bn_stats := st', bn_stop := b, bn_workers := (bn_workers s)[i := w']\<rparr>" by metis
  from ok i have "finding cx (bn_workers s ! i)" by (simp add: finds_def)
  from worker_finds [OF step_worker_loop this agree keys] i have "bs_not_found st' = bs_not_found (bn_stats s)" "finding cx w'"
    by (simp_all add: s')
  with ok set_update_subset_insert [of "bn_workers s" i w'] show ?thesis by (auto simp: finds_def s' dest: subsetD)
qed

lemma finds_start: "finds cx (bench_start f)"
  by (auto simp: finds_def bench_start_def BenchStats_init_def finding_def)

text \<open>
  C11: What an import has stored is found. When the load generator takes its keys from the Parquet
  file that an import has put into a table, and every call fails or is answered by the server over
  baidu_std in a state in which the table holds the rows of that import (others may come and go),
  then its report counts no key as not found.
\<close>

theorem bench_finds_imported:
  fixes E :: "('d, 'k) engine" and states :: "('w, 'r, 'k) server \<Rightarrow> bool"
  assumes "keys_agree A L S" "\<not> IsCloudUri path" "EndsWithIgnoreCase ''.parquet'' path"
    and "import_batches A env cloud S [path] = Some bs" "\<forall>pb \<in> set bs. batch_good A S (pb_batch pb)"
    and "codecs_agree C CC"
    and "bf_local_parquet f = path" "bf_keys_file f = []" "bf_pk_column f = sc_pk S"
    and "states = serving E (bf_index f) (dom (map_of (import_sheet A S bs)))"
    and "bench_main (answered_by E C states) A L env H CC ceil_of (Inr f) 0 warm (Some r)"
  shows "bs_not_found (rp_stats r) = 0"
proof -
  let ?ks = "dom (map_of (import_sheet A S bs))"
  let ?world = "answered_by E C states"
  from assms(11) obtain keys s where keys: "bench_keys A L env H f = Some keys"
    and run: "(bench_step ?world (bench_context_of CC keys f))\<^sup>*\<^sup>* (bench_start f) s"
    and r: "r = bench_report_of ceil_of keys s"
    by (auto elim: bench_mainE)
  have "set (take (unat (bf_max_keys f)) (map fst (import_sheet A S bs))) \<subseteq> ?ks"
    using set_take_subset [of "unat (bf_max_keys f)" "map fst (import_sheet A S bs)"] by (simp add: dom_map_of_conv_image_fst)
  with keys parquet_keys [OF assms(1-5) refl, of "bf_max_keys f"] have ks: "keys \<noteq> []" "set keys \<subseteq> ?ks"
    by (auto simp: bench_keys_def assms(7-9) split: if_splits)
  from run have "finds (bench_context_of CC keys f) s"
  proof (induction rule: rtranclp_induct)
    case base
    show ?case by (rule finds_start)
  next
    case (step s s')
    then show ?case using ks assms(6)
      by (intro finds_step [OF step.IH, where E = E and C = C and ks = ?ks]) (simp_all add: bench_context_of_def assms(10))
  qed
  then show ?thesis by (simp add: r finds_def bench_report_of_def Let_def)
qed

section \<open>A concrete server\<close>

text \<open>Bytes for the example: a key is preceded by its length in unary, a response is a word.\<close>

definition ex_de_get :: "string \<Rightarrow> get_request" where
  "ex_de_get bytes =
     (let n = length (takeWhile (\<lambda>c. c = CHR ''x'') bytes); rest = drop (Suc n) bytes
      in CreateGetRequest (Some (take n rest)) (Some (drop n rest)))"

definition ex_codec :: codec where
  "ex_codec = \<lparr>de_get = ex_de_get, de_put = (\<lambda>_. \<lparr>pqs_row = None, pqs_table_name = None\<rparr>),
     de_put_batch = (\<lambda>_. \<lparr>pbqs_rows = None, pbqs_table_name = None\<rparr>),
     de_batch_get = (\<lambda>_. \<lparr>bqs_pks = None, bqs_table_name = None\<rparr>),
     en_get = (\<lambda>r. if get_resp_found r then ''found'' else ''none''), en_put = (\<lambda>_. ''put''),
     en_put_batch = (\<lambda>_. ''put''), en_batch_get = (\<lambda>_. ''rows'')\<rparr>"

definition ex_bench_codec :: client_codec where
  "ex_bench_codec = \<lparr>cc_en_get = (\<lambda>q. case (get_req_pk q, get_req_table q) of
       (Some pk, Some t) \<Rightarrow> replicate (length pk) (CHR ''x'') @ ''y'' @ pk @ t | _ \<Rightarrow> []),
     cc_de_get = (\<lambda>bytes. CreateGetResponse (bytes = ''found'') None None 7)\<rparr>"

lemma ex_codecs_agree: "codecs_agree ex_codec ex_bench_codec"
  by (simp add: codecs_agree_def ex_codec_def ex_bench_codec_def ex_de_get_def takeWhile_tail)

definition ex_bench_server :: "(unit, string, ref_index) server" where
  "ex_bench_server = ex_server\<lparr>sr_registry := (sr_registry ex_server)\<lparr>rg_slots := [(0, ex_slot\<lparr>ts_schema := ex_import_schema\<rparr>)]\<rparr>,
     sr_index := (\<lambda>_. [(''1'', []), (''30'', [])])\<rparr>"

definition ex_parquet_flags :: bench_flags where
  "ex_parquet_flags = BenchFlags_init\<lparr>bf_index := ''t'', bf_local_parquet := ''d/a.parquet'', bf_pk_column := ''id'',
     bf_workers := 1, bf_requests := 1, bf_warmup := 0, bf_max_keys := 5\<rparr>"

definition ex_served_moment :: moment where
  "ex_served_moment = ex_moment\<lparr>mo_call := (\<lambda>service name req.
     case fst (ProcessRpcRequest (ref_engine ex_import_schema) ex_codec 5 (Some (service, name)) req ex_bench_server) of
       Inl e \<Rightarrow> None | Inr body \<Rightarrow> Some body)\<rparr>"

definition ex_served_schedule :: "(nat \<times> moment) option list" where
  "ex_served_schedule = replicate 7 (Some (0, ex_served_moment)) @ [None, None, Some (0, ex_served_moment), None]"

definition ex_states :: "(unit, string, ref_index) server \<Rightarrow> bool" where
  "ex_states = serving (ref_engine ex_import_schema) ''t'' (dom (map_of (import_sheet ref_arrow ex_import_schema [hd ex_parsed])))"

lemma ex_serving: "ex_states ex_bench_server"
proof -
  have slot: "table_of ex_bench_server ''t'' = Some (ex_slot\<lparr>ts_schema := ex_import_schema\<rparr>)"
    by (simp add: table_of_def ex_bench_server_def ex_server_def live_slot_def find_head_def find_slot_def)
  have keys: "map fst (import_sheet ref_arrow ex_import_schema [hd ex_parsed]) = [''1'', ''30'']" by code_simp
  have d: "dom (map_of (import_sheet ref_arrow ex_import_schema [hd ex_parsed])) = {''1'', ''30''}"
    using arg_cong [OF keys, of set] by (simp add: dom_map_of_conv_image_fst)
  have k: "k \<in> dom (rows_of (ref_engine ex_import_schema) ex_bench_server (ex_slot\<lparr>ts_schema := ex_import_schema\<rparr>))"
    if "k \<in> {''1'', ''30''}" for k
    using that by (auto simp: rows_of_def table_view_def slot_index_def ex_bench_server_def ref_engine_def ref_get_def)
  have "dom (map_of (import_sheet ref_arrow ex_import_schema [hd ex_parsed]))
      \<subseteq> dom (rows_of (ref_engine ex_import_schema) ex_bench_server (ex_slot\<lparr>ts_schema := ex_import_schema\<rparr>))"
    unfolding d by (rule subsetI) (erule k)
  with slot ex_files_ok show ?thesis by (auto simp: ex_states_def serving_def)
qed

lemma ex_served: "in_world (answered_by (ref_engine ex_import_schema) ex_codec ex_states) ex_served_schedule"
proof -
  have "answered_by (ref_engine ex_import_schema) ex_codec ex_states ex_served_moment"
    unfolding answered_by_def using ex_serving by (auto simp: ex_served_moment_def split: sum.splits)
  then show ?thesis by (auto simp: in_world_def ex_served_schedule_def list_all_iff)
qed

lemma ex_served_played:
  "map_option (\<lambda>s. (bn_main s, bs_found (bn_stats s)))
     (play (bench_context_of ex_bench_codec [''1'', ''30''] ex_parquet_flags) ex_served_schedule (bench_start ex_parquet_flags))
   = Some (R_done, 1)"
  by code_simp

theorem bench_finds_imported_witness:
  "\<exists>r. bench_main (answered_by (ref_engine ex_import_schema) ex_codec ex_states)
     ref_arrow ref_scalars ex_env ex_host ex_bench_codec (\<lambda>p n. p * n div 100) (Inr ex_parquet_flags) 0 [] (Some r) \<and>
   bs_found (rp_stats r) = 1 \<and> bs_not_found (rp_stats r) = 0"
proof -
  let ?E = "ref_engine ex_import_schema" and ?cx = "bench_context_of ex_bench_codec [''1'', ''30''] ex_parquet_flags"
  from ex_served_played obtain s where s: "play ?cx ex_served_schedule (bench_start ex_parquet_flags) = Some s"
    "bn_main s = R_done" "bs_found (bn_stats s) = 1"
    by (auto simp: map_option_eq_Some)
  have keys: "bench_keys ref_arrow ref_scalars ex_env ex_host ex_parquet_flags = Some [''1'', ''30'']" by code_simp
  have warm: "warmup_requests ex_bench_codec [''1'', ''30''] ex_parquet_flags = []" by code_simp
  note run = bench_ran [OF keys play_runs [OF s(1) ex_served] s(2), where ceil_of = "\<lambda>p n. p * n div 100", unfolded warm]
  have S: "keys_agree ref_arrow ref_scalars ex_import_schema"
    using ref_scalar_ok ex_files_ok by (simp add: keys_agree_def ingest_ok_def)
  have path: "\<not> IsCloudUri ''d/a.parquet''" "EndsWithIgnoreCase ''.parquet'' ''d/a.parquet''" by code_simp+
  have good: "\<forall>pb \<in> set [hd ex_parsed]. batch_good ref_arrow ex_import_schema (pb_batch pb)"
    using ex_import_good by (simp add: ex_parsed_def)
  have flags: "bf_local_parquet ex_parquet_flags = ''d/a.parquet''" "bf_keys_file ex_parquet_flags = []"
    "bf_pk_column ex_parquet_flags = sc_pk ex_import_schema" "bf_index ex_parquet_flags = ''t''" by code_simp+
  from bench_finds_imported [OF S path ex_bench_batches good ex_codecs_agree flags(1-3)
      ex_states_def [folded flags(4)] run]
  show ?thesis using run s(3) by (auto simp: bench_report_of_def Let_def)
qed

end
