(* ===== verification/StubSources.thy ===== *)
theory StubSources
  imports PipelineSafety
begin

text \<open>
  \<open>indexer/source/sql/hive_source.cc\<close> and \<open>odps_source.cc\<close>: sources that are not implemented. An
  import with one of them ends, if it ends, with a failure and has written nothing.
\<close>

datatype stub_loc = H_set | H_abort | H_return

definition stub_ProduceLoop :: "string \<Rightarrow> bool \<Rightarrow> unit \<Rightarrow> stub_loc \<Rightarrow> unit \<times> stub_loc \<times> 'b effect" where
  "stub_ProduceLoop name failed src l =
     (case l of
        H_set \<Rightarrow> (src, H_abort, E_set (NotImplemented name))
      | H_abort \<Rightarrow> (src, H_return, E_abort)
      | H_return \<Rightarrow> (src, H_return, E_exit))"

definition Hive_ProduceLoop :: "bool \<Rightarrow> unit \<Rightarrow> stub_loc \<Rightarrow> unit \<times> stub_loc \<times> 'b effect" where
  "Hive_ProduceLoop = stub_ProduceLoop ''HiveSource''"

definition Odps_ProduceLoop :: "bool \<Rightarrow> unit \<Rightarrow> stub_loc \<Rightarrow> unit \<times> stub_loc \<times> 'b effect" where
  "Odps_ProduceLoop = stub_ProduceLoop ''OdpsSource''"

definition stub_inv :: "'w \<Rightarrow> (unit, stub_loc, 'b, 'w) pipeline \<Rightarrow> bool" where
  "stub_inv w0 p \<longleftrightarrow>
     bq_items (pl_queue p) = [] \<and> pl_written p = [] \<and> pl_sink p = w0 \<and> (\<forall>b. pl_writer p \<noteq> W_write b) \<and>
     pl_producers p \<noteq> [] \<and> (\<forall>l \<in> set (pl_producers p). l = Some H_set \<or> er_failed (pl_err p)) \<and>
     (pl_main p \<noteq> M_join \<longrightarrow> er_failed (pl_err p)) \<and> pl_main p \<noteq> M_done True"

lemma stub_inv_init: "stub_inv w0 (pipeline_init capacity workers () H_set w0)"
  by (simp add: stub_inv_def pipeline_init_def IoPublisher_threads_def BatchQueue_init_def)

lemma stub_producer:
  assumes "stub_inv w0 p" "producer_step (stub_ProduceLoop name) i p = Some p'" shows "stub_inv w0 p'"
proof -
  have sub: "set ((pl_producers p)[i := x]) \<subseteq> insert x (set (pl_producers p))" for x by (rule set_update_subset_insert)
  have "Some l \<in> set (pl_producers p)" if "i < length (pl_producers p)" "pl_producers p ! i = Some l" for l
    using that nth_mem by force
  with assms sub show ?thesis
    by (fastforce simp: stub_inv_def producer_step_def perform_def stub_ProduceLoop_def Abort_def
        split: if_splits option.splits stub_loc.splits)
qed

lemma stub_step:
  assumes "stub_inv w0 p" "pipeline_step (stub_ProduceLoop name) process have_schema p p'" shows "stub_inv w0 p'"
  using assms(2)
proof cases
  case step_producer
  then show ?thesis by (rule stub_producer [OF assms(1)])
next
  case step_writer
  with assms(1) show ?thesis
    by (cases "pl_writer p") (auto simp: stub_inv_def writer_step_cases Abort_def)
next
  case step_main
  obtain l where "l \<in> set (pl_producers p)" using assms(1) by (cases "pl_producers p") (auto simp: stub_inv_def)
  with assms(1) step_main show ?thesis
    by (auto simp: stub_inv_def main_step_def PushEos_def Abort_def list_all_iff split: main_loc.splits if_splits)
qed

theorem stub_import_fails:
  assumes "(pipeline_step (stub_ProduceLoop name) process have_schema)\<^sup>*\<^sup>* (pipeline_init capacity workers () H_set w0) p"
    and "pl_main p = M_done ok"
  shows "\<not> ok \<and> pl_written p = [] \<and> pl_sink p = w0"
proof -
  from assms(1) have "stub_inv w0 p"
    by (induction rule: rtranclp_induct) (auto intro: stub_inv_init stub_step)
  with assms(2) show ?thesis by (simp add: stub_inv_def)
qed

end
