(* ===== verification/WireClient.thy ===== *)
theory WireClient
  imports Wire
begin

text \<open>
  The part of \<open>gen/yikv_server_generated.h\<close> that the server does not call: the names of the value
  types, the requests a client builds and the \<open>Direct\<close> functions, which take C strings and vectors.
  A null pointer leaves the slot out; a C string ends at its first NUL. The builders assert that
  a required offset was added; the model has the builds in which the assertion is compiled out.
\<close>

section \<open>Names of value types\<close>

definition EnumNamesValueType :: "string list" where
  "EnumNamesValueType =
     [''NONE'', ''BOOL'', ''I32'', ''I64'', ''F32'', ''F64'', ''STRING'', ''BYTES'', ''ARR_I32'', ''ARR_I64'',
      ''ARR_F32'', ''ARR_F64'', ''ARR_STRING'']"

definition EnumNameValueType :: "value_type \<Rightarrow> string" where
  "EnumNameValueType e =
     (let index = unat (byte_of_value_type e) in if 12 < index then [] else EnumNamesValueType ! index)"

lemma value_type_names: "map EnumNameValueType value_types = EnumNamesValueType"
  by code_simp

lemma enum_name_unique:
  "EnumNameValueType a = EnumNameValueType b \<Longrightarrow> a \<in> set value_types \<Longrightarrow> b \<in> set value_types \<Longrightarrow> a = b"
proof -
  have "distinct (map EnumNameValueType value_types)" unfolding value_type_names by code_simp
  then show "EnumNameValueType a = EnumNameValueType b \<Longrightarrow> a \<in> set value_types \<Longrightarrow> b \<in> set value_types \<Longrightarrow> a = b"
    by (auto simp: distinct_map dest: inj_onD)
qed

section \<open>Requests\<close>

definition CreatePutRequest :: "row option \<Rightarrow> string option \<Rightarrow> put_request" where
  "CreatePutRequest r tname = \<lparr>pqs_row = r, pqs_table_name = tname\<rparr>"

definition CreateBatchGetRequest :: "string option list option \<Rightarrow> string option \<Rightarrow> batch_get_request" where
  "CreateBatchGetRequest pks tname = \<lparr>bqs_pks = pks, bqs_table_name = tname\<rparr>"

definition CreatePutBatchRequest :: "row option list option \<Rightarrow> string option \<Rightarrow> put_batch_request" where
  "CreatePutBatchRequest rs tname = \<lparr>pbqs_rows = rs, pbqs_table_name = tname\<rparr>"

lemma request_access [simp]:
  "put_req_row (CreatePutRequest r t) = r"
  "put_req_table (CreatePutRequest r t) = t"
  "batch_get_req_pks (CreateBatchGetRequest pks t) = pks"
  "batch_get_req_table (CreateBatchGetRequest pks t) = t"
  "put_batch_req_rows (CreatePutBatchRequest rs t) = rs"
  "put_batch_req_table (CreatePutBatchRequest rs t) = t"
  by (simp_all add: CreatePutRequest_def CreateBatchGetRequest_def CreatePutBatchRequest_def put_req_row_def
      put_req_table_def batch_get_req_pks_def batch_get_req_table_def put_batch_req_rows_def put_batch_req_table_def)

section \<open>\<open>Direct\<close>\<close>

definition c_string :: "string option \<Rightarrow> string option" where
  "c_string s = map_option (takeWhile (\<lambda>c. c \<noteq> nul)) s"

definition CreateFieldValueDirect ::
  "u16 \<Rightarrow> value_type \<Rightarrow> i32 \<Rightarrow> i64 \<Rightarrow> f32 \<Rightarrow> f64 \<Rightarrow> string option \<Rightarrow> string option \<Rightarrow>
   i32 list option \<Rightarrow> i64 list option \<Rightarrow> f32 list option \<Rightarrow> f64 list option \<Rightarrow>
   string option list option \<Rightarrow> field_value" where
  "CreateFieldValueDirect fid vt i32 i64 f f' s raw ai32 ai64 af32 af64 as' =
     CreateFieldValue fid vt i32 i64 f f' (c_string s) raw ai32 ai64 af32 af64 as'"

definition CreateRowDirect :: "field_value option list option \<Rightarrow> row" where
  "CreateRowDirect fs = CreateRow fs"

definition CreateGetRequestDirect :: "string option \<Rightarrow> string option \<Rightarrow> get_request" where
  "CreateGetRequestDirect pk tname = CreateGetRequest (c_string pk) (c_string tname)"

definition CreateGetResponseDirect :: "bool \<Rightarrow> string option \<Rightarrow> row option \<Rightarrow> u64 \<Rightarrow> get_response" where
  "CreateGetResponseDirect found err r ns = CreateGetResponse found (c_string err) r ns"

definition CreatePutRequestDirect :: "row option \<Rightarrow> string option \<Rightarrow> put_request" where
  "CreatePutRequestDirect r tname = CreatePutRequest r (c_string tname)"

definition CreatePutResponseDirect :: "bool \<Rightarrow> string option \<Rightarrow> put_response" where
  "CreatePutResponseDirect ok err = CreatePutResponse ok (c_string err)"

definition CreateBatchGetRequestDirect :: "string option list option \<Rightarrow> string option \<Rightarrow> batch_get_request" where
  "CreateBatchGetRequestDirect pks tname = CreateBatchGetRequest pks (c_string tname)"

definition CreateBatchGetResponseDirect :: "row list option \<Rightarrow> string option \<Rightarrow> batch_get_response" where
  "CreateBatchGetResponseDirect rs err = CreateBatchGetResponse rs (c_string err)"

definition CreatePutBatchRequestDirect :: "row option list option \<Rightarrow> string option \<Rightarrow> put_batch_request" where
  "CreatePutBatchRequestDirect rs tname = CreatePutBatchRequest rs (c_string tname)"

definition CreatePutBatchResponseDirect :: "bool \<Rightarrow> string option \<Rightarrow> put_batch_response" where
  "CreatePutBatchResponseDirect ok err = CreatePutBatchResponse ok (c_string err)"

text \<open>
  A \<open>Direct\<close> function builds what the function on offsets builds exactly when its strings have no
  NUL: a key with one is cut, and then names another row.
\<close>

lemma c_string_id: "c_string (Some s) = Some s \<longleftrightarrow> nul \<notin> set s"
  by (auto simp: c_string_def takeWhile_eq_all_conv)

lemma direct_get_request:
  "CreateGetRequestDirect (Some pk) (Some t) = CreateGetRequest (Some pk) (Some t) \<longleftrightarrow> nul \<notin> set pk \<and> nul \<notin> set t"
  by (auto simp: CreateGetRequestDirect_def CreateGetRequest_def c_string_id)

end
