(* ===== verification/Spec2Isabelle.thy ===== *)
theory Spec2Isabelle
  imports StreamSpec KafkaCatchup Config RegistrySafety HandlersProps Server TypedTables InputFiles ImportMainProps BenchServer StubSources WireClient

begin

text \<open>
  Verification of yikv-server, a table server over the yikv key-value engine, of the pipeline that
  builds its tables, and of its load generator.

  The program. The server (\<open>src/yikv_server\<close>) opens one index per directory of its database path,
  serves get, put, batch get and put batch over two RPC services, applies a stream of JSON
  messages from Kafka to each table, and swaps the index of a table for a new build on the
  command \<open>reload\<close> of an admin socket. The import tool (\<open>src/import_pipeline_main.cc\<close>,
  \<open>src/indexer\<close>, \<open>src/import\<close>) reads Parquet and CSV files, cloud objects or a MySQL query in
  several threads into a bounded queue, from which one thread writes an index; it persists the
  index and catches up with the Kafka topic, leaving the offset at which the server goes on. The load
  generator (\<open>src/bench_main.cc\<close>) asks the server for keys and reports counts and latencies. The
  engine (\<open>DB\<close>, \<open>KVIndex\<close>, \<open>Doc\<close>, \<open>Schema\<close>), librdkafka, nlohmann::json, Arrow, brpc, the MySQL
  client and the FlatBuffers runtime are libraries; they are parameters of the model, and what
  the code relies on of them is a named hypothesis with a concrete instance in each witness.

  \<^bold>\<open>Foundations\<close>
  \<^item> \<open>Prelude\<close>: machine integers, decimal text, \<open>strtol\<close> and friends, line splitting; the
    collections of rewrite rules.
  \<^item> \<open>Engine\<close>: the interface of the engine as a record of operations and the laws the code relies
    on (\<open>doc_ok\<close>, \<open>kv_ok\<close>, \<open>key_ok\<close>; \<open>put_ok\<close> where an import may put a key that is present);
    \<open>RefEngine\<close>: a concrete engine that satisfies them, for the witnesses. It models nothing of the repository.
  \<^item> \<open>Json\<close>, \<open>Arrow\<close>: JSON values and the interface of nlohmann::json; the interface of Arrow.
  \<^item> \<open>Wire\<close>, \<open>WireClient\<close>: the tables of \<open>gen/yikv_server_generated.h\<close>, as the records of the slots
    that are stored; what a getter reads of what a \<open>Create\<close> function stored.

  \<^bold>\<open>The server\<close>
  \<^item> \<open>JsonIngest\<close>, \<open>StreamSpec\<close>: \<open>stream/json_stream_ingest.cc\<close>. The operations on documents refine
    an abstract specification on rows; a refused message changes nothing; a message applied twice
    is applied once.
  \<^item> \<open>KafkaSource\<close>: \<open>kafka/kafka_source.cc\<close>, a fold over what the broker delivers; the runs of a
    consumer, with its offset file between them, apply each message once. The code parses the
    payload of a message after it has freed the message: what it parses is a parameter.
  \<^item> \<open>Config\<close>: \<open>server_config.h\<close>, \<open>table_config.h\<close>; what an accepted configuration guarantees.
  \<^item> \<open>Registry\<close>, \<open>RegistrySafety\<close>: \<open>table_registry.cc\<close>. A reload is taken apart into phases, between
    which requests and loads run; by rule induction no request ever holds a closed index, and a
    reload either swaps the index and closes the old one or leaves everything live as it was.
  \<^item> \<open>Handlers\<close>, \<open>HandlersSpec\<close>, \<open>HandlersProps\<close>: \<open>db/handlers.cc\<close>. Each handler refines an operation
    on the table of rows; puts can be read, batches are atomic.
  \<^item> \<open>TypedTables\<close>: every way to write keeps the stored documents well typed for their schema.
  \<^item> \<open>Server\<close>: the RPC services, which agree with each other, the admin socket and \<open>main\<close>.

  \<^bold>\<open>The import\<close>
  \<^item> \<open>ArrowDoc\<close>: \<open>import/arrow_doc_helpers.cc\<close>, cells to fields, exact or refused.
  \<^item> \<open>WriteWorker\<close>, \<open>WriteSpec\<close>: \<open>indexer/worker/kv_write_worker.cc\<close> and the sheet of keyed rows
    that a batch is; chunks leave no trace. \<open>rows_added\<close> is what a table may become when rows are
    put into it, keys that come twice included.
  \<^item> \<open>BatchQueue\<close>: \<open>indexer/queue/parsed_batch_queue\<close>; \<open>Pipeline\<close>, \<open>PipelineSafety\<close>: the threads of an
    import. For any source that keeps the contract \<open>produce_source\<close> no work is lost or invented
    while nothing has failed, the threads never all wait, and every run is bounded (\<open>import_run\<close>).
  \<^item> \<open>CloudUri\<close>: \<open>indexer/source/file/cloud_filesystem\<close>; \<open>FileSource\<close>: \<open>file_source.cc\<close> as a
    control-flow graph; \<open>MysqlSource\<close>, \<open>MysqlSpec\<close>: \<open>sql/mysql_wire_source.cc\<close> likewise;
    \<open>StubSources\<close>: the sources that are not implemented.
  \<^item> \<open>ImportSpec\<close>, \<open>FileImport\<close>, \<open>MysqlImport\<close>: what any import into an index does (\<open>kv_import\<close>), and its
    two instances from start to end.
  \<^item> \<open>ImportFlags\<close>, \<open>InputFiles\<close>, \<open>ImportSizing\<close>: command line, inputs and bucket bits of the import tool.
  \<^item> \<open>KafkaCatchup\<close>: \<open>kafka/kafka_import_catchup.cc\<close> and its handover to the consumer of the server.
  \<^item> \<open>ImportMain\<close>, \<open>ImportMainProps\<close>: \<open>main\<close> of the tool, in phases around the threads; it persists
    the truth or nothing, does so in order, and ends under every schedule of the threads.

  \<^bold>\<open>The load generator\<close>
  \<^item> \<open>BenchKeys\<close>: its flags and keys; the keys of a file are those under which its rows are stored.
  \<^item> \<open>BenchRun\<close>: its threads as a step relation, its report, which adds up, and a run that never ends.
  \<^item> \<open>BenchServer\<close>: load generator, RPC service, handlers and import together.

  \<^bold>\<open>Bounds.\<close> Machine integers are words of their width; where a statement needs that a counter does
  not wrap around, it says so. Structural recursion and measures carry all loops but two: the loop
  for the bucket bits is a \<open>partial_function\<close> into \<open>option\<close>, as it can run for ever, and its end is
  proved where it ends; the poll loop of the catch-up recurs over the results of the polls and
  readings of the clock that a run sees, and ends when a reading has passed the deadline. The
  step relations have no fuel: the bound on a run of an import is a weight of its initial state.

  \<^bold>\<open>Not modelled.\<close> The libraries: \<open>src/deps\<close> (headers of FlatBuffers) and \<open>src/third_party\<close> (headers
  of librdkafka) hold code of others, and with FlatBuffers the byte layout of messages and the
  generated \<open>Verify\<close> functions, which check that layout and which nothing calls. Test programs
  (\<open>src/tests\<close>, \<open>src/tools/reload_smoke_test.cc\<close>), deployment files and scripts. Log lines, usage
  texts, and of the report of the load generator the phase times and the quotients of the counts
  and sums in the model. Weak memory orders: the atomics of the load generator that only add up
  times are read after the threads have been joined, all others are taken as sequentially
  consistent. Of undefined behaviour, the payload read after it was freed is arbitrary bytes (a
  crash on that read is left out); overflow of the signed time of the catch-up wraps around.
\<close>

end
